(* ===== verification/Prelude.thy ===== *)
theory Prelude
  imports Main "HOL-Library.Word"
begin

text \<open>
  Shared vocabulary of the development: the type names used for the machine types of the Go
  code, the fact collections the component proofs draw on, generic lemmas on lists and options,
  and the two small contracts (an equality decided by a normal form, and a capped growth
  schedule) that several components rely on.

  Go strings are byte sequences and are modelled by \<open>string\<close>, whose characters are bytes.
  An \<open>int64\<close> (and \<open>int\<close>, which is 64 bits wide on every platform the
  project builds for) is a \<open>64 word\<close>, read with \<open>sint\<close>.  Wall-clock instants and the
  differences the code forms from them are \<open>int\<close>, in nanoseconds.
\<close>

type_synonym int64 = "64 word"
type_synonym instant = int

named_theorems go_defs "definitions of the operations of a component"
named_theorems step_intros "introduction rules of the step relations"

section \<open>Generic lemmas\<close>

lemma list_all2_eq_map: "list_all2 (\<lambda>x y. f x = f y) xs ys \<longleftrightarrow> map f xs = map f ys"
  by (auto simp: list_all2_conv_all_nth list_eq_iff_nth_eq)

lemma successively_append_single:
  "successively P (xs @ [x]) \<longleftrightarrow> successively P xs \<and> (xs \<noteq> [] \<longrightarrow> P (last xs) x)"
  by (auto simp: successively_append_iff)

lemma last_default_snoc [simp]: "(if xs @ [x] = [] then d else last (xs @ [x])) = x"
  by simp

lemma filter_le_length: "length (filter P xs) \<le> length xs"
  by simp

section \<open>Runs of a labelled step relation\<close>

inductive run_of :: "('l \<Rightarrow> 's \<Rightarrow> 's \<Rightarrow> bool) \<Rightarrow> 'l list \<Rightarrow> 's \<Rightarrow> 's \<Rightarrow> bool"
  for step :: "'l \<Rightarrow> 's \<Rightarrow> 's \<Rightarrow> bool" where
  run_nil: "run_of step [] s s"
| run_snoc: "run_of step ls s t \<Longrightarrow> step l t u \<Longrightarrow> run_of step (ls @ [l]) s u"

declare run_nil [simp, intro]

lemma run_single: "step l s t \<Longrightarrow> run_of step [l] s t"
  using run_snoc [OF run_nil, of step l s t] by simp

lemma run_append:
  assumes "run_of step ls s t" and "run_of step ms t u"
  shows "run_of step (ls @ ms) s u"
  using assms(2,1)
  by (induction rule: run_of.induct) (auto intro: run_snoc simp flip: append_assoc)

lemma run_Cons: "step l s t \<Longrightarrow> run_of step ls t u \<Longrightarrow> run_of step (l # ls) s u"
  using run_append [OF run_single] by fastforce

text \<open>
  The contract between the operations of a component and its state invariant: every step whose
  label is allowed keeps the invariant.  Every run then keeps it.
\<close>

locale step_invariant =
  fixes step :: "'l \<Rightarrow> 's \<Rightarrow> 's \<Rightarrow> bool"
    and allowed :: "'l \<Rightarrow> bool"
    and Inv :: "'s \<Rightarrow> bool"
  assumes step_keeps: "allowed l \<Longrightarrow> step l s t \<Longrightarrow> Inv s \<Longrightarrow> Inv t"
begin

lemma run_keeps: "run_of step ls s t \<Longrightarrow> list_all allowed ls \<Longrightarrow> Inv s \<Longrightarrow> Inv t"
  by (induction rule: run_of.induct) (auto intro: step_keeps)

end

locale step_invariant_all = step_invariant step "\<lambda>_. True" Inv
  for step :: "'l \<Rightarrow> 's \<Rightarrow> 's \<Rightarrow> bool" and Inv :: "'s \<Rightarrow> bool"
begin

lemma run_keeps_all: "run_of step ls s t \<Longrightarrow> Inv s \<Longrightarrow> Inv t"
  using run_keeps by (simp add: list_all_iff)

end

text \<open>
  A system seen through one of its parts: every step of the whole is a step of the part or leaves it
  alone.  Its runs then project to runs of the part, and what every run of the part keeps is kept by
  every run of the whole.
\<close>

locale step_projection =
  fixes step :: "'l \<Rightarrow> 's \<Rightarrow> 's \<Rightarrow> bool"
    and part_step :: "'k \<Rightarrow> 'p \<Rightarrow> 'p \<Rightarrow> bool"
    and part :: "'s \<Rightarrow> 'p"
  assumes step_projects: "step l s t \<Longrightarrow> part t = part s \<or> (\<exists>k. part_step k (part s) (part t))"
begin

lemma run_projects: "run_of step ls s t \<Longrightarrow> \<exists>ks. run_of part_step ks (part s) (part t)"
proof (induction rule: run_of.induct)
  case (run_snoc ls s t l u)
  then show ?case using step_projects [OF run_snoc.hyps(2)] by (metis run_of.run_snoc)
qed blast

end

locale step_projection_inv =
  step_projection step part_step part + inner: step_invariant_all part_step Inv
  for step :: "'l \<Rightarrow> 's \<Rightarrow> 's \<Rightarrow> bool" and part_step :: "'k \<Rightarrow> 'p \<Rightarrow> 'p \<Rightarrow> bool"
    and part :: "'s \<Rightarrow> 'p" and Inv :: "'p \<Rightarrow> bool"

sublocale step_projection_inv \<subseteq> whole: step_invariant_all step "\<lambda>s. Inv (part s)"
proof unfold_locales
  fix l s t
  assume "step l s t" and "Inv (part s)"
  then show "Inv (part t)" using step_projects inner.step_keeps by metis
qed

section \<open>An equality decided by a normal form\<close>

text \<open>
  A hand-written comparison is trusted by its callers to behave as an equality.  The contract
  says that it decides equality of a normal form; reflexivity, symmetry and transitivity, and
  the soundness of dropping a value equal to the previous one, follow once for all instances.
\<close>

fun drop_repeats :: "('a \<Rightarrow> 'a \<Rightarrow> bool) \<Rightarrow> 'a \<Rightarrow> 'a list \<Rightarrow> 'a list" where
  "drop_repeats eq prev [] = []"
| "drop_repeats eq prev (x # xs) =
     (if eq x prev then drop_repeats eq prev xs else x # drop_repeats eq x xs)"

locale equality_by_norm =
  fixes eq :: "'a \<Rightarrow> 'a \<Rightarrow> bool" and norm :: "'a \<Rightarrow> 'a"
  assumes eq_norm: "eq a b \<longleftrightarrow> norm a = norm b"
    and norm_idem: "norm (norm a) = norm a"
begin

lemma eq_refl: "eq a a"
  by (simp add: eq_norm)

lemma eq_sym: "eq a b \<Longrightarrow> eq b a"
  by (simp add: eq_norm)

lemma eq_trans: "eq a b \<Longrightarrow> eq b c \<Longrightarrow> eq a c"
  by (simp add: eq_norm)

lemma eq_own_norm: "eq a (norm a)"
  by (simp add: eq_norm norm_idem)

lemma drop_repeats_chain: "successively (\<lambda>x y. \<not> eq y x) (prev # drop_repeats eq prev xs)"
  by (induction xs arbitrary: prev) auto

lemma drop_repeats_last:
  "eq (last (prev # xs)) (last (prev # drop_repeats eq prev xs))"
proof (induction xs arbitrary: prev)
  case Nil
  show ?case by (simp add: eq_refl)
next
  case (Cons x xs)
  show ?case
  proof (cases "eq x prev")
    case True
    have "norm (last (x # xs)) = norm (last (prev # xs))"
      using True by (simp add: eq_norm)
    with True Cons.IH [of prev] show ?thesis by (simp add: eq_norm)
  next
    case False
    with Cons.IH [of x] show ?thesis by simp
  qed
qed

end

end
