(* ===== verification/Activity.thy ===== *)
theory Activity
  imports Prelude
begin

text \<open>
  The shared presence payload, \<open>pkg/types/activity.go\<close>: the activity record with its optional
  parts, the snapshot envelope, and the comparison and copying functions.  A pointer field is an
  \<open>option\<close>; the \<open>Buttons\<close> slice is an optional list, so that a nil slice and an empty
  slice stay distinct.  Copying is modelled here by value; \<open>Activity_Store\<close> models it over an
  explicit store, where it matters that a clone shares no memory with its original.
\<close>

type_synonym ActivityType = int64

definition ActivityPlaying :: ActivityType where "ActivityPlaying = 0"
definition ActivityStreaming :: ActivityType where "ActivityStreaming = 1"
definition ActivityListening :: ActivityType where "ActivityListening = 2"
definition ActivityWatching :: ActivityType where "ActivityWatching = 3"
definition ActivityCustom :: ActivityType where "ActivityCustom = 4"
definition ActivityCompeting :: ActivityType where "ActivityCompeting = 5"

lemmas activity_type_defs =
  ActivityPlaying_def ActivityStreaming_def ActivityListening_def
  ActivityWatching_def ActivityCustom_def ActivityCompeting_def

record Timestamps =
  ts_Start :: int64
  ts_End :: int64

record Assets =
  LargeImage :: string
  LargeText :: string
  SmallImage :: string
  SmallText :: string

record Party =
  party_ID :: string
  party_Size :: "int64 \<times> int64"

record Button =
  Label :: string
  URL :: string

record Activity =
  a_Details :: string
  a_State :: string
  a_Timestamps :: "Timestamps option"
  a_Assets :: "Assets option"
  a_Party :: "Party option"
  a_Buttons :: "Button list option"
  a_Type :: ActivityType

text \<open>\<open>ActivitySource\<close> is a string type; a decoded snapshot may carry any string.\<close>

type_synonym ActivitySource = string

definition SourceNone :: ActivitySource where "SourceNone = ''none''"
definition SourceIPC :: ActivitySource where "SourceIPC = ''ipc''"

lemma source_distinct [simp]:
  "SourceNone \<noteq> SourceIPC" "SourceIPC \<noteq> SourceNone" "SourceNone \<noteq> []" "SourceIPC \<noteq> []"
  by (simp_all add: SourceNone_def SourceIPC_def)

record PresenceSnapshot =
  Source :: ActivitySource
  snap_Activity :: "Activity option"

text \<open>\<open>len\<close> of a slice that may be nil, and the zero value \<open>types.Activity{}\<close>.\<close>

definition button_list :: "Button list option \<Rightarrow> Button list" where
  "button_list bs = (case bs of None \<Rightarrow> [] | Some xs \<Rightarrow> xs)"

definition zero_activity :: Activity where
  "zero_activity = \<lparr>a_Details = [], a_State = [], a_Timestamps = None, a_Assets = None,
     a_Party = None, a_Buttons = None, a_Type = 0\<rparr>"

section \<open>Operations\<close>

definition IsEmpty :: "Activity \<Rightarrow> bool" where
  "IsEmpty a \<longleftrightarrow> a_Details a = [] \<and> a_State a = [] \<and> a_Timestamps a = None \<and> a_Assets a = None
     \<and> a_Party a = None \<and> length (button_list (a_Buttons a)) = 0 \<and> a_Type a = ActivityPlaying"

definition Clone :: "Activity \<Rightarrow> Activity" where
  "Clone a =
     (let out = zero_activity\<lparr>a_Details := a_Details a, a_State := a_State a, a_Type := a_Type a\<rparr>;
          out = (case a_Timestamps a of None \<Rightarrow> out | Some ts \<Rightarrow> out\<lparr>a_Timestamps := Some ts\<rparr>);
          out = (case a_Assets a of None \<Rightarrow> out | Some as \<Rightarrow> out\<lparr>a_Assets := Some as\<rparr>);
          out = (case a_Party a of None \<Rightarrow> out | Some p \<Rightarrow> out\<lparr>a_Party := Some p\<rparr>)
      in (case a_Buttons a of None \<Rightarrow> out | Some bs \<Rightarrow> out\<lparr>a_Buttons := Some bs\<rparr>))"

fun timestampsEqual :: "Timestamps option \<Rightarrow> Timestamps option \<Rightarrow> bool" where
  "timestampsEqual None None = True"
| "timestampsEqual None (Some b) = (ts_Start b = 0 \<and> ts_End b = 0)"
| "timestampsEqual (Some a) None = (ts_Start a = 0 \<and> ts_End a = 0)"
| "timestampsEqual (Some a) (Some b) = (ts_Start a = ts_Start b \<and> ts_End a = ts_End b)"

fun assetsEqual :: "Assets option \<Rightarrow> Assets option \<Rightarrow> bool" where
  "assetsEqual None None = True"
| "assetsEqual None (Some b) =
     (LargeImage b = [] \<and> LargeText b = [] \<and> SmallImage b = [] \<and> SmallText b = [])"
| "assetsEqual (Some a) None =
     (LargeImage a = [] \<and> LargeText a = [] \<and> SmallImage a = [] \<and> SmallText a = [])"
| "assetsEqual (Some a) (Some b) =
     (LargeImage a = LargeImage b \<and> LargeText a = LargeText b \<and>
      SmallImage a = SmallImage b \<and> SmallText a = SmallText b)"

fun partyEqual :: "Party option \<Rightarrow> Party option \<Rightarrow> bool" where
  "partyEqual None None = True"
| "partyEqual None (Some b) = (party_ID b = [] \<and> party_Size b = (0, 0))"
| "partyEqual (Some a) None = (party_ID a = [] \<and> party_Size a = (0, 0))"
| "partyEqual (Some a) (Some b) = (party_ID a = party_ID b \<and> party_Size a = party_Size b)"

text \<open>The loop over \<open>a.Buttons\<close>; it runs only when the two lengths agree.\<close>

fun buttonsEqual :: "Button list \<Rightarrow> Button list \<Rightarrow> bool" where
  "buttonsEqual [] bs = True"
| "buttonsEqual (a # as) [] = True"
| "buttonsEqual (a # as) (b # bs) =
     (if Label a \<noteq> Label b \<or> URL a \<noteq> URL b then False else buttonsEqual as bs)"

definition Equals :: "Activity \<Rightarrow> Activity \<Rightarrow> bool" where
  "Equals a b =
     (if a_Details a \<noteq> a_Details b \<or> a_State a \<noteq> a_State b \<or> a_Type a \<noteq> a_Type b then False
      else if \<not> timestampsEqual (a_Timestamps a) (a_Timestamps b) then False
      else if \<not> assetsEqual (a_Assets a) (a_Assets b) then False
      else if \<not> partyEqual (a_Party a) (a_Party b) then False
      else if length (button_list (a_Buttons a)) \<noteq> length (button_list (a_Buttons b)) then False
      else buttonsEqual (button_list (a_Buttons a)) (button_list (a_Buttons b)))"

section \<open>The normal form behind the comparison\<close>

text \<open>
  \<open>Equals\<close> identifies an absent part with a part holding only zero values, and a nil button
  slice with an empty one.  The normal form makes that choice explicit: every such part absent.
\<close>

definition drop_if :: "('a \<Rightarrow> bool) \<Rightarrow> 'a option \<Rightarrow> 'a option" where
  "drop_if p x = (case x of None \<Rightarrow> None | Some v \<Rightarrow> if p v then None else Some v)"

definition zero_timestamps :: "Timestamps \<Rightarrow> bool" where
  "zero_timestamps t \<longleftrightarrow> ts_Start t = 0 \<and> ts_End t = 0"

definition zero_assets :: "Assets \<Rightarrow> bool" where
  "zero_assets s \<longleftrightarrow> LargeImage s = [] \<and> LargeText s = [] \<and> SmallImage s = [] \<and> SmallText s = []"

definition zero_party :: "Party \<Rightarrow> bool" where
  "zero_party p \<longleftrightarrow> party_ID p = [] \<and> party_Size p = (0, 0)"

definition activity_norm :: "Activity \<Rightarrow> Activity" where
  "activity_norm a = a\<lparr>a_Timestamps := drop_if zero_timestamps (a_Timestamps a),
     a_Assets := drop_if zero_assets (a_Assets a), a_Party := drop_if zero_party (a_Party a),
     a_Buttons := drop_if (\<lambda>bs. bs = []) (a_Buttons a)\<rparr>"

lemma drop_if_simps [simp]:
  "drop_if p None = None" "drop_if p (Some v) = (if p v then None else Some v)"
  by (simp_all add: drop_if_def)

lemma drop_if_idem [simp]: "drop_if p (drop_if p x) = drop_if p x"
  by (cases x) simp_all

lemma timestampsEqual_norm:
  "timestampsEqual s t \<longleftrightarrow> drop_if zero_timestamps s = drop_if zero_timestamps t"
  by (cases "(s, t)" rule: timestampsEqual.cases) (auto simp: zero_timestamps_def)

lemma assetsEqual_norm: "assetsEqual s t \<longleftrightarrow> drop_if zero_assets s = drop_if zero_assets t"
  by (cases "(s, t)" rule: assetsEqual.cases) (auto simp: zero_assets_def)

lemma partyEqual_norm: "partyEqual s t \<longleftrightarrow> drop_if zero_party s = drop_if zero_party t"
  by (cases "(s, t)" rule: partyEqual.cases) (auto simp: zero_party_def)

lemma buttonsEqual_eq: "length as = length bs \<Longrightarrow> buttonsEqual as bs \<longleftrightarrow> as = bs"
  by (induction as bs rule: buttonsEqual.induct) auto

lemma button_list_norm:
  "button_list s = button_list t \<longleftrightarrow> drop_if (\<lambda>bs. bs = []) s = drop_if (\<lambda>bs. bs = []) t"
  by (cases s; cases t) (auto simp: button_list_def)

lemma Equals_norm: "Equals a b \<longleftrightarrow> activity_norm a = activity_norm b"
proof -
  have "Equals a b \<longleftrightarrow> a_Details a = a_Details b \<and> a_State a = a_State b \<and> a_Type a = a_Type b
      \<and> timestampsEqual (a_Timestamps a) (a_Timestamps b) \<and> assetsEqual (a_Assets a) (a_Assets b)
      \<and> partyEqual (a_Party a) (a_Party b)
      \<and> button_list (a_Buttons a) = button_list (a_Buttons b)"
    by (auto simp: Equals_def buttonsEqual_eq)
  also have "\<dots> \<longleftrightarrow> activity_norm a = activity_norm b"
    unfolding timestampsEqual_norm assetsEqual_norm partyEqual_norm button_list_norm
    by (cases a; cases b) (auto simp: activity_norm_def)
  finally show ?thesis .
qed

lemma activity_norm_idem: "activity_norm (activity_norm a) = activity_norm a"
  by (simp add: activity_norm_def)

interpretation activity_eq: equality_by_norm Equals activity_norm
  by unfold_locales (simp_all add: Equals_norm activity_norm_idem)

lemma activity_norm_zero [simp]: "activity_norm zero_activity = zero_activity"
  by (simp add: activity_norm_def zero_activity_def)

lemma Clone_id [simp]: "Clone a = a"
  by (auto simp: Clone_def zero_activity_def Let_def split: option.splits)

lemma IsEmpty_imp_Equals_zero: "IsEmpty a \<Longrightarrow> Equals a zero_activity"
  by (auto simp: IsEmpty_def Equals_def zero_activity_def button_list_def ActivityPlaying_def)

end
