(* ===== verification/Activity_Store.thy ===== *)
theory Activity_Store
  imports Activity
begin

text \<open>
  \<open>Activity.Clone\<close> over an explicit store.  An activity value in Go holds four references (three
  struct pointers and the backing array of \<open>Buttons\<close>); assigning the struct copies the references,
  so two activity values may share parts.  \<open>Clone\<close> exists to cut that sharing: the presence cache
  keeps and hands out clones so that a caller writing through its copy cannot reach the cache.
  The store has one map per kind of part and an allocation counter; \<open>clone_ref\<close> follows the
  code's field by field copy, allocating a part exactly where the code takes the address of a new
  variable or calls \<open>make\<close>.
\<close>

type_synonym addr = nat

record store =
  st_ts :: "addr \<rightharpoonup> Timestamps"
  st_as :: "addr \<rightharpoonup> Assets"
  st_pt :: "addr \<rightharpoonup> Party"
  st_bt :: "addr \<rightharpoonup> Button list"
  st_next :: addr

record Activity_ref =
  r_Details :: string
  r_State :: string
  r_Timestamps :: "addr option"
  r_Assets :: "addr option"
  r_Party :: "addr option"
  r_Buttons :: "addr option"
  r_Type :: ActivityType

definition store_ok :: "store \<Rightarrow> bool" where
  "store_ok s \<longleftrightarrow> (\<forall>p\<ge>st_next s. st_ts s p = None \<and> st_as s p = None \<and> st_pt s p = None \<and> st_bt s p = None)"

definition ref_ok :: "store \<Rightarrow> Activity_ref \<Rightarrow> bool" where
  "ref_ok s r \<longleftrightarrow> set_option (r_Timestamps r) \<subseteq> dom (st_ts s) \<and> set_option (r_Assets r) \<subseteq> dom (st_as s)
     \<and> set_option (r_Party r) \<subseteq> dom (st_pt s) \<and> set_option (r_Buttons r) \<subseteq> dom (st_bt s)"

text \<open>The value an activity denotes in a store.\<close>

definition load :: "store \<Rightarrow> Activity_ref \<Rightarrow> Activity" where
  "load s r = \<lparr>a_Details = r_Details r, a_State = r_State r,
     a_Timestamps = Option.bind (r_Timestamps r) (st_ts s),
     a_Assets = Option.bind (r_Assets r) (st_as s),
     a_Party = Option.bind (r_Party r) (st_pt s),
     a_Buttons = Option.bind (r_Buttons r) (st_bt s), a_Type = r_Type r\<rparr>"

section \<open>Copying\<close>

definition alloc_ts :: "Timestamps \<Rightarrow> store \<Rightarrow> store \<times> addr" where
  "alloc_ts v s = (s\<lparr>st_ts := (st_ts s)(st_next s \<mapsto> v), st_next := Suc (st_next s)\<rparr>, st_next s)"

definition alloc_as :: "Assets \<Rightarrow> store \<Rightarrow> store \<times> addr" where
  "alloc_as v s = (s\<lparr>st_as := (st_as s)(st_next s \<mapsto> v), st_next := Suc (st_next s)\<rparr>, st_next s)"

definition alloc_pt :: "Party \<Rightarrow> store \<Rightarrow> store \<times> addr" where
  "alloc_pt v s = (s\<lparr>st_pt := (st_pt s)(st_next s \<mapsto> v), st_next := Suc (st_next s)\<rparr>, st_next s)"

definition alloc_bt :: "Button list \<Rightarrow> store \<Rightarrow> store \<times> addr" where
  "alloc_bt v s = (s\<lparr>st_bt := (st_bt s)(st_next s \<mapsto> v), st_next := Suc (st_next s)\<rparr>, st_next s)"

text \<open>\<open>if p != nil { v := *p; q = &v }\<close>: nil stays nil, anything else is copied to a new cell.\<close>

definition copy_part ::
  "('v \<Rightarrow> store \<Rightarrow> store \<times> addr) \<Rightarrow> (store \<Rightarrow> addr \<Rightarrow> 'v option) \<Rightarrow> addr option \<Rightarrow> store
    \<Rightarrow> store \<times> addr option" where
  "copy_part alloc deref p s =
     (case p of
        None \<Rightarrow> (s, None)
      | Some a \<Rightarrow>
          (case deref s a of
             None \<Rightarrow> (s, None)
           | Some v \<Rightarrow> (case alloc v s of (s', b) \<Rightarrow> (s', Some b))))"

definition clone_ref :: "Activity_ref \<Rightarrow> store \<Rightarrow> store \<times> Activity_ref" where
  "clone_ref r s =
     (case copy_part alloc_ts st_ts (r_Timestamps r) s of (s1, ts) \<Rightarrow>
      case copy_part alloc_as st_as (r_Assets r) s1 of (s2, as) \<Rightarrow>
      case copy_part alloc_pt st_pt (r_Party r) s2 of (s3, pt) \<Rightarrow>
      case copy_part alloc_bt st_bt (r_Buttons r) s3 of (s4, bt) \<Rightarrow>
        (s4, \<lparr>r_Details = r_Details r, r_State = r_State r, r_Timestamps = ts, r_Assets = as,
             r_Party = pt, r_Buttons = bt, r_Type = r_Type r\<rparr>))"

section \<open>Writing through an activity\<close>

text \<open>
  What a holder of an activity can do to shared memory: overwrite one of the structs its pointers
  reach, or an element of its button array.
\<close>

datatype part_write =
    Write_ts Timestamps
  | Write_assets Assets
  | Write_pt Party
  | Write_bt nat Button

fun write_through :: "Activity_ref \<Rightarrow> store \<Rightarrow> part_write \<Rightarrow> store" where
  "write_through r s (Write_ts v) =
     (case r_Timestamps r of None \<Rightarrow> s | Some a \<Rightarrow> s\<lparr>st_ts := (st_ts s)(a \<mapsto> v)\<rparr>)"
| "write_through r s (Write_assets v) =
     (case r_Assets r of None \<Rightarrow> s | Some a \<Rightarrow> s\<lparr>st_as := (st_as s)(a \<mapsto> v)\<rparr>)"
| "write_through r s (Write_pt v) =
     (case r_Party r of None \<Rightarrow> s | Some a \<Rightarrow> s\<lparr>st_pt := (st_pt s)(a \<mapsto> v)\<rparr>)"
| "write_through r s (Write_bt i b) =
     (case r_Buttons r of None \<Rightarrow> s
      | Some a \<Rightarrow> (case st_bt s a of None \<Rightarrow> s | Some bs \<Rightarrow> s\<lparr>st_bt := (st_bt s)(a \<mapsto> bs[i := b])\<rparr>))"

definition writes_through :: "Activity_ref \<Rightarrow> store \<Rightarrow> part_write list \<Rightarrow> store" where
  "writes_through r s ws = foldl (write_through r) s ws"

definition unshared :: "Activity_ref \<Rightarrow> Activity_ref \<Rightarrow> bool" where
  "unshared r q \<longleftrightarrow> set_option (r_Timestamps r) \<inter> set_option (r_Timestamps q) = {}
     \<and> set_option (r_Assets r) \<inter> set_option (r_Assets q) = {}
     \<and> set_option (r_Party r) \<inter> set_option (r_Party q) = {}
     \<and> set_option (r_Buttons r) \<inter> set_option (r_Buttons q) = {}"

lemma unshared_sym: "unshared r q \<Longrightarrow> unshared q r"
  by (auto simp: unshared_def)

lemma bind_upd_other: "p \<noteq> Some a \<Longrightarrow> Option.bind p (m(a \<mapsto> v)) = Option.bind p m"
  by (cases p) auto

lemma write_unshared: "unshared r q \<Longrightarrow> load (write_through r s w) q = load s q"
  by (cases w)
    (auto simp: unshared_def load_def bind_upd_other split: option.splits)

lemma writes_unshared: "unshared r q \<Longrightarrow> load (writes_through r s ws) q = load s q"
  by (induction ws arbitrary: s) (auto simp: writes_through_def write_unshared)

section \<open>Cloning cuts all sharing\<close>

lemmas copy_defs =
  clone_ref_def copy_part_def alloc_ts_def alloc_as_def alloc_pt_def alloc_bt_def

lemma clone_ref_load:
  assumes "store_ok s" and "ref_ok s r" and "clone_ref r s = (s', q)"
  shows "load s' q = load s r" and "load s' r = load s r"
  using assms
  by (auto simp: copy_defs load_def ref_ok_def store_ok_def split: option.splits)

lemma clone_ref_unshared:
  assumes "store_ok s" and "ref_ok s r" and "clone_ref r s = (s', q)"
  shows "unshared q r"
  using assms
  by (auto simp: copy_defs unshared_def ref_ok_def store_ok_def split: option.splits)

lemma clone_ref_ok:
  assumes "store_ok s" and "ref_ok s r" and "clone_ref r s = (s', q)"
  shows "store_ok s'" and "ref_ok s' q" and "ref_ok s' r"
  using assms
  by (auto simp: copy_defs ref_ok_def store_ok_def less_Suc_eq split: option.splits)

end
