(* ===== verification/Go_Strings.thy ===== *)
theory Go_Strings
  imports Prelude
begin

text \<open>
  The functions of Go's \<open>strings\<close> and \<open>net\<close> packages that the program applies to byte strings, at
  byte level.  \<open>TrimSpace\<close> removes Unicode white space: the ASCII spaces are single bytes, the others
  are recognised by their UTF-8 encodings (an ill-formed sequence decodes to U+FFFD, which is no
  space, so matching the encodings is exact).
\<close>

section \<open>Searching and cutting\<close>

definition has_prefix :: "string \<Rightarrow> string \<Rightarrow> bool" where
  "has_prefix s p \<longleftrightarrow> take (length p) s = p"

definition trim_prefix :: "string \<Rightarrow> string \<Rightarrow> string" where
  "trim_prefix s p = (if has_prefix s p then drop (length p) s else s)"

definition has_suffix :: "string \<Rightarrow> string \<Rightarrow> bool" where
  "has_suffix s p \<longleftrightarrow> has_prefix (rev s) (rev p)"

definition trim_suffix :: "string \<Rightarrow> string \<Rightarrow> string" where
  "trim_suffix s p = (if has_suffix s p then take (length s - length p) s else s)"

text \<open>\<open>cut\<close> at the first occurrence of a byte: what \<open>SplitN(s, c, 2)\<close> needs.\<close>

fun cut :: "char \<Rightarrow> string \<Rightarrow> (string \<times> string) option" where
  "cut c [] = None"
| "cut c (x # xs) =
     (if x = c then Some ([], xs) else map_option (\<lambda>(a, b). (x # a, b)) (cut c xs))"

definition cut_last :: "char \<Rightarrow> string \<Rightarrow> (string \<times> string) option" where
  "cut_last c s = map_option (\<lambda>(a, b). (rev b, rev a)) (cut c (rev s))"

text \<open>\<open>strings.Split(s, c)\<close> for a one-byte separator.\<close>

fun split_byte :: "char \<Rightarrow> string \<Rightarrow> string list" where
  "split_byte c [] = [[]]"
| "split_byte c (x # xs) =
     (if x = c then [] # split_byte c xs
      else (case split_byte c xs of y # ys \<Rightarrow> (x # y) # ys | [] \<Rightarrow> [[x]]))"

definition contains_byte :: "string \<Rightarrow> char \<Rightarrow> bool" where
  "contains_byte s c \<longleftrightarrow> c \<in> set s"

lemma cut_None: "cut c s = None \<longleftrightarrow> c \<notin> set s"
  by (induction s) auto

lemma cut_append: "c \<notin> set a \<Longrightarrow> cut c (a @ c # b) = Some (a, b)"
  by (induction a) auto

lemma cut_Some: "cut c s = Some (a, b) \<longleftrightarrow> s = a @ c # b \<and> c \<notin> set a"
proof
  show "cut c s = Some (a, b) \<Longrightarrow> s = a @ c # b \<and> c \<notin> set a"
    by (induction s arbitrary: a) (auto split: if_splits)
qed (auto simp: cut_append)

lemma cut_last_append: "c \<notin> set b \<Longrightarrow> cut_last c (a @ c # b) = Some (a, b)"
  by (simp add: cut_last_def cut_append)

lemma cut_last_None: "cut_last c s = None \<longleftrightarrow> c \<notin> set s"
  by (simp add: cut_last_def cut_None)

lemma has_prefix_append [simp]: "has_prefix (p @ s) p"
  by (simp add: has_prefix_def)

lemma has_prefix_iff: "has_prefix s p \<longleftrightarrow> (\<exists>t. s = p @ t)"
  by (metis append_eq_conv_conj has_prefix_append has_prefix_def append_take_drop_id)

lemma trim_prefix_append [simp]: "trim_prefix (p @ s) p = s"
  by (simp add: trim_prefix_def)

section \<open>White space\<close>

definition ascii_spaces :: "string list" where
  "ascii_spaces = [[CHR 0x09], [CHR 0x0A], [CHR 0x0B], [CHR 0x0C], [CHR 0x0D], [CHR 0x20]]"

definition wide_spaces :: "string list" where
  "wide_spaces =
     [[CHR 0xC2, CHR 0x85], [CHR 0xC2, CHR 0xA0], [CHR 0xE1, CHR 0x9A, CHR 0x80]] @
     map (\<lambda>n. [CHR 0xE2, CHR 0x80, char_of (128 + n)]) [0..<11] @
     [[CHR 0xE2, CHR 0x80, CHR 0xA8], [CHR 0xE2, CHR 0x80, CHR 0xA9],
      [CHR 0xE2, CHR 0x80, CHR 0xAF], [CHR 0xE2, CHR 0x81, CHR 0x9F],
      [CHR 0xE3, CHR 0x80, CHR 0x80]]"

definition space_seqs :: "string list" where
  "space_seqs = ascii_spaces @ wide_spaces"

lemma space_seqs_nonempty: "p \<in> set space_seqs \<Longrightarrow> p \<noteq> []"
  by (auto simp: space_seqs_def ascii_spaces_def wide_spaces_def)

text \<open>\<open>trim_left seqs s\<close> strips one of the sequences from the front while one matches.\<close>

function trim_left :: "string list \<Rightarrow> string \<Rightarrow> string" where
  "trim_left seqs s =
     (case find (\<lambda>p. p \<noteq> [] \<and> has_prefix s p) seqs of
        None \<Rightarrow> s
      | Some p \<Rightarrow> trim_left seqs (drop (length p) s))"
  by pat_completeness auto
termination
  by (relation "measure (\<lambda>(seqs, s). length s)") (auto simp: find_Some_iff has_prefix_iff)

declare trim_left.simps [simp del]

definition TrimSpace :: "string \<Rightarrow> string" where
  "TrimSpace s = rev (trim_left (map rev space_seqs) (rev (trim_left space_seqs s)))"

lemma find_prefixD: "find (\<lambda>p. p \<noteq> [] \<and> has_prefix s p) seqs = Some p \<Longrightarrow>
    p \<noteq> [] \<and> has_prefix s p \<and> length p \<le> length s"
  by (auto simp: find_Some_iff has_prefix_iff)

lemma trim_left_length: "length (trim_left seqs s) \<le> length s"
proof (induction seqs s rule: trim_left.induct)
  case (1 seqs s)
  then show ?case
    by (force simp: trim_left.simps [of seqs s] split: option.splits)
qed

lemma trim_left_fixed:
  "trim_left seqs s = s \<longleftrightarrow> find (\<lambda>p. p \<noteq> [] \<and> has_prefix s p) seqs = None"
proof (cases "find (\<lambda>p. p \<noteq> [] \<and> has_prefix s p) seqs")
  case None
  then show ?thesis by (simp add: trim_left.simps [of seqs s])
next
  case (Some p)
  have "length (trim_left seqs s) \<le> length (drop (length p) s)"
    using Some trim_left_length [of seqs "drop (length p) s"]
    by (simp add: trim_left.simps [of seqs s])
  also have "\<dots> < length s"
    using find_prefixD [OF Some] by (cases p) auto
  finally show ?thesis using Some by auto
qed

lemma trim_left_idem: "trim_left seqs (trim_left seqs s) = trim_left seqs s"
proof (induction seqs s rule: trim_left.induct)
  case (1 seqs s)
  show ?case
  proof (cases "find (\<lambda>p. p \<noteq> [] \<and> has_prefix s p) seqs")
    case None
    then have "trim_left seqs s = s" by (simp add: trim_left_fixed)
    then show ?thesis by simp
  next
    case (Some p)
    with 1 show ?thesis by (simp add: trim_left.simps [of seqs s])
  qed
qed

text \<open>A string of printable ASCII bytes is its own trimming.\<close>

definition graphic :: "char \<Rightarrow> bool" where
  "graphic c \<longleftrightarrow> 0x21 \<le> (of_char c :: nat) \<and> (of_char c :: nat) \<le> 0x7E"

lemma space_seqs_not_graphic:
  "p \<in> set space_seqs \<Longrightarrow> \<not> graphic (hd p) \<and> \<not> graphic (last p)"
  by (auto simp: space_seqs_def ascii_spaces_def wide_spaces_def graphic_def)

lemma trim_left_graphic:
  assumes "\<forall>p\<in>set seqs. p \<noteq> [] \<longrightarrow> \<not> graphic (hd p)" and "s = [] \<or> graphic (hd s)"
  shows "trim_left seqs s = s"
proof -
  have "\<not> has_prefix s p" if "p \<in> set seqs" and "p \<noteq> []" for p
    using assms that by (cases s; cases p) (auto simp: has_prefix_def)
  then show ?thesis by (auto simp: trim_left_fixed find_None_iff)
qed

lemma TrimSpace_graphic:
  assumes "s = [] \<or> graphic (hd s) \<and> graphic (last s)"
  shows "TrimSpace s = s"
proof -
  have "trim_left space_seqs s = s"
    using assms space_seqs_not_graphic by (intro trim_left_graphic) auto
  moreover have "trim_left (map rev space_seqs) (rev s) = rev s"
    using assms space_seqs_not_graphic
    by (intro trim_left_graphic) (auto simp: hd_rev)
  ultimately show ?thesis by (simp add: TrimSpace_def)
qed

section \<open>ASCII case and decimal numbers\<close>

definition to_lower :: "char \<Rightarrow> char" where
  "to_lower c = (if 0x41 \<le> (of_char c :: nat) \<and> (of_char c :: nat) \<le> 0x5A
     then char_of ((of_char c :: nat) + 32) else c)"

text \<open>
  \<open>strings.EqualFold(s, w)\<close> for a lower-case ASCII word \<open>w\<close> without \<open>k\<close> and \<open>s\<close>, the two letters
  that a non-ASCII rune folds to.
\<close>

definition equal_fold_lower :: "string \<Rightarrow> string \<Rightarrow> bool" where
  "equal_fold_lower s w \<longleftrightarrow> map to_lower s = w"

fun itoa_nat :: "nat \<Rightarrow> string" where
  "itoa_nat n = (if n < 10 then [char_of (48 + n)] else itoa_nat (n div 10) @ [char_of (48 + n mod 10)])"

declare itoa_nat.simps [simp del]

definition itoa :: "int \<Rightarrow> string" where
  "itoa i = (if i < 0 then CHR ''-'' # itoa_nat (nat (- i)) else itoa_nat (nat i))"

text \<open>\<open>strings.Join\<close>.\<close>

fun join :: "string list \<Rightarrow> string \<Rightarrow> string" where
  "join [] sep = []"
| "join [s] sep = s"
| "join (s # t # ss) sep = s @ sep @ join (t # ss) sep"

section \<open>Host and port\<close>

text \<open>\<open>net.SplitHostPort\<close>; every error is \<open>None\<close>, since its one caller only tests for one.\<close>

definition SplitHostPort :: "string \<Rightarrow> (string \<times> string) option" where
  "SplitHostPort hp =
     (case cut_last CHR '':'' hp of
        None \<Rightarrow> None
      | Some (before, port) \<Rightarrow>
          if take 1 hp = ''['' then
            (case cut CHR '']'' hp of
               None \<Rightarrow> None
             | Some (opened, rest) \<Rightarrow>
                 if opened @ '']'' = before then
                   let host = drop 1 opened
                   in if contains_byte (drop 1 hp) CHR ''['' \<or> contains_byte rest CHR '']''
                      then None else Some (host, port)
                 else None)
          else if contains_byte before CHR '':'' then None
          else if contains_byte hp CHR ''['' \<or> contains_byte hp CHR '']'' then None
          else Some (before, port))"

text \<open>\<open>net.JoinHostPort\<close>: a host with a colon is put in brackets.\<close>

definition JoinHostPort :: "string \<Rightarrow> string \<Rightarrow> string" where
  "JoinHostPort host port =
     (if contains_byte host CHR '':'' then ''['' @ host @ '']:'' @ port else host @ '':'' @ port)"

definition plain_host :: "string \<Rightarrow> bool" where
  "plain_host h \<longleftrightarrow> \<not> contains_byte h CHR ''['' \<and> \<not> contains_byte h CHR '']''"

definition plain_port :: "string \<Rightarrow> bool" where
  "plain_port p \<longleftrightarrow>
     \<not> contains_byte p CHR '':'' \<and> \<not> contains_byte p CHR ''['' \<and> \<not> contains_byte p CHR '']''"

lemma Split_Join:
  assumes "plain_host h" and "plain_port p"
  shows "SplitHostPort (JoinHostPort h p) = Some (h, p)"
proof (cases "contains_byte h CHR '':''")
  case True
  have last: "cut_last CHR '':'' (JoinHostPort h p) = Some (''['' @ h @ '']'', p)"
    using assms True cut_last_append [of "CHR '':''" p "''['' @ h @ '']''"]
    by (simp add: JoinHostPort_def plain_port_def contains_byte_def)
  have first: "cut CHR '']'' (JoinHostPort h p) = Some (''['' @ h, '':'' @ p)"
    using assms True cut_append [of "CHR '']''" "''['' @ h" "'':'' @ p"]
    by (simp add: JoinHostPort_def plain_host_def contains_byte_def)
  show ?thesis
    using assms True
    by (simp add: SplitHostPort_def last first)
      (auto simp: JoinHostPort_def plain_host_def plain_port_def contains_byte_def)
next
  case False
  have last: "cut_last CHR '':'' (JoinHostPort h p) = Some (h, p)"
    using assms False cut_last_append [of "CHR '':''" p h]
    by (simp add: JoinHostPort_def plain_port_def contains_byte_def)
  have "take 1 (JoinHostPort h p) \<noteq> ''[''"
    using assms False
    by (cases h) (auto simp: JoinHostPort_def plain_host_def contains_byte_def)
  then show ?thesis
    using assms False
    by (simp add: SplitHostPort_def last)
      (auto simp: JoinHostPort_def plain_host_def plain_port_def contains_byte_def)
qed

end
