(* ===== verification/Ratelimit.thy ===== *)
theory Ratelimit
  imports Go_Strings
begin

text \<open>
  Admission control for WebSocket upgrades, \<open>internal/server/ratelimit.go\<close>: the per-IP rate
  limiter with its eviction goroutine, the connection tracker, and the address parsing that
  chooses the limiter's key.  \<open>Allow\<close> reads the clock twice (\<open>time.Since\<close>, then \<open>time.Now\<close>), and
  both readings are arguments.  The visitor count is an \<open>int\<close>; it never exceeds \<open>max 1 rate\<close>, so the
  machine integer cannot wrap.
\<close>

record visitor =
  v_count :: int
  lastSeen :: instant

record RateLimiter =
  visitors :: "string \<rightharpoonup> visitor"
  rate :: int
  window :: int
  stop_closed :: bool
  done_closed :: bool
  rejected :: nat

definition NewRateLimiter :: "int \<Rightarrow> int \<Rightarrow> RateLimiter" where
  "NewRateLimiter r w =
     \<lparr>visitors = Map.empty, rate = r, window = w, stop_closed = False,
      done_closed = \<not> w > 0, rejected = 0\<rparr>"

definition Allow :: "string \<Rightarrow> instant \<Rightarrow> instant \<Rightarrow> RateLimiter \<Rightarrow> bool \<times> RateLimiter" where
  "Allow ip t1 t2 rl =
     (let fresh = (True, rl\<lparr>visitors := (visitors rl)(ip \<mapsto> \<lparr>v_count = 1, lastSeen = t2\<rparr>)\<rparr>)
      in (case visitors rl ip of
            None \<Rightarrow> fresh
          | Some v \<Rightarrow>
              if t1 - lastSeen v > window rl then fresh
              else if v_count v \<ge> rate rl then (False, rl\<lparr>rejected := Suc (rejected rl)\<rparr>)
              else (True, rl\<lparr>visitors := (visitors rl)(ip \<mapsto> \<lparr>v_count = v_count v + 1, lastSeen = t2\<rparr>)\<rparr>)))"

definition Rejections :: "RateLimiter \<Rightarrow> nat" where
  "Rejections rl = rejected rl"

definition evictExpired :: "instant \<Rightarrow> RateLimiter \<Rightarrow> RateLimiter" where
  "evictExpired t rl =
     rl\<lparr>visitors := (\<lambda>ip. case visitors rl ip of
          None \<Rightarrow> None
        | Some v \<Rightarrow> if t - lastSeen v > window rl then None else Some v)\<rparr>"

text \<open>The events a limiter sees over its life, in the order their critical sections run.\<close>

datatype rl_event = Allow_at string instant instant | Evict_at instant

fun rl_step :: "rl_event \<Rightarrow> RateLimiter \<Rightarrow> bool option \<times> RateLimiter" where
  "rl_step (Allow_at ip t1 t2) rl = (case Allow ip t1 t2 rl of (b, rl') \<Rightarrow> (Some b, rl'))"
| "rl_step (Evict_at t) rl = (None, evictExpired t rl)"

fun rl_run :: "rl_event list \<Rightarrow> RateLimiter \<Rightarrow> bool option list \<times> RateLimiter" where
  "rl_run [] rl = ([], rl)"
| "rl_run (e # es) rl =
     (case rl_step e rl of (b, rl1) \<Rightarrow> (case rl_run es rl1 of (bs, rl2) \<Rightarrow> (b # bs, rl2)))"

text \<open>The verdicts given to one address, in order.\<close>

fun verdicts :: "string \<Rightarrow> rl_event list \<Rightarrow> RateLimiter \<Rightarrow> bool list" where
  "verdicts ip [] rl = []"
| "verdicts ip (Allow_at ip' t1 t2 # es) rl =
     (case Allow ip' t1 t2 rl of (b, rl') \<Rightarrow>
        if ip' = ip then b # verdicts ip es rl' else verdicts ip es rl')"
| "verdicts ip (Evict_at t # es) rl = verdicts ip es (evictExpired t rl)"

text \<open>Clock readings never go back.\<close>

fun timed_from :: "instant \<Rightarrow> rl_event list \<Rightarrow> bool" where
  "timed_from t [] = True"
| "timed_from t (Allow_at ip t1 t2 # es) = (t \<le> t1 \<and> t1 \<le> t2 \<and> timed_from t2 es)"
| "timed_from t (Evict_at t1 # es) = (t \<le> t1 \<and> timed_from t1 es)"

fun event_within :: "instant \<Rightarrow> instant \<Rightarrow> rl_event \<Rightarrow> bool" where
  "event_within a b (Allow_at ip t1 t2) = (a \<le> t1 \<and> a \<le> t2 \<and> t1 \<le> b \<and> t2 \<le> b)"
| "event_within a b (Evict_at t) = (a \<le> t \<and> t \<le> b)"

section \<open>Life cycle of the eviction goroutine\<close>

datatype rl_label = Rl_Event rl_event | Rl_Stop | Rl_CleanupExit

text \<open>\<open>stopOnce\<close> closes the stop channel at most once; \<open>Stop\<close> then waits for the done channel.\<close>

inductive rl_live :: "rl_label \<Rightarrow> RateLimiter \<Rightarrow> RateLimiter \<Rightarrow> bool" where
  live_allow: "rl_live (Rl_Event (Allow_at ip t1 t2)) rl (snd (Allow ip t1 t2 rl))"
| live_evict: "\<not> done_closed rl \<Longrightarrow> rl_live (Rl_Event (Evict_at t)) rl (evictExpired t rl)"
| live_stop: "rl_live Rl_Stop rl (rl\<lparr>stop_closed := True\<rparr>)"
| live_exit: "\<not> done_closed rl \<Longrightarrow> stop_closed rl \<Longrightarrow>
    rl_live Rl_CleanupExit rl (rl\<lparr>done_closed := True\<rparr>)"

section \<open>The connection tracker\<close>

record ConnectionTracker =
  ct_count :: int
  maxConn :: int

definition NewConnectionTracker :: "int \<Rightarrow> ConnectionTracker" where
  "NewConnectionTracker m = \<lparr>ct_count = 0, maxConn = m\<rparr>"

definition TryAdd :: "ConnectionTracker \<Rightarrow> bool \<times> ConnectionTracker" where
  "TryAdd ct = (if ct_count ct \<ge> maxConn ct then (False, ct) else (True, ct\<lparr>ct_count := ct_count ct + 1\<rparr>))"

definition Remove :: "ConnectionTracker \<Rightarrow> ConnectionTracker" where
  "Remove ct = (if ct_count ct > 0 then ct\<lparr>ct_count := ct_count ct - 1\<rparr> else ct)"

definition Count :: "ConnectionTracker \<Rightarrow> int" where
  "Count ct = ct_count ct"

section \<open>The limiter's key\<close>

definition extractIP :: "string \<Rightarrow> string" where
  "extractIP addr =
     (case SplitHostPort addr of
        Some (host, _) \<Rightarrow> host
      | None \<Rightarrow> trim_suffix (trim_prefix addr ''['') '']'')"

lemmas ratelimit_defs [go_defs] =
  Allow_def evictExpired_def TryAdd_def Remove_def Let_def

section \<open>At most rate requests in any window\<close>

definition rl_ok :: "RateLimiter \<Rightarrow> bool" where
  "rl_ok rl \<longleftrightarrow> (\<forall>ip v. visitors rl ip = Some v \<longrightarrow> 1 \<le> v_count v \<and> v_count v \<le> max 1 (rate rl))"

lemma rl_ok_new: "rl_ok (NewRateLimiter r w)"
  by (simp add: rl_ok_def NewRateLimiter_def)

lemma rl_step_params: "rl_step e rl = (b, rl') \<Longrightarrow> rate rl' = rate rl \<and> window rl' = window rl"
  by (cases e) (auto simp: ratelimit_defs split: option.splits if_splits)

lemma rl_ok_entry: "rl_ok rl \<Longrightarrow> visitors rl ip = Some v \<Longrightarrow> 1 \<le> v_count v \<and> v_count v \<le> max 1 (rate rl)"
  by (simp add: rl_ok_def)

lemma rl_ok_step:
  assumes "rl_ok rl"
  shows "rl_ok (snd (rl_step e rl))"
proof (cases e)
  case (Allow_at ip t1 t2)
  show ?thesis
  proof (cases "visitors rl ip")
    case None
    with assms Allow_at show ?thesis by (auto simp: rl_ok_def Allow_def)
  next
    case (Some v)
    from rl_ok_entry [OF assms Some] have "0 \<le> v_count v" by simp
    with Some assms Allow_at show ?thesis
      unfolding rl_ok_def by (auto simp add: Allow_def Let_def)
  qed
next
  case (Evict_at t)
  with assms show ?thesis by (auto simp: rl_ok_def evictExpired_def split: option.splits if_splits)
qed

lemma rl_ok_run: "rl_ok rl \<Longrightarrow> rl_ok (snd (rl_run es rl))"
proof (induction es arbitrary: rl)
  case Nil
  then show ?case by simp
next
  case (Cons e es)
  from Cons.IH [OF rl_ok_step [OF Cons.prems, of e]] show ?case
    by (simp add: split_beta)
qed

text \<open>
  \<open>n\<close> requests of \<open>ip\<close> have been allowed since \<open>T\<close>: then the entry of \<open>ip\<close> is no older than \<open>T\<close> and
  has counted all of them.
\<close>

definition counted :: "string \<Rightarrow> instant \<Rightarrow> nat \<Rightarrow> RateLimiter \<Rightarrow> bool" where
  "counted ip T n rl \<longleftrightarrow>
     (n > 0 \<longrightarrow> (\<exists>v. visitors rl ip = Some v \<and> T \<le> lastSeen v \<and> int n \<le> v_count v))"

lemma counted_evict:
  assumes "counted ip T n rl" and "t \<le> T + window rl"
  shows "counted ip T n (evictExpired t rl)"
  using assms by (auto simp: counted_def evictExpired_def)

lemma counted_allow:
  assumes "counted ip T n rl" and "event_within T (T + window rl) (Allow_at ip' t1 t2)"
    and "Allow ip' t1 t2 rl = (b, rl')" and "rl_ok rl"
  shows "counted ip T (if ip' = ip \<and> b then Suc n else n) rl'"
  using assms rl_ok_entry [OF assms(4), of ip]
  by (auto simp: counted_def Allow_def Let_def split: option.splits if_splits)

lemma allowed_bound:
  assumes "rl_ok rl" and "counted ip T n rl"
    and "\<forall>e\<in>set es. event_within T (T + window rl) e"
  shows "int (n + length (filter id (verdicts ip es rl))) \<le> max 1 (rate rl)"
  using assms
proof (induction ip es rl arbitrary: n rule: verdicts.induct)
  case (1 ip rl)
  then show ?case by (force simp: rl_ok_def counted_def)
next
  case (2 ip ip' t1 t2 es rl)
  obtain b rl' where A: "Allow ip' t1 t2 rl = (b, rl')" by force
  have par: "rate rl' = rate rl" "window rl' = window rl"
    using rl_step_params [of "Allow_at ip' t1 t2" rl] A by simp_all
  have ok: "rl_ok rl'"
    using rl_ok_step [OF "2.prems"(1), of "Allow_at ip' t1 t2"] A by simp
  have cnt: "counted ip T (if ip' = ip \<and> b then Suc n else n) rl'"
    using counted_allow [OF "2.prems"(2) _ A "2.prems"(1)] "2.prems"(3) by simp
  show ?case
  proof (cases "ip' = ip")
    case True
    with A have "Allow ip t1 t2 rl = (b, rl')" by simp
    with "2.IH"(1) [OF A [symmetric] True ok cnt] "2.prems"(3) True show ?thesis
      by (cases b) (simp_all add: par)
  next
    case False
    with "2.IH"(2) [OF A [symmetric] False ok cnt] "2.prems"(3) show ?thesis
      by (simp add: A par)
  qed
next
  case (3 ip t es rl)
  have ok: "rl_ok (evictExpired t rl)"
    using rl_ok_step [OF "3.prems"(1), of "Evict_at t"] by simp
  have cnt: "counted ip T n (evictExpired t rl)"
    using "3.prems"(2,3) by (intro counted_evict) auto
  from "3.IH" [OF ok cnt] "3.prems"(3) show ?case
    by (simp add: evictExpired_def)
qed

section \<open>What one address observes\<close>

text \<open>
  The specification of the limiter from the point of view of one address: a pair of a count and
  a last-seen time that is never evicted and that no other address touches.
\<close>

fun spec_verdicts :: "int \<Rightarrow> int \<Rightarrow> string \<Rightarrow> visitor option \<Rightarrow> rl_event list \<Rightarrow> bool list" where
  "spec_verdicts r w ip v [] = []"
| "spec_verdicts r w ip v (Allow_at ip' t1 t2 # es) =
     (if ip' \<noteq> ip then spec_verdicts r w ip v es
      else (case v of
          None \<Rightarrow> True # spec_verdicts r w ip (Some \<lparr>v_count = 1, lastSeen = t2\<rparr>) es
        | Some u \<Rightarrow>
            if t1 - lastSeen u > w
            then True # spec_verdicts r w ip (Some \<lparr>v_count = 1, lastSeen = t2\<rparr>) es
            else if v_count u \<ge> r then False # spec_verdicts r w ip v es
            else True # spec_verdicts r w ip (Some \<lparr>v_count = v_count u + 1, lastSeen = t2\<rparr>) es))"
| "spec_verdicts r w ip v (Evict_at t # es) = spec_verdicts r w ip v es"

definition refines :: "instant \<Rightarrow> int \<Rightarrow> visitor option \<Rightarrow> visitor option \<Rightarrow> bool" where
  "refines now w v u \<longleftrightarrow> v = u \<or> v = None \<and> (\<exists>x. u = Some x \<and> now - lastSeen x > w)"

lemma verdicts_refine:
  assumes "timed_from now es" and "refines now (window rl) (visitors rl ip) u"
  shows "verdicts ip es rl = spec_verdicts (rate rl) (window rl) ip u es"
  using assms
proof (induction ip es rl arbitrary: now u rule: verdicts.induct)
  case (1 ip rl)
  then show ?case by simp
next
  case (2 ip ip' t1 t2 es rl)
  obtain b rl' where A: "Allow ip' t1 t2 rl = (b, rl')" by force
  have par: "rate rl' = rate rl" "window rl' = window rl"
    using rl_step_params [of "Allow_at ip' t1 t2" rl] A by simp_all
  from "2.prems" have t: "now \<le> t1" "t1 \<le> t2" "timed_from t2 es" by simp_all
  note IH1 = "2.IH"(1) [OF A [symmetric] _ t(3), unfolded par]
    and IH2 = "2.IH"(2) [OF A [symmetric] _ t(3), unfolded par]
  show ?case
  proof (cases "ip' = ip")
    case False
    have "visitors rl' ip = visitors rl ip"
      using A False by (auto simp: Allow_def Let_def split: option.splits if_splits)
    then have "refines t2 (window rl) (visitors rl' ip) u"
      using "2.prems"(2) t by (auto simp: refines_def)
    with IH2 False show ?thesis by (simp add: A)
  next
    case True
    with A t "2.prems"(2) IH1 show ?thesis
      by (auto simp: refines_def Allow_def Let_def split: option.splits if_splits)
  qed
next
  case (3 ip t es rl)
  from "3.prems" have t: "now \<le> t" "timed_from t es" by simp_all
  have "refines t (window rl) (visitors (evictExpired t rl) ip) u"
    using "3.prems"(2) t(1) by (auto simp: refines_def evictExpired_def split: option.splits)
  from "3.IH" [OF t(2), of u] this show ?case
    by (simp add: evictExpired_def)
qed

lemma verdicts_new: "timed_from t es \<Longrightarrow> verdicts ip es (NewRateLimiter r w) = spec_verdicts r w ip None es"
  using verdicts_refine [of t es "NewRateLimiter r w" ip None]
  by (simp add: refines_def NewRateLimiter_def)

section \<open>Recovery, and the steady client\<close>

lemma rl_run_params: "rate (snd (rl_run es rl)) = rate rl \<and> window (snd (rl_run es rl)) = window rl"
proof (induction es arbitrary: rl)
  case Nil
  then show ?case by simp
next
  case (Cons e es)
  with rl_step_params [of e rl "fst (rl_step e rl)" "snd (rl_step e rl)"] show ?case
    by (simp add: split_beta)
qed

text \<open>The times at which requests of one address were admitted.\<close>

fun admitted :: "string \<Rightarrow> rl_event list \<Rightarrow> RateLimiter \<Rightarrow> instant list" where
  "admitted ip [] rl = []"
| "admitted ip (Allow_at ip' t1 t2 # es) rl =
     (case Allow ip' t1 t2 rl of (b, rl') \<Rightarrow>
        if ip' = ip \<and> b then t2 # admitted ip es rl' else admitted ip es rl')"
| "admitted ip (Evict_at t # es) rl = admitted ip es (evictExpired t rl)"

lemma Allow_entry:
  "Allow ip' t1 t2 rl = (b, rl') \<Longrightarrow> visitors rl' ip = Some v \<Longrightarrow>
   visitors rl ip = Some v \<or> ip' = ip \<and> b \<and> lastSeen v = t2"
  by (auto simp: Allow_def Let_def split: option.splits if_splits)

lemma evict_entry: "visitors (evictExpired t rl) ip = Some v \<Longrightarrow> visitors rl ip = Some v"
  by (auto simp: evictExpired_def split: option.splits if_splits)

lemma entry_admitted:
  "visitors (snd (rl_run es rl)) ip = Some v \<Longrightarrow>
   visitors rl ip = Some v \<or> lastSeen v \<in> set (admitted ip es rl)"
proof (induction ip es rl rule: admitted.induct)
  case (1 ip rl)
  then show ?case by simp
next
  case (2 ip ip' t1 t2 es rl)
  obtain b rl' where A: "Allow ip' t1 t2 rl = (b, rl')" by force
  from "2.prems" have "visitors (snd (rl_run es rl')) ip = Some v" by (simp add: A split_beta)
  then have "visitors rl' ip = Some v \<or> lastSeen v \<in> set (admitted ip es rl')"
    using "2.IH" A by (cases "ip' = ip \<and> b") auto
  then show ?case
  proof
    assume "visitors rl' ip = Some v"
    from Allow_entry [OF A this] A show ?thesis by auto
  next
    assume "lastSeen v \<in> set (admitted ip es rl')"
    with A show ?thesis by simp
  qed
next
  case (3 ip t es rl)
  then have "visitors (evictExpired t rl) ip = Some v \<or> lastSeen v \<in> set (admitted ip es (evictExpired t rl))"
    by (simp add: split_beta)
  with evict_entry [of t rl ip v] show ?case by auto
qed

lemma Allow_after_gap:
  "\<forall>v. visitors rl ip = Some v \<longrightarrow> t1 - lastSeen v > window rl \<Longrightarrow> fst (Allow ip t1 t2 rl)"
  by (auto simp: Allow_def Let_def split: option.splits)

text \<open>Requests of one address at the times \<open>k * p\<close>, for \<open>n\<close> consecutive \<open>k\<close> from \<open>m\<close> on.\<close>

fun periodic :: "string \<Rightarrow> int \<Rightarrow> int \<Rightarrow> nat \<Rightarrow> rl_event list" where
  "periodic ip p m 0 = []"
| "periodic ip p m (Suc n) = Allow_at ip (m * p) (m * p) # periodic ip p (m + 1) n"

lemma periodic_timed: "0 < p \<Longrightarrow> t \<le> m * p \<Longrightarrow> timed_from t (periodic ip p m n)"
  by (induction n arbitrary: t m) (auto simp: algebra_simps)

lemma periodic_verdicts:
  assumes "0 < p" and "p \<le> w" and "c + int n = r"
  shows "spec_verdicts r w ip (Some \<lparr>v_count = c, lastSeen = (m - 1) * p\<rparr>) (periodic ip p m (Suc n)) =
    replicate n True @ [False]"
  using assms
proof (induction n arbitrary: c m)
  case 0
  then show ?case by (simp add: algebra_simps)
next
  case (Suc n)
  have "\<not> w < m * p - (m - 1) * p" using Suc.prems by (simp add: algebra_simps)
  moreover have "\<not> r \<le> c" using Suc.prems by simp
  ultimately show ?case
    using Suc.IH [of "c + 1" "m + 1"] Suc.prems by simp
qed

section \<open>Connection slots\<close>

text \<open>
  The contract the WebSocket handler relies on: a successful reservation takes one slot and is
  only granted below the limit, a release gives one back.  A caller that releases only what it
  holds keeps the number of slots equal to the number of holders.
\<close>

datatype slot_op = Acquire | Release

fun slots :: "('p \<Rightarrow> bool \<times> 'p) \<Rightarrow> ('p \<Rightarrow> 'p) \<Rightarrow> slot_op list \<Rightarrow> 'p \<Rightarrow> nat \<Rightarrow> 'p \<times> nat" where
  "slots acq rel [] p held = (p, held)"
| "slots acq rel (Acquire # ops) p held =
     (case acq p of (b, p') \<Rightarrow> slots acq rel ops p' (if b then Suc held else held))"
| "slots acq rel (Release # ops) p held =
     (if held = 0 then slots acq rel ops p 0 else slots acq rel ops (rel p) (held - 1))"

locale slot_pool =
  fixes acq :: "'p \<Rightarrow> bool \<times> 'p" and rel :: "'p \<Rightarrow> 'p"
    and used :: "'p \<Rightarrow> int" and limit :: "'p \<Rightarrow> int"
  assumes acq_grants: "acq p = (True, p') \<Longrightarrow> used p < limit p \<and> used p' = used p + 1"
    and acq_refuses: "acq p = (False, p') \<Longrightarrow> p' = p \<and> limit p \<le> used p"
    and acq_limit: "acq p = (b, p') \<Longrightarrow> limit p' = limit p"
    and rel_frees: "0 < used p \<Longrightarrow> used (rel p) = used p - 1"
    and rel_limit: "limit (rel p) = limit p"
begin

lemma slots_exact:
  "used p = int held \<Longrightarrow> used p \<le> max 0 (limit p) \<Longrightarrow> slots acq rel ops p held = (p', held') \<Longrightarrow>
   limit p' = limit p \<and> used p' = int held' \<and> used p' \<le> max 0 (limit p)"
proof (induction ops arbitrary: p held)
  case Nil
  then show ?case by simp
next
  case (Cons x ops)
  show ?case
  proof (cases x)
    case Acquire
    obtain b p1 where a: "acq p = (b, p1)" by force
    show ?thesis
    proof (cases b)
      case True
      with a acq_grants acq_limit have "used p < limit p" "used p1 = used p + 1" "limit p1 = limit p"
        by auto
      with Cons.IH [of p1 "Suc held"] Cons.prems Acquire a True show ?thesis
        by (auto simp: max_def)
    next
      case False
      with a acq_refuses have "p1 = p" by simp
      with Cons.IH [of p held] Cons.prems Acquire a False show ?thesis by auto
    qed
  next
    case Release
    show ?thesis
    proof (cases held)
      case 0
      with Cons.IH [of p 0] Cons.prems Release show ?thesis by auto
    next
      case (Suc k)
      with Cons.prems(1) rel_frees have "used (rel p) = int k" by simp
      moreover have "int k \<le> max 0 (limit p)" using Cons.prems(1,2) Suc by simp
      ultimately show ?thesis using Cons.IH [of "rel p" k] Cons.prems Release Suc rel_limit [of p] by auto
    qed
  qed
qed

end

interpretation tracker: slot_pool TryAdd Remove Count maxConn
  by unfold_locales (auto simp: TryAdd_def Remove_def Count_def split: if_splits)

text \<open>The limiter's key is the host part of the peer address, for IPv4, names and bracketed IPv6
  addresses alike: the port never splits one peer into several.\<close>

lemma extractIP_of_peer:
  assumes "plain_host host" and "plain_port port"
  shows "extractIP (JoinHostPort host port) = host"
  by (simp add: extractIP_def Split_Join [OF assms])

text \<open>Rejection is temporary.  Once more than a window has passed since each of its admitted requests,
  an address is admitted again, however many of its requests were rejected in between.\<close>

lemma quiet_address_admitted:
  assumes "\<forall>t\<in>set (admitted ip es (NewRateLimiter r w)). t1 - t > w"
  shows "fst (Allow ip t1 t2 (snd (rl_run es (NewRateLimiter r w))))"
proof (rule Allow_after_gap, intro allI impI)
  fix v
  assume v: "visitors (snd (rl_run es (NewRateLimiter r w))) ip = Some v"
  have "lastSeen v \<in> set (admitted ip es (NewRateLimiter r w))"
    using entry_admitted [OF v] by (simp add: NewRateLimiter_def)
  with assms show "t1 - lastSeen v > window (snd (rl_run es (NewRateLimiter r w)))"
    using rl_run_params [of es "NewRateLimiter r w"] by (simp add: NewRateLimiter_def)
qed

text \<open>Connection slots are exact.  Whatever the order of reservations and releases, as long as only
  held slots are released, the tracker counts exactly the held slots and never more than its limit.\<close>

lemma tracker_slots_exact:
  assumes "slots TryAdd Remove ops (NewConnectionTracker m) 0 = (ct, held)"
  shows "Count ct = int held \<and> int held \<le> max 0 m"
  using tracker.slots_exact [OF _ _ assms] by (auto simp: Count_def NewConnectionTracker_def)

end
