(* ===== verification/Base64url.thy ===== *)
theory Base64url
  imports Go_Strings
begin

text \<open>
  \<open>base64.RawURLEncoding\<close>, the unpadded URL-safe alphabet of the standard library, as the token
  carriers use it: encoding by groups of three bytes; decoding skips carriage returns and line
  feeds, rejects any other byte outside the alphabet (there is no padding byte) and a trailing group
  of a single character, and ignores the unused low bits of the last character (the encoding is not
  \<open>Strict\<close>).
\<close>

definition b64_alphabet :: string where
  "b64_alphabet = ''ABCDEFGHIJKLMNOPQRSTUVWXYZabcdefghijklmnopqrstuvwxyz0123456789-_''"

fun index_of :: "char \<Rightarrow> string \<Rightarrow> nat option" where
  "index_of c [] = None"
| "index_of c (x # xs) = (if x = c then Some 0 else map_option Suc (index_of c xs))"

definition enc6 :: "nat \<Rightarrow> char" where
  "enc6 n = b64_alphabet ! n"

definition dec6 :: "char \<Rightarrow> nat option" where
  "dec6 c = index_of c b64_alphabet"

fun sextets :: "nat list \<Rightarrow> nat list" where
  "sextets [] = []"
| "sextets [a] = [a div 4, a mod 4 * 16]"
| "sextets [a, b] = (let v = a * 256 + b in [v div 1024, v div 16 mod 64, v mod 16 * 4])"
| "sextets (a # b # c # r) =
     (let v = a * 65536 + b * 256 + c
      in [v div 262144, v div 4096 mod 64, v div 64 mod 64, v mod 64] @ sextets r)"

fun quanta :: "nat list \<Rightarrow> nat list option" where
  "quanta [] = Some []"
| "quanta [x] = None"
| "quanta [x, y] = (let v = x * 262144 + y * 4096 in Some [v div 65536])"
| "quanta [x, y, z] = (let v = x * 262144 + y * 4096 + z * 64 in Some [v div 65536, v div 256 mod 256])"
| "quanta (x # y # z # w # r) =
     (let v = x * 262144 + y * 4096 + z * 64 + w
      in map_option (\<lambda>bs. [v div 65536, v div 256 mod 256, v mod 256] @ bs) (quanta r))"

fun traverse :: "('a \<Rightarrow> 'b option) \<Rightarrow> 'a list \<Rightarrow> 'b list option" where
  "traverse f [] = Some []"
| "traverse f (x # xs) =
     (case f x of None \<Rightarrow> None | Some y \<Rightarrow> map_option (\<lambda>ys. y # ys) (traverse f xs))"

definition is_newline :: "char \<Rightarrow> bool" where
  "is_newline c \<longleftrightarrow> c = CHR 0x0A \<or> c = CHR 0x0D"

definition EncodeToString :: "string \<Rightarrow> string" where
  "EncodeToString s = map enc6 (sextets (map of_char s))"

definition DecodeString :: "string \<Rightarrow> string option" where
  "DecodeString s =
     Option.bind (traverse dec6 (filter (\<lambda>c. \<not> is_newline c) s))
       (\<lambda>xs. map_option (map char_of) (quanta xs))"

lemma alphabet_table:
  "list_all (\<lambda>n. dec6 (enc6 n) = Some n \<and> \<not> is_newline (enc6 n) \<and> graphic (enc6 n)
     \<and> enc6 n \<noteq> CHR '','') [0..<64]"
  by code_simp

lemma enc6_facts:
  assumes "n < 64"
  shows "dec6 (enc6 n) = Some n" and "\<not> is_newline (enc6 n)" and "graphic (enc6 n)"
    and "enc6 n \<noteq> CHR '',''"
  using alphabet_table assms by (simp_all add: list_all_iff)

lemma sextets_bound: "\<forall>b\<in>set bs. b < 256 \<Longrightarrow> \<forall>x\<in>set (sextets bs). x < 64"
  by (induction bs rule: sextets.induct) (auto simp: Let_def)

lemma regroup2: "p * 4 + q = a \<Longrightarrow> p * 262144 + q * 16 * 4096 = a * (65536::nat)"
  by simp

lemma regroup3: "p * 64 + q = m \<Longrightarrow> m * 16 + r = v \<Longrightarrow>
    p * 262144 + q * 4096 + r * 4 * 64 = v * (256::nat)"
  by simp

lemma regroup4: "p * 64 + q = u \<Longrightarrow> u * 64 + r = w \<Longrightarrow> w * 64 + t = v \<Longrightarrow>
    p * 262144 + q * 4096 + r * 64 + t = (v::nat)"
  by simp

lemma quanta2: "quanta (sextets [a]) = Some [a]"
  using regroup2 [OF div_mult_mod_eq, of a] by (simp add: Let_def)

lemma quanta3:
  assumes "b < 256"
  shows "quanta (sextets [a, b]) = Some [a, b]"
proof -
  let ?v = "a * 256 + b"
  have "?v div 1024 * 64 + ?v div 16 mod 64 = ?v div 16"
    using div_mult_mod_eq [of "?v div 16" 64] by (simp add: div_mult2_eq [symmetric])
  from regroup3 [OF this div_mult_mod_eq]
  have v: "?v div 1024 * 262144 + ?v div 16 mod 64 * 4096 + ?v mod 16 * 4 * 64 = ?v * 256" .
  have "?v * 256 div 65536 = a" "?v * 256 div 256 mod 256 = b" using assms by simp_all
  then show ?thesis by (simp only: sextets.simps quanta.simps Let_def v)
qed

lemma quanta4:
  assumes "b < 256" and "c < 256" and "quanta (sextets r) = Some bs"
  shows "quanta (sextets (a # b # c # r)) = Some (a # b # c # bs)"
proof -
  let ?v = "a * 65536 + b * 256 + c"
  have 1: "?v div 262144 * 64 + ?v div 4096 mod 64 = ?v div 4096"
    using div_mult_mod_eq [of "?v div 4096" 64] by (simp add: div_mult2_eq [symmetric])
  have 2: "?v div 4096 * 64 + ?v div 64 mod 64 = ?v div 64"
    using div_mult_mod_eq [of "?v div 64" 64] by (simp add: div_mult2_eq [symmetric])
  note v = regroup4 [OF 1 2 div_mult_mod_eq]
  have "?v = (a * 256 + b) * 256 + c" by simp
  then have "?v div 256 = a * 256 + b" "?v mod 256 = c"
    using assms(2) by (simp_all only: div_mult_self3 mod_mult_self3) simp_all
  moreover from this have "?v div 65536 = a" "?v div 256 mod 256 = b"
    using assms(1) div_mult2_eq [of ?v 256 256] by simp_all
  ultimately have "?v div 65536 = a" "?v div 256 mod 256 = b" "?v mod 256 = c"
    by simp_all
  then show ?thesis
    by (simp only: sextets.simps quanta.simps Let_def append.simps v assms(3) option.map)
qed

lemma quanta_sextets: "\<forall>b\<in>set bs. b < 256 \<Longrightarrow> quanta (sextets bs) = Some bs"
proof (induction bs rule: sextets.induct)
  case 1
  show ?case by simp
next
  case (2 a)
  show ?case by (rule quanta2)
next
  case (3 a b)
  then show ?case by (intro quanta3) simp
next
  case (4 a b c r)
  from "4.prems" have "b < 256" "c < 256" "\<forall>x\<in>set r. x < 256" by simp_all
  from quanta4 [OF this(1,2) "4.IH" [OF refl this(3)]] show ?case .
qed

lemma traverse_map: "\<forall>x\<in>set xs. f (g x) = Some x \<Longrightarrow> traverse f (map g xs) = Some xs"
  by (induction xs) auto

lemma of_char_bound: "(of_char c :: nat) < 256"
  by simp

theorem Decode_Encode: "DecodeString (EncodeToString s) = Some s"
proof -
  let ?xs = "sextets (map of_char s)"
  have small: "\<forall>x\<in>set ?xs. x < 64"
    by (rule sextets_bound) (auto simp: of_char_bound)
  have "filter (\<lambda>c. \<not> is_newline c) (map enc6 ?xs) = map enc6 ?xs"
    using small enc6_facts(2) by (auto intro!: filter_True)
  moreover have "traverse dec6 (map enc6 ?xs) = Some ?xs"
    using small enc6_facts(1) by (intro traverse_map) blast
  moreover have "quanta ?xs = Some (map of_char s)"
    by (rule quanta_sextets) (auto simp: of_char_bound)
  ultimately show ?thesis
    by (simp add: DecodeString_def EncodeToString_def comp_def)
qed

lemma Encode_chars: "c \<in> set (EncodeToString s) \<Longrightarrow> graphic c \<and> c \<noteq> CHR '',''"
  using sextets_bound [of "map of_char s"] enc6_facts(3,4)
  by (auto simp: EncodeToString_def of_char_bound)

text \<open>
  The contract the token carriers rely on: decoding undoes encoding, and the encoded form survives
  trimming and comma splitting.
\<close>

locale token_codec =
  fixes enc :: "string \<Rightarrow> string" and dec :: "string \<Rightarrow> string option"
  assumes dec_enc: "dec (enc s) = Some s"
    and enc_graphic: "c \<in> set (enc s) \<Longrightarrow> graphic c"
    and enc_no_comma: "CHR '','' \<notin> set (enc s)"
begin

lemma enc_inj: "enc s = enc t \<Longrightarrow> s = t"
  using dec_enc by (metis option.inject)

lemma enc_trimmed: "TrimSpace (enc s) = enc s"
  using enc_graphic [of _ s] by (intro TrimSpace_graphic) (cases "enc s"; auto)

lemma enc_prefixed_trimmed:
  "\<forall>c\<in>set p. graphic c \<Longrightarrow> TrimSpace (p @ enc s) = p @ enc s"
  using enc_graphic [of _ s]
  by (intro TrimSpace_graphic) (auto simp: hd_append last_append)

end

interpretation rawurl: token_codec EncodeToString DecodeString
  by unfold_locales (auto simp: Decode_Encode Encode_chars dest: Encode_chars)

end
