(* ===== verification/Config.thy ===== *)
theory Config
  imports Go_Strings
begin

text \<open>
  Configuration, \<open>internal/config/config.go\<close>: the configuration records, the built-in defaults, the
  environment bindings, \<open>Validate\<close>, \<open>LoadConfig\<close> and \<open>SetupLogger\<close>.  The merging of files,
  environment and defaults is done by the third-party library viper and is an argument of
  \<open>LoadConfig\<close>; the two tables given to it are modelled.  Durations are in nanoseconds.
\<close>

record DiscordConfig =
  dc_ClientID :: string
  AutoReconnect :: bool
  ReconnectBaseInterval :: int64
  MaxReconnectInterval :: int64
  HealthCheckInterval :: int
  HealthCheckTimeout :: int
  CoalesceInterval :: int

record ServerConfig =
  sc_Host :: string
  sc_Port :: int
  sc_WsPath :: string
  ReadTimeout :: int
  WriteTimeout :: int
  MaxWSConnections :: int
  RateLimitPerIP :: int
  RateLimitWindow :: int

record AuthConfig =
  auth_Enabled :: bool
  auth_Token :: string

record MdnsConfig =
  mdns_Enabled :: bool
  InstanceName :: string
  ServiceType :: string

record LoggingConfig =
  log_Level :: string
  log_Format :: string

record MetricsConfig =
  metrics_Enabled :: bool

record Config =
  Discord :: DiscordConfig
  cfg_Server :: ServerConfig
  Auth :: AuthConfig
  Mdns :: MdnsConfig
  Logging :: LoggingConfig
  cfg_Metrics :: MetricsConfig

section \<open>Defaults and environment bindings\<close>

datatype setting = S_str string | S_bool bool | S_int int | S_duration int

definition nanos :: int where "nanos = 1000000000"

definition setDefaults :: "(string \<times> setting) list" where
  "setDefaults =
    [(''discord.client_id'', S_str ''''), (''discord.auto_reconnect'', S_bool True),
     (''discord.reconnect_base_interval'', S_duration (5 * nanos)),
     (''discord.max_reconnect_interval'', S_duration (60 * nanos)),
     (''discord.health_check_interval'', S_duration (30 * nanos)),
     (''discord.health_check_timeout'', S_duration (10 * nanos)),
     (''discord.coalesce_interval'', S_duration (5 * nanos)),
     (''server.host'', S_str ''0.0.0.0''), (''server.port'', S_int 8765),
     (''server.ws_path'', S_str ''/ws''), (''server.read_timeout'', S_duration (10 * nanos)),
     (''server.write_timeout'', S_duration (10 * nanos)),
     (''server.max_ws_connections'', S_int 100), (''server.rate_limit_per_ip'', S_int 10),
     (''server.rate_limit_window'', S_duration (60 * nanos)),
     (''auth.enabled'', S_bool False), (''auth.token'', S_str ''''),
     (''mdns.enabled'', S_bool True), (''mdns.instance_name'', S_str ''''),
     (''mdns.service_type'', S_str ''_discord-proxy._tcp''),
     (''logging.level'', S_str ''info''), (''logging.format'', S_str ''json''),
     (''metrics.enabled'', S_bool False)]"

definition setupEnv :: "(string \<times> string) list" where
  "setupEnv =
    [(''discord.client_id'', ''PROXY_DISCORD_CLIENT_ID''),
     (''discord.auto_reconnect'', ''PROXY_DISCORD_AUTO_RECONNECT''),
     (''discord.reconnect_base_interval'', ''PROXY_DISCORD_RECONNECT_BASE_INTERVAL''),
     (''discord.max_reconnect_interval'', ''PROXY_DISCORD_MAX_RECONNECT_INTERVAL''),
     (''discord.health_check_interval'', ''PROXY_DISCORD_HEALTH_CHECK_INTERVAL''),
     (''discord.health_check_timeout'', ''PROXY_DISCORD_HEALTH_CHECK_TIMEOUT''),
     (''discord.coalesce_interval'', ''PROXY_DISCORD_COALESCE_INTERVAL''),
     (''server.host'', ''PROXY_SERVER_HOST''), (''server.port'', ''PROXY_SERVER_PORT''),
     (''server.ws_path'', ''PROXY_SERVER_WS_PATH''),
     (''server.read_timeout'', ''PROXY_SERVER_READ_TIMEOUT''),
     (''server.write_timeout'', ''PROXY_SERVER_WRITE_TIMEOUT''),
     (''server.max_ws_connections'', ''PROXY_SERVER_MAX_WS_CONNECTIONS''),
     (''server.rate_limit_per_ip'', ''PROXY_SERVER_RATE_LIMIT_PER_IP''),
     (''server.rate_limit_window'', ''PROXY_SERVER_RATE_LIMIT_WINDOW''),
     (''auth.enabled'', ''PROXY_AUTH_ENABLED''), (''auth.token'', ''PROXY_AUTH_TOKEN''),
     (''mdns.enabled'', ''PROXY_MDNS_ENABLED''),
     (''mdns.instance_name'', ''PROXY_MDNS_INSTANCE_NAME''),
     (''mdns.service_type'', ''PROXY_MDNS_SERVICE_TYPE''),
     (''logging.level'', ''PROXY_LOGGING_LEVEL''), (''logging.format'', ''PROXY_LOGGING_FORMAT''),
     (''metrics.enabled'', ''PROXY_METRICS_ENABLED'')]"

text \<open>The documented naming rule: the prefix, then the key with dots replaced, in upper case.\<close>

definition to_upper :: "char \<Rightarrow> char" where
  "to_upper c =
     (case map_of (zip ''abcdefghijklmnopqrstuvwxyz'' ''ABCDEFGHIJKLMNOPQRSTUVWXYZ'') c of
        None \<Rightarrow> c | Some u \<Rightarrow> u)"

definition env_name :: "string \<Rightarrow> string" where
  "env_name key = ''PROXY_'' @ map (\<lambda>c. if c = CHR ''.'' then CHR ''_'' else to_upper c) key"

text \<open>The configuration search path; the home directory may be unknown.\<close>

definition configFileSearchPaths :: "string option \<Rightarrow> string list" where
  "configFileSearchPaths home =
     ''.'' # (case home of None \<Rightarrow> [] | Some dir \<Rightarrow> [dir @ ''/.config/discord-proxy-rpc'']) @
     [''/etc/discord-proxy-rpc'']"

section \<open>Validation\<close>

datatype config_error = ClientID_required | ClientID_invalid string

definition is_digit :: "char \<Rightarrow> bool" where
  "is_digit c \<longleftrightarrow> 0x30 \<le> (of_char c :: nat) \<and> (of_char c :: nat) \<le> 0x39"

text \<open>
  \<open>ContainsFunc(id, r < '0' || r > '9')\<close>: a rune outside ASCII is no digit, and each of its bytes is
  outside the digit range, so testing bytes is exact.  On success the trimmed id is stored back.
\<close>

definition Validate :: "Config \<Rightarrow> config_error + Config" where
  "Validate c =
     (let id = TrimSpace (dc_ClientID (Discord c))
      in if id = [] then Inl ClientID_required
         else if list_ex (\<lambda>b. \<not> is_digit b) id then Inl (ClientID_invalid id)
         else Inr (c\<lparr>Discord := (Discord c)\<lparr>dc_ClientID := id\<rparr>\<rparr>))"

section \<open>Loading\<close>

text \<open>
  What the library viper does is given by two arguments: \<open>read_in\<close> is the outcome of \<open>ReadInConfig\<close> over
  the search path, and \<open>unmarshal\<close> what \<open>Unmarshal\<close> makes of that file, the defaults and the bindings.
\<close>

datatype 'f config_file = Config_file 'f | Config_not_found | Config_unreadable

datatype load_error = Reading_config | Unmarshalling_config | Invalid_config config_error

definition LoadConfig ::
  "string option \<Rightarrow> (string list \<Rightarrow> 'f config_file)
    \<Rightarrow> ('f config_file \<Rightarrow> (string \<times> setting) list \<Rightarrow> (string \<times> string) list \<Rightarrow> Config option)
    \<Rightarrow> load_error + Config" where
  "LoadConfig home read_in unmarshal =
     (case read_in (configFileSearchPaths home) of
        Config_unreadable \<Rightarrow> Inl Reading_config
      | file \<Rightarrow>
          (case unmarshal file setDefaults setupEnv of
             None \<Rightarrow> Inl Unmarshalling_config
           | Some c \<Rightarrow> (case Validate c of Inl e \<Rightarrow> Inl (Invalid_config e) | Inr c' \<Rightarrow> Inr c')))"

text \<open>\<open>parse_level\<close> and \<open>build\<close> are the library zap's.\<close>

datatype log_encoding = Development_capital_color | Production_iso8601

datatype logger_error = Invalid_log_level string | Building_logger

definition SetupLogger ::
  "(string \<Rightarrow> 'l option) \<Rightarrow> (log_encoding \<Rightarrow> 'l \<Rightarrow> 'g option) \<Rightarrow> string \<Rightarrow> string \<Rightarrow> logger_error + 'g" where
  "SetupLogger parse_level build level fmt =
     (case parse_level level of
        None \<Rightarrow> Inl (Invalid_log_level level)
      | Some lvl \<Rightarrow>
          (case build (if fmt = ''console'' then Development_capital_color else Production_iso8601) lvl of
             None \<Rightarrow> Inl Building_logger
           | Some g \<Rightarrow> Inr g))"

section \<open>What validation guarantees\<close>

lemma digit_graphic: "is_digit c \<Longrightarrow> graphic c"
  by (simp add: is_digit_def graphic_def)

lemma TrimSpace_digits: "\<forall>c\<in>set s. is_digit c \<Longrightarrow> TrimSpace s = s"
  by (rule TrimSpace_graphic) (auto intro: digit_graphic)

lemma Validate_Inr:
  assumes "Validate c = Inr c'"
  shows "c' = c\<lparr>Discord := (Discord c)\<lparr>dc_ClientID := TrimSpace (dc_ClientID (Discord c))\<rparr>\<rparr>"
    and "dc_ClientID (Discord c') \<noteq> []" and "\<forall>b\<in>set (dc_ClientID (Discord c')). is_digit b"
  using assms by (auto simp: Validate_def Let_def list_ex_iff split: if_splits)

lemma LoadConfig_Inr:
  assumes "LoadConfig home read_in unmarshal = Inr c"
  shows "\<exists>c0. unmarshal (read_in (configFileSearchPaths home)) setDefaults setupEnv = Some c0 \<and> Validate c0 = Inr c"
  using assms by (auto simp: LoadConfig_def split: config_file.splits option.splits sum.splits)

text \<open>Every setting with a default can be overridden from the environment, under the name the
  documentation promises: the prefix \<open>PROXY_\<close> and the key in upper case with dots replaced; no two
  settings share a variable.\<close>

lemma env_bindings_complete:
  "map fst setupEnv = map fst setDefaults \<and> map snd setupEnv = map env_name (map fst setDefaults) \<and>
   distinct (map snd setupEnv)"
  by code_simp

text \<open>Validation accepts exactly the configurations whose client id is, after trimming white space, a
  non-empty string of digits; it changes nothing but that id, stores the trimmed form, and a validated
  configuration validates again unchanged.\<close>

lemma Validate_correct:
  "((\<exists>c'. Validate c = Inr c') \<longleftrightarrow>
      TrimSpace (dc_ClientID (Discord c)) \<noteq> [] \<and> list_all is_digit (TrimSpace (dc_ClientID (Discord c)))) \<and>
   (Validate c = Inr c' \<longrightarrow> Validate c' = Inr c' \<and>
      c' = c\<lparr>Discord := (Discord c)\<lparr>dc_ClientID := TrimSpace (dc_ClientID (Discord c))\<rparr>\<rparr>)"
proof -
  have "Validate c' = Inr c'" if "Validate c = Inr c'"
    using Validate_Inr [OF that] TrimSpace_digits [of "dc_ClientID (Discord c')"]
    by (simp add: Validate_def list_ex_iff)
  then show ?thesis
    using Validate_Inr(1) [of c c'] by (auto simp: Validate_def Let_def list_ex_iff list_all_iff)
qed

end
