(* ===== verification/Auth.thy ===== *)
theory Auth
  imports Base64url Config
begin

text \<open>
  Token authentication, \<open>internal/server/auth.go\<close>.  A request is what \<open>net/http\<close> hands to a
  handler: header lists under their canonical names, the parsed cookies and the parsed query.  A
  bearer token can arrive in four places; each extractor returns the empty string for "none".
\<close>

record Request =
  Path :: string
  RemoteAddr :: string
  Headers :: "(string \<times> string list) list"
  Cookies :: "(string \<times> string) list"
  Query :: "(string \<times> string list) list"
  ContentLength :: int
  TLS :: bool

definition first_value :: "(string \<times> string list) list \<Rightarrow> string \<Rightarrow> string" where
  "first_value kvs k = (case map_of kvs k of Some (v # _) \<Rightarrow> v | _ \<Rightarrow> [])"

definition Header_Get :: "Request \<Rightarrow> string \<Rightarrow> string" where
  "Header_Get r k = first_value (Headers r) k"

definition extractBearerToken :: "Request \<Rightarrow> string" where
  "extractBearerToken r =
     (let auth = Header_Get r ''Authorization''
      in if auth = [] then []
         else (case cut CHR '' '' auth of
                 None \<Rightarrow> []
               | Some (scheme, rest) \<Rightarrow>
                   if \<not> equal_fold_lower scheme ''bearer'' then [] else TrimSpace rest))"

definition subprotocolTokenPrefix :: string where
  "subprotocolTokenPrefix = ''proxy-token-''"

fun scan_protocols :: "string list \<Rightarrow> string" where
  "scan_protocols [] = []"
| "scan_protocols (p # ps) =
     (let proto = TrimSpace p
      in if \<not> has_prefix proto subprotocolTokenPrefix then scan_protocols ps
         else (case DecodeString (trim_prefix proto subprotocolTokenPrefix) of
                 None \<Rightarrow> [] | Some decoded \<Rightarrow> decoded))"

definition extractSubprotocolToken :: "Request \<Rightarrow> string" where
  "extractSubprotocolToken r =
     (let header = Header_Get r ''Sec-WebSocket-Protocol''
      in if header = [] then [] else scan_protocols (split_byte CHR '','' header))"

definition authCookieName :: string where
  "authCookieName = ''proxy-rpc-token''"

definition authCookieTTL :: int where
  "authCookieTTL = 15 * 60"

definition extractQueryToken :: "Request \<Rightarrow> string" where
  "extractQueryToken r = TrimSpace (first_value (Query r) ''token'')"

definition encodeAuthCookieValue :: "string \<Rightarrow> string" where
  "encodeAuthCookieValue token = EncodeToString token"

definition decodeAuthCookieValue :: "string \<Rightarrow> string" where
  "decodeAuthCookieValue v = (case DecodeString v of None \<Rightarrow> [] | Some d \<Rightarrow> if d = [] then [] else d)"

definition extractCookieToken :: "Request \<Rightarrow> string" where
  "extractCookieToken r =
     (case map_of (Cookies r) authCookieName of
        None \<Rightarrow> []
      | Some v \<Rightarrow> decodeAuthCookieValue (TrimSpace v))"

datatype SameSite = SameSiteStrictMode

record Cookie =
  ck_Name :: string
  ck_Value :: string
  ck_Path :: string
  ck_MaxAge :: int
  ck_HttpOnly :: bool
  ck_Secure :: bool
  ck_SameSite :: SameSite

definition setAuthCookie :: "Request \<Rightarrow> string \<Rightarrow> Cookie" where
  "setAuthCookie r token =
     \<lparr>ck_Name = authCookieName, ck_Value = encodeAuthCookieValue token, ck_Path = ''/'',
      ck_MaxAge = authCookieTTL, ck_HttpOnly = True, ck_Secure = TLS r,
      ck_SameSite = SameSiteStrictMode\<rparr>"

definition extractToken :: "Request \<Rightarrow> string" where
  "extractToken r =
     (if extractBearerToken r \<noteq> [] then extractBearerToken r
      else if extractSubprotocolToken r \<noteq> [] then extractSubprotocolToken r
      else if extractCookieToken r \<noteq> [] then extractCookieToken r
      else extractQueryToken r)"

definition BearerAuthFunc :: "AuthConfig \<Rightarrow> Request \<Rightarrow> bool" where
  "BearerAuthFunc cfg r =
     (if \<not> auth_Enabled cfg then True
      else let token = extractToken r
           in if token = [] then False
              else if token \<noteq> auth_Token cfg then False
              else True)"

section \<open>The carriers\<close>

lemma BearerAuthFunc_iff:
  "BearerAuthFunc cfg r \<longleftrightarrow>
     \<not> auth_Enabled cfg \<or> auth_Token cfg \<noteq> [] \<and> extractToken r = auth_Token cfg"
  by (auto simp: BearerAuthFunc_def Let_def)

lemma extractToken_source:
  "extractToken r = t \<Longrightarrow> t \<noteq> [] \<Longrightarrow>
   t \<in> {extractBearerToken r, extractSubprotocolToken r, extractCookieToken r, extractQueryToken r}"
  by (auto simp: extractToken_def split: if_splits)

lemma cookie_round_trip:
  assumes "t \<noteq> []" and "map_of (Cookies r) authCookieName = Some (ck_Value (setAuthCookie q t))"
  shows "extractCookieToken r = t"
  using assms
  by (simp add: extractCookieToken_def setAuthCookie_def encodeAuthCookieValue_def
      decodeAuthCookieValue_def rawurl.enc_trimmed rawurl.dec_enc)

lemma prefix_graphic: "\<forall>c\<in>set subprotocolTokenPrefix. graphic c"
  by (simp add: subprotocolTokenPrefix_def graphic_def)

lemma scan_token:
  "scan_protocols ((subprotocolTokenPrefix @ EncodeToString t) # ps) = t"
  by (simp add: rawurl.enc_prefixed_trimmed [OF prefix_graphic] rawurl.dec_enc Let_def)

lemma scan_skip:
  "\<forall>p\<in>set qs. \<not> has_prefix (TrimSpace p) subprotocolTokenPrefix \<Longrightarrow>
   scan_protocols (qs @ ps) = scan_protocols ps"
  by (induction qs) (auto simp: Let_def)

fun join_comma :: "string list \<Rightarrow> string" where
  "join_comma [] = []"
| "join_comma [p] = p"
| "join_comma (p # q # ps) = p @ '','' @ join_comma (q # ps)"

lemma split_no_sep: "c \<notin> set p \<Longrightarrow> split_byte c p = [p]"
  by (induction p) auto

lemma split_append_sep: "c \<notin> set p \<Longrightarrow> split_byte c (p @ c # s) = p # split_byte c s"
  by (induction p) auto

lemma split_join: "ps \<noteq> [] \<Longrightarrow> \<forall>p\<in>set ps. CHR '','' \<notin> set p \<Longrightarrow>
    split_byte CHR '','' (join_comma ps) = ps"
  by (induction ps rule: join_comma.induct) (auto simp: split_no_sep split_append_sep)

lemma join_comma_nonempty: "p \<in> set ps \<Longrightarrow> p \<noteq> [] \<Longrightarrow> join_comma ps \<noteq> []"
  by (induction ps rule: join_comma.induct) auto

lemma subprotocol_round_trip:
  assumes hdr: "Header_Get r ''Sec-WebSocket-Protocol'' =
      join_comma (qs @ (subprotocolTokenPrefix @ EncodeToString t) # ps)"
    and others: "\<forall>p\<in>set qs. \<not> has_prefix (TrimSpace p) subprotocolTokenPrefix"
    and commas: "\<forall>p\<in>set (qs @ ps). CHR '','' \<notin> set p"
  shows "extractSubprotocolToken r = t"
proof -
  let ?ps = "qs @ (subprotocolTokenPrefix @ EncodeToString t) # ps"
  have "CHR '','' \<notin> set (subprotocolTokenPrefix @ EncodeToString t)"
    using rawurl.enc_no_comma by (simp add: subprotocolTokenPrefix_def)
  then have "split_byte CHR '','' (join_comma ?ps) = ?ps"
    using commas by (intro split_join) auto
  moreover have "join_comma ?ps \<noteq> []"
    by (rule join_comma_nonempty [of "subprotocolTokenPrefix @ EncodeToString t"])
      (simp_all add: subprotocolTokenPrefix_def)
  ultimately show ?thesis
    by (simp add: extractSubprotocolToken_def hdr scan_skip [OF others] scan_token Let_def
        del: scan_protocols.simps)
qed

lemma bearer_carrier:
  assumes "Header_Get r ''Authorization'' = scheme @ '' '' @ t"
    and "equal_fold_lower scheme ''bearer''"
  shows "extractBearerToken r = TrimSpace t"
proof -
  have "map to_lower scheme = ''bearer''" using assms(2) by (simp add: equal_fold_lower_def)
  moreover have "to_lower CHR '' '' = CHR '' ''" by (simp add: to_lower_def)
  moreover have "CHR '' '' \<in> set scheme \<Longrightarrow> to_lower CHR '' '' \<in> set (map to_lower scheme)"
    by simp
  ultimately have "CHR '' '' \<notin> set scheme" by auto
  then have "cut CHR '' '' (scheme @ '' '' @ t) = Some (scheme, t)"
    using cut_append by simp
  with assms show ?thesis by (simp add: extractBearerToken_def Let_def)
qed

text \<open>A stale cookie shadows a valid query token.  When the cookie decodes to a non-empty token other
  than the configured one, the request is refused even if its query carries the right token.\<close>

lemma stale_cookie_shadows_query:
  assumes "auth_Enabled acfg" and "extractBearerToken r = []" and "extractSubprotocolToken r = []"
    and "extractCookieToken r \<noteq> []" and "extractCookieToken r \<noteq> auth_Token acfg"
    and "extractQueryToken r = auth_Token acfg" and "auth_Token acfg \<noteq> []"
  shows "\<not> BearerAuthFunc acfg r \<and> BearerAuthFunc acfg (r\<lparr>Cookies := []\<rparr>)"
  using assms
  by (auto simp: BearerAuthFunc_iff extractToken_def extractCookieToken_def extractQueryToken_def
      extractBearerToken_def extractSubprotocolToken_def Header_Get_def)

end
