(* ===== verification/Go_Chan.thy ===== *)
theory Go_Chan
  imports Prelude
begin

text \<open>
  Go channels, as far as the program uses them: a buffered channel with its capacity, its
  queued values and its closed flag.  A send inside a \<open>select\<close> with a \<open>default\<close> branch
  either queues the value, or falls through when the buffer is full, or panics when the channel
  is closed; closing a closed channel panics.  The four places of the code that push into a
  bounded buffer without blocking (client send queues, the hub's broadcast queue, the IPC event
  buffer and the pong mailbox) all go through \<open>trySend\<close>.
\<close>

record 'a chan =
  ch_cap :: nat
  ch_buf :: "'a list"
  ch_closed :: bool

datatype 'a send_result = Sent "'a chan" | Send_full | Send_panic
datatype 'a recv_result = Received 'a "'a chan" | Recv_closed | Recv_blocked

definition make_chan :: "nat \<Rightarrow> 'a chan" where
  "make_chan n = \<lparr>ch_cap = n, ch_buf = [], ch_closed = False\<rparr>"

definition trySend :: "'a chan \<Rightarrow> 'a \<Rightarrow> 'a send_result" where
  "trySend c x =
     (if ch_closed c then Send_panic
      else if length (ch_buf c) < ch_cap c then Sent (c\<lparr>ch_buf := ch_buf c @ [x]\<rparr>)
      else Send_full)"

definition tryRecv :: "'a chan \<Rightarrow> 'a recv_result" where
  "tryRecv c =
     (case ch_buf c of
        x # xs \<Rightarrow> Received x (c\<lparr>ch_buf := xs\<rparr>)
      | [] \<Rightarrow> if ch_closed c then Recv_closed else Recv_blocked)"

definition closeChan :: "'a chan \<Rightarrow> 'a chan option" where
  "closeChan c = (if ch_closed c then None else Some (c\<lparr>ch_closed := True\<rparr>))"

text \<open>\<open>select { case c <- x: default: }\<close> on an open channel: the value is queued or dropped.\<close>

definition send_or_drop :: "'a chan \<Rightarrow> 'a \<Rightarrow> 'a chan option" where
  "send_or_drop c x =
     (case trySend c x of Sent c' \<Rightarrow> Some c' | Send_full \<Rightarrow> Some c | Send_panic \<Rightarrow> None)"

definition chan_ok :: "'a chan \<Rightarrow> bool" where
  "chan_ok c \<longleftrightarrow> length (ch_buf c) \<le> ch_cap c"

lemma make_chan_simps [simp]:
  "ch_cap (make_chan n) = n" "ch_buf (make_chan n) = []" "\<not> ch_closed (make_chan n)"
  by (simp_all add: make_chan_def)

lemma chan_ok_make [simp, intro]: "chan_ok (make_chan n)"
  by (simp add: chan_ok_def)

lemma send_or_drop_open: "\<not> ch_closed c \<Longrightarrow> send_or_drop c x =
    Some (if length (ch_buf c) < ch_cap c then c\<lparr>ch_buf := ch_buf c @ [x]\<rparr> else c)"
  by (simp add: send_or_drop_def trySend_def)

lemma send_or_drop_None: "send_or_drop c x = None \<longleftrightarrow> ch_closed c"
  by (simp add: send_or_drop_def trySend_def)

lemma send_or_drop_Some:
  assumes "send_or_drop c x = Some c'"
  shows "\<not> ch_closed c" and "ch_cap c' = ch_cap c" and "\<not> ch_closed c'"
    and "chan_ok c \<Longrightarrow> chan_ok c'" and "\<exists>ys. ch_buf c' = ch_buf c @ ys \<and> set ys \<subseteq> {x}"
  using assms by (auto simp: send_or_drop_def trySend_def chan_ok_def split: if_splits)

section \<open>The contract of a bounded lossy queue\<close>

fun push_all :: "('q \<Rightarrow> 'a \<Rightarrow> 'q option) \<Rightarrow> 'q \<Rightarrow> 'a list \<Rightarrow> 'q option" where
  "push_all push q [] = Some q"
| "push_all push q (x # xs) = (case push q x of None \<Rightarrow> None | Some q' \<Rightarrow> push_all push q' xs)"

locale lossy_queue =
  fixes push :: "'q \<Rightarrow> 'a \<Rightarrow> 'q option"
    and items :: "'q \<Rightarrow> 'a list"
    and capacity :: "'q \<Rightarrow> nat"
    and usable :: "'q \<Rightarrow> bool"
  assumes push_items: "usable q \<Longrightarrow> push q x = Some q' \<Longrightarrow>
      items q' = (if length (items q) < capacity q then items q @ [x] else items q)"
    and push_total: "usable q \<Longrightarrow> \<exists>q'. push q x = Some q'"
    and push_frame: "usable q \<Longrightarrow> push q x = Some q' \<Longrightarrow> capacity q' = capacity q \<and> usable q'"
begin

lemma push_all_items:
  "usable q \<Longrightarrow> length (items q) \<le> capacity q \<Longrightarrow>
   \<exists>q'. push_all push q xs = Some q' \<and> usable q' \<and> capacity q' = capacity q \<and>
        items q' = items q @ take (capacity q - length (items q)) xs"
proof (induction xs arbitrary: q)
  case Nil
  then show ?case by simp
next
  case (Cons x xs)
  obtain q1 where q1: "push q x = Some q1"
    using push_total [OF Cons.prems(1)] by blast
  have frame: "capacity q1 = capacity q" "usable q1"
    using push_frame [OF Cons.prems(1) q1] by simp_all
  have it: "items q1 = (if length (items q) < capacity q then items q @ [x] else items q)"
    by (rule push_items [OF Cons.prems(1) q1])
  have "length (items q1) \<le> capacity q1"
    using it frame Cons.prems(2) by auto
  from Cons.IH [OF frame(2) this] q1 frame it Cons.prems(2) show ?case
    by (auto simp: take_Cons' Suc_diff_Suc)
qed

lemma push_all_bounded:
  "usable q \<Longrightarrow> length (items q) \<le> capacity q \<Longrightarrow> push_all push q xs = Some q' \<Longrightarrow>
   length (items q') \<le> capacity q'"
  using push_all_items [of q xs] by auto

end

interpretation chan_queue:
  lossy_queue send_or_drop ch_buf ch_cap "\<lambda>c. \<not> ch_closed c"
  by unfold_locales (auto simp: send_or_drop_open split: if_splits)

end
