(* ===== verification/Json.thy ===== *)
theory Json
  imports Go_Strings
begin

text \<open>
  JSON documents and the rules by which Go's \<open>encoding/json\<close> moves them in and out of struct fields.
  A document is the value the standard scanner yields for a text (a text it rejects has no value);
  \<open>J_frac\<close> stands for a number literal that is no integer.  Object members are matched to field names
  exactly, else under case folding; \<open>null\<close> leaves a field as it is; a member of the wrong type makes
  the whole decoding fail, and every caller then discards the partial result.

  Strings are valid UTF-8, as every string read from a JSON text is: for other byte sequences the
  encoder writes replacement characters, which is not modelled.  When one text repeats an array
  member, the standard decoder reuses the elements of the first occurrence; the model starts afresh.
\<close>

datatype json =
    J_null
  | J_bool bool
  | J_num int
  | J_frac string
  | J_str string
  | J_arr "json list"
  | J_obj "(string \<times> json) list"

text \<open>
  \<open>foldName\<close>: upper case for ASCII letters; the only other runes folding to ASCII letters are the
  long s (C5 BF) and the Kelvin sign (E2 84 AA).
\<close>

fun fold_name :: "string \<Rightarrow> string" where
  "fold_name [] = []"
| "fold_name (c # cs) =
     (if has_prefix (c # cs) [CHR 0xC5, CHR 0xBF] then CHR ''S'' # fold_name (drop 1 cs)
      else if has_prefix (c # cs) [CHR 0xE2, CHR 0x84, CHR 0xAA] then CHR ''K'' # fold_name (drop 2 cs)
      else (if 0x61 \<le> (of_char c :: nat) \<and> (of_char c :: nat) \<le> 0x7A
            then char_of ((of_char c :: nat) - 32) else c) # fold_name cs)"

text \<open>The field of a struct with the given field names that a member name selects.\<close>

definition field_of :: "string list \<Rightarrow> string \<Rightarrow> string option" where
  "field_of names k =
     (if k \<in> set names then Some k else find (\<lambda>n. fold_name n = fold_name k) names)"

text \<open>
  Decoding an object member by member, each handled by \<open>f\<close> under the name of the field it selects;
  unknown members are skipped, the first failure fails the whole.
\<close>

fun decode_members ::
  "string list \<Rightarrow> (string \<Rightarrow> json \<Rightarrow> 's \<Rightarrow> 's option) \<Rightarrow> (string \<times> json) list \<Rightarrow> 's \<Rightarrow> 's option" where
  "decode_members names f [] s = Some s"
| "decode_members names f ((k, v) # kvs) s =
     (case field_of names k of
        None \<Rightarrow> decode_members names f kvs s
      | Some n \<Rightarrow> (case f n v s of None \<Rightarrow> None | Some s' \<Rightarrow> decode_members names f kvs s'))"

definition decode_struct ::
  "string list \<Rightarrow> (string \<Rightarrow> json \<Rightarrow> 's \<Rightarrow> 's option) \<Rightarrow> json \<Rightarrow> 's \<Rightarrow> 's option" where
  "decode_struct names f j s =
     (case j of J_null \<Rightarrow> Some s | J_obj kvs \<Rightarrow> decode_members names f kvs s | _ \<Rightarrow> None)"

definition decode_string :: "json \<Rightarrow> string \<Rightarrow> string option" where
  "decode_string j old = (case j of J_null \<Rightarrow> Some old | J_str s \<Rightarrow> Some s | _ \<Rightarrow> None)"

definition decode_int64 :: "json \<Rightarrow> int64 \<Rightarrow> int64 option" where
  "decode_int64 j old =
     (case j of
        J_null \<Rightarrow> Some old
      | J_num i \<Rightarrow> if - (2 ^ 63) \<le> i \<and> i < 2 ^ 63 then Some (word_of_int i) else None
      | _ \<Rightarrow> None)"

text \<open>A pointer field: \<open>null\<close> sets it to nil, anything else decodes into the pointee, allocated if need be.\<close>

definition decode_pointer ::
  "(json \<Rightarrow> 's \<Rightarrow> 's option) \<Rightarrow> 's \<Rightarrow> json \<Rightarrow> 's option \<Rightarrow> 's option option" where
  "decode_pointer f zero j old =
     (case j of
        J_null \<Rightarrow> Some None
      | _ \<Rightarrow> map_option Some (f j (case old of None \<Rightarrow> zero | Some s \<Rightarrow> s)))"

text \<open>A slice field: \<open>null\<close> gives nil; the elements of an array are decoded into fresh zero values.\<close>

fun decode_elements :: "(json \<Rightarrow> 's \<Rightarrow> 's option) \<Rightarrow> 's \<Rightarrow> json list \<Rightarrow> 's list option" where
  "decode_elements f zero [] = Some []"
| "decode_elements f zero (j # js) =
     (case f j zero of
        None \<Rightarrow> None
      | Some x \<Rightarrow> map_option (\<lambda>xs. x # xs) (decode_elements f zero js))"

definition decode_slice ::
  "(json \<Rightarrow> 's \<Rightarrow> 's option) \<Rightarrow> 's \<Rightarrow> json \<Rightarrow> 's list option option" where
  "decode_slice f zero j =
     (case j of
        J_null \<Rightarrow> Some None
      | J_arr js \<Rightarrow> map_option Some (decode_elements f zero js)
      | _ \<Rightarrow> None)"

text \<open>A \<open>[2]int\<close>: missing elements become zero, surplus elements are ignored.\<close>

definition decode_pair :: "json \<Rightarrow> int64 \<times> int64 \<Rightarrow> (int64 \<times> int64) option" where
  "decode_pair j old =
     (case j of
        J_null \<Rightarrow> Some old
      | J_arr [] \<Rightarrow> Some (0, 0)
      | J_arr [x] \<Rightarrow> map_option (\<lambda>a. (a, 0)) (decode_int64 x (fst old))
      | J_arr (x # y # _) \<Rightarrow>
          (case decode_int64 x (fst old) of
             None \<Rightarrow> None
           | Some a \<Rightarrow> map_option (\<lambda>b. (a, b)) (decode_int64 y (snd old)))
      | _ \<Rightarrow> None)"

text \<open>Encoding: \<open>omitempty\<close> leaves a member out.\<close>

definition member_if :: "bool \<Rightarrow> string \<Rightarrow> json \<Rightarrow> (string \<times> json) list" where
  "member_if b k v = (if b then [(k, v)] else [])"

definition encode_int64 :: "int64 \<Rightarrow> json" where
  "encode_int64 w = J_num (sint w)"

lemma decode_members_append: "decode_members names f (xs @ ys) s =
    Option.bind (decode_members names f xs s) (decode_members names f ys)"
  by (induction names f xs s rule: decode_members.induct) (auto split: option.splits)

lemma field_of_exact: "k \<in> set names \<Longrightarrow> field_of names k = Some k"
  by (simp add: field_of_def)

lemma decode_member_if:
  "k \<in> set names \<Longrightarrow> decode_members names f (member_if b k v) s = (if b then f k v s else Some s)"
  by (auto simp: member_if_def field_of_exact split: option.splits)

lemma decode_encode_int64 [simp]: "decode_int64 (encode_int64 w) old = Some w"
  using sint_ge [of w] sint_lt [of w] by (simp add: decode_int64_def encode_int64_def)

lemma decode_string_str [simp]: "decode_string (J_str s) old = Some s"
  by (simp add: decode_string_def)

lemma decode_elements_map:
  "(\<And>x. x \<in> set xs \<Longrightarrow> f (g x) zero = Some x) \<Longrightarrow> decode_elements f zero (map g xs) = Some xs"
  by (induction xs) auto

end
