(* ===== verification/Ipc_Parser.thy ===== *)
theory Ipc_Parser
  imports Activity Json
begin

text \<open>
  Normalising Discord activities, \<open>internal/ipc/parser.go\<close>.  The source struct belongs to the library
  gopresence; the record below has the fields the parser reads.  How the library's struct is filled
  from a JSON document is a parameter, \<open>decode\<close>.
\<close>

record presence_Activity =
  p_Details :: string
  p_State :: string
  p_Type :: int64
  p_Timestamps :: "Timestamps option"
  p_Assets :: "Assets option"
  p_Party :: "Party option"
  p_Buttons :: "Button list"

datatype parse_error =
    ErrNilActivity
  | Unknown_activity_type int64
  | Too_many_buttons nat
  | Label_required nat
  | URL_required nat
  | Unmarshal_activity
  | Nil_frame

definition maxActivityButtons :: nat where
  "maxActivityButtons = 2"

definition validateActivityType :: "int64 \<Rightarrow> bool" where
  "validateActivityType t \<longleftrightarrow> t \<in> {ActivityPlaying, ActivityStreaming, ActivityListening,
     ActivityWatching, ActivityCustom, ActivityCompeting}"

definition parseTimestamps :: "Timestamps option \<Rightarrow> Timestamps option" where
  "parseTimestamps src =
     (case src of
        None \<Rightarrow> None
      | Some t \<Rightarrow> if ts_Start t = 0 \<and> ts_End t = 0 then None
                  else Some \<lparr>ts_Start = ts_Start t, ts_End = ts_End t\<rparr>)"

definition parseAssets :: "Assets option \<Rightarrow> Assets option" where
  "parseAssets src =
     (case src of
        None \<Rightarrow> None
      | Some s \<Rightarrow>
          (let dst = \<lparr>LargeImage = LargeImage s, LargeText = LargeText s,
                      SmallImage = SmallImage s, SmallText = SmallText s\<rparr>
           in if LargeImage dst = [] \<and> LargeText dst = [] \<and> SmallImage dst = [] \<and> SmallText dst = []
              then None else Some dst))"

definition parseParty :: "Party option \<Rightarrow> Party option" where
  "parseParty src =
     (case src of
        None \<Rightarrow> None
      | Some p \<Rightarrow> if party_ID p = [] \<and> fst (party_Size p) = 0 \<and> snd (party_Size p) = 0 then None
                  else Some \<lparr>party_ID = party_ID p, party_Size = party_Size p\<rparr>)"

text \<open>The loop over the buttons, at index \<open>i\<close> with the slice built so far.\<close>

fun copy_buttons :: "nat \<Rightarrow> Button list \<Rightarrow> Button list \<Rightarrow> parse_error + Button list" where
  "copy_buttons i [] dst = Inr dst"
| "copy_buttons i (b # bs) dst =
     (if Label b = [] then Inl (Label_required i)
      else if URL b = [] then Inl (URL_required i)
      else copy_buttons (Suc i) bs (dst @ [\<lparr>Label = Label b, URL = URL b\<rparr>]))"

definition parseButtons :: "Button list \<Rightarrow> parse_error + Button list" where
  "parseButtons src =
     (if length src = 0 then Inr []
      else if length src > maxActivityButtons then Inl (Too_many_buttons (length src))
      else copy_buttons 0 src [])"

definition ParseActivity :: "presence_Activity option \<Rightarrow> parse_error + Activity" where
  "ParseActivity src0 =
     (case src0 of
        None \<Rightarrow> Inl ErrNilActivity
      | Some src \<Rightarrow>
          if \<not> validateActivityType (p_Type src) then Inl (Unknown_activity_type (p_Type src))
          else
            let dst = zero_activity\<lparr>a_Details := p_Details src, a_State := p_State src, a_Type := p_Type src\<rparr>;
                dst = (case parseTimestamps (p_Timestamps src) of
                         None \<Rightarrow> dst | Some t \<Rightarrow> dst\<lparr>a_Timestamps := Some t\<rparr>);
                dst = (case parseAssets (p_Assets src) of
                         None \<Rightarrow> dst | Some s \<Rightarrow> dst\<lparr>a_Assets := Some s\<rparr>);
                dst = (case parseParty (p_Party src) of
                         None \<Rightarrow> dst | Some p \<Rightarrow> dst\<lparr>a_Party := Some p\<rparr>)
            in (case parseButtons (p_Buttons src) of
                  Inl e \<Rightarrow> Inl e
                | Inr bs \<Rightarrow> Inr (if length bs > 0 then dst\<lparr>a_Buttons := Some bs\<rparr> else dst)))"

text \<open>
  \<open>data\<close> is the raw message of a frame: absent or empty is \<open>None\<close>; a text that is no JSON document
  fails to unmarshal and is \<open>Some None\<close>.
\<close>

definition ParseActivityData ::
  "(json \<Rightarrow> presence_Activity option) \<Rightarrow> json option option \<Rightarrow> parse_error + Activity" where
  "ParseActivityData decode data =
     (case data of
        None \<Rightarrow> Inl ErrNilActivity
      | Some None \<Rightarrow> Inl Unmarshal_activity
      | Some (Some j) \<Rightarrow>
          if j = J_null then Inl ErrNilActivity
          else (case decode j of
                  None \<Rightarrow> Inl Unmarshal_activity
                | Some src \<Rightarrow> ParseActivity (Some src)))"

text \<open>A frame is its \<open>Data\<close> field, the only one the program reads.\<close>

type_synonym ResponseFrame = "json option option"

definition ParseActivityFrame ::
  "(json \<Rightarrow> presence_Activity option) \<Rightarrow> ResponseFrame option \<Rightarrow> parse_error + Activity" where
  "ParseActivityFrame decode frame =
     (case frame of None \<Rightarrow> Inl Nil_frame | Some data \<Rightarrow> ParseActivityData decode data)"

section \<open>The result is in normal form\<close>

text \<open>What the parser lets through of the buttons, and the activity it stands for.\<close>

definition buttons_ok :: "Button list \<Rightarrow> bool" where
  "buttons_ok bs \<longleftrightarrow> length bs \<le> 2 \<and> (\<forall>b\<in>set bs. Label b \<noteq> [] \<and> URL b \<noteq> [])"

definition source_activity :: "presence_Activity \<Rightarrow> Activity" where
  "source_activity src =
     \<lparr>a_Details = p_Details src, a_State = p_State src, a_Timestamps = p_Timestamps src,
      a_Assets = p_Assets src, a_Party = p_Party src, a_Buttons = Some (p_Buttons src),
      a_Type = p_Type src\<rparr>"

lemma parts_drop_zero:
  "parseTimestamps ts = drop_if zero_timestamps ts"
  "parseAssets as = drop_if zero_assets as"
  "parseParty p = drop_if zero_party p"
  by (auto simp: parseTimestamps_def parseAssets_def parseParty_def zero_timestamps_def
      zero_assets_def zero_party_def prod_eq_iff split: option.splits)

lemma copy_buttons_Inr:
  "copy_buttons i bs dst = Inr bs' \<longleftrightarrow> (\<forall>b\<in>set bs. Label b \<noteq> [] \<and> URL b \<noteq> []) \<and> bs' = dst @ bs"
  by (induction i bs dst rule: copy_buttons.induct) auto

lemma parseButtons_Inr: "parseButtons bs = Inr bs' \<longleftrightarrow> buttons_ok bs \<and> bs' = bs"
  by (auto simp: parseButtons_def maxActivityButtons_def buttons_ok_def copy_buttons_Inr)

lemma ParseActivity_Inr:
  "ParseActivity (Some src) = Inr a \<longleftrightarrow>
     validateActivityType (p_Type src) \<and> buttons_ok (p_Buttons src) \<and>
     a = activity_norm (source_activity src)"
proof (cases "parseButtons (p_Buttons src)")
  case (Inl e)
  then have "\<not> buttons_ok (p_Buttons src)" using parseButtons_Inr by (metis Inl_Inr_False)
  with Inl show ?thesis by (simp add: ParseActivity_def Let_def)
next
  case (Inr bs)
  then have "buttons_ok (p_Buttons src)" and "bs = p_Buttons src"
    using parseButtons_Inr by metis+
  with Inr show ?thesis
    by (auto simp: ParseActivity_def Let_def parts_drop_zero activity_norm_def source_activity_def
        zero_activity_def split: option.splits)
qed

lemma ParseActivity_norm: "ParseActivity src = Inr a \<Longrightarrow> activity_norm a = a"
  by (cases src) (auto simp: ParseActivity_def [of None] ParseActivity_Inr activity_norm_idem)

lemma ParseActivityFrame_Inr:
  "ParseActivityFrame decode frame = Inr a \<Longrightarrow>
   \<exists>j src. frame = Some (Some (Some j)) \<and> j \<noteq> J_null \<and> decode j = Some src \<and> ParseActivity (Some src) = Inr a"
  by (auto simp: ParseActivityFrame_def ParseActivityData_def split: option.splits if_splits)

section \<open>Errors\<close>

lemma copy_buttons_Inl:
  "copy_buttons i bs dst = Inl e \<longleftrightarrow>
     (\<exists>xs b ys. bs = xs @ b # ys \<and> (\<forall>x\<in>set xs. Label x \<noteq> [] \<and> URL x \<noteq> []) \<and>
        (Label b = [] \<and> e = Label_required (i + length xs) \<or>
         Label b \<noteq> [] \<and> URL b = [] \<and> e = URL_required (i + length xs)))"
  (is "_ \<longleftrightarrow> ?R i bs")
proof (induction i bs dst rule: copy_buttons.induct)
  case (1 i dst)
  then show ?case by simp
next
  case (2 i b bs dst)
  show ?case
  proof (cases "Label b = [] \<or> URL b = []")
    case True
    have "?R i (b # bs) \<longleftrightarrow> (Label b = [] \<and> e = Label_required i \<or> Label b \<noteq> [] \<and> URL b = [] \<and> e = URL_required i)"
      (is "_ \<longleftrightarrow> ?S")
    proof
      assume "?R i (b # bs)"
      then obtain xs c ys where c: "b # bs = xs @ c # ys" "\<forall>x\<in>set xs. Label x \<noteq> [] \<and> URL x \<noteq> []"
        "Label c = [] \<and> e = Label_required (i + length xs) \<or> Label c \<noteq> [] \<and> URL c = [] \<and> e = URL_required (i + length xs)"
        by blast
      with True have "xs = []" by (cases xs) auto
      with c show ?S by simp
    next
      assume ?S
      then show "?R i (b # bs)" by (intro exI [of _ "[]"] exI [of _ b] exI [of _ bs]) simp
    qed
    with True show ?thesis by auto
  next
    case False
    have "?R i (b # bs) \<longleftrightarrow> ?R (Suc i) bs"
    proof
      assume "?R i (b # bs)"
      then obtain xs c ys where c: "b # bs = xs @ c # ys" "\<forall>x\<in>set xs. Label x \<noteq> [] \<and> URL x \<noteq> []"
        "Label c = [] \<and> e = Label_required (i + length xs) \<or> Label c \<noteq> [] \<and> URL c = [] \<and> e = URL_required (i + length xs)"
        by blast
      with False obtain xs' where "xs = b # xs'" by (cases xs) auto
      with c show "?R (Suc i) bs" by (intro exI [of _ xs'] exI [of _ c] exI [of _ ys]) simp
    next
      assume "?R (Suc i) bs"
      then obtain xs c ys where "bs = xs @ c # ys" "\<forall>x\<in>set xs. Label x \<noteq> [] \<and> URL x \<noteq> []"
        "Label c = [] \<and> e = Label_required (Suc i + length xs) \<or> Label c \<noteq> [] \<and> URL c = [] \<and> e = URL_required (Suc i + length xs)"
        by blast
      with False show "?R i (b # bs)" by (intro exI [of _ "b # xs"] exI [of _ c] exI [of _ ys]) simp
    qed
    with 2 False show ?thesis by simp
  qed
qed

lemma parseButtons_Inl:
  "parseButtons src = Inl e \<longleftrightarrow>
     2 < length src \<and> e = Too_many_buttons (length src) \<or>
     length src \<le> 2 \<and> (\<exists>bs b cs. src = bs @ b # cs \<and> (\<forall>x\<in>set bs. Label x \<noteq> [] \<and> URL x \<noteq> []) \<and>
       (Label b = [] \<and> e = Label_required (length bs) \<or>
        Label b \<noteq> [] \<and> URL b = [] \<and> e = URL_required (length bs)))"
proof (cases "length src \<le> 2")
  case False
  then show ?thesis by (auto simp: parseButtons_def maxActivityButtons_def)
next
  case True
  then have "parseButtons src = Inl e \<longleftrightarrow> copy_buttons 0 src [] = Inl e"
    by (simp add: parseButtons_def maxActivityButtons_def)
  then show ?thesis using True by (simp add: copy_buttons_Inl)
qed

lemma ParseActivity_Inl:
  "ParseActivity (Some src) = Inl e \<longleftrightarrow>
     \<not> validateActivityType (p_Type src) \<and> e = Unknown_activity_type (p_Type src) \<or>
     validateActivityType (p_Type src) \<and> parseButtons (p_Buttons src) = Inl e"
  by (auto simp: ParseActivity_def Let_def split: sum.splits)

section \<open>The type of a parsed activity\<close>

definition well_formed :: "Activity \<Rightarrow> bool" where
  "well_formed a \<longleftrightarrow>
     validateActivityType (a_Type a) \<and>
     (\<forall>t. a_Timestamps a = Some t \<longrightarrow> \<not> zero_timestamps t) \<and>
     (\<forall>x. a_Assets a = Some x \<longrightarrow> \<not> zero_assets x) \<and>
     (\<forall>p. a_Party a = Some p \<longrightarrow> \<not> zero_party p) \<and>
     (\<forall>bs. a_Buttons a = Some bs \<longrightarrow> bs \<noteq> [] \<and> buttons_ok bs)"

lemma ParseActivity_well_formed: "ParseActivity src = Inr a \<Longrightarrow> well_formed a"
  by (cases src)
    (auto simp: ParseActivity_def [of None] ParseActivity_Inr activity_norm_def source_activity_def
      well_formed_def drop_if_def split: option.splits if_splits)

lemma well_formed_buttons: "well_formed a \<Longrightarrow> drop_if (\<lambda>bs. bs = []) (a_Buttons a) = a_Buttons a"
  by (auto simp: well_formed_def drop_if_def split: option.splits)

lemma well_formed_norm: "well_formed a \<Longrightarrow> activity_norm a = a"
  by (cases a) (auto simp: well_formed_def activity_norm_def drop_if_def split: option.splits)

text \<open>A source that parses.\<close>

definition plain_source :: presence_Activity where
  "plain_source = \<lparr>p_Details = ''d'', p_State = ''s'', p_Type = ActivityPlaying, p_Timestamps = None,
     p_Assets = None, p_Party = None, p_Buttons = []\<rparr>"

definition plain_activity :: Activity where
  "plain_activity = zero_activity\<lparr>a_Details := ''d'', a_State := ''s''\<rparr>"

lemma plain_parses: "ParseActivity (Some plain_source) = Inr plain_activity"
  by (simp add: ParseActivity_Inr plain_source_def plain_activity_def validateActivityType_def buttons_ok_def
      source_activity_def activity_norm_def zero_activity_def drop_if_def ActivityPlaying_def)

end
