(* ===== verification/Backoff.thy ===== *)
theory Backoff
  imports Prelude Complex_Main
begin

text \<open>
  Retry delays: \<open>cappedDouble\<close> and \<open>NextInterval\<close> of \<open>internal/ipc/reconnect.go\<close>, \<open>nextBackoff\<close> of
  \<open>internal/tui/model.go\<close>, and the loop variable of \<open>examples/consumer/main.go\<close>.  Durations are signed
  64-bit words, so doubling wraps as in Go.  The three share one contract: the delay starts at the
  base, doubles each time and saturates at the cap.
\<close>

definition sless64 :: "int64 \<Rightarrow> int64 \<Rightarrow> bool" where
  "sless64 a b \<longleftrightarrow> sint a < sint b"

text \<open>The loop of \<open>cappedDouble\<close>, then its final comparison.\<close>

fun double_while :: "int64 \<Rightarrow> int64 \<Rightarrow> nat \<Rightarrow> int64" where
  "double_while v cap 0 = v"
| "double_while v cap (Suc n) = (if sless64 v cap then double_while (v * 2) cap n else v)"

definition cappedDouble :: "int64 \<Rightarrow> int64 \<Rightarrow> nat \<Rightarrow> int64" where
  "cappedDouble v cap n =
     (let w = double_while v cap n in if sless64 cap w then cap else w)"

definition nextBackoff :: "int64 \<Rightarrow> int64 \<Rightarrow> int64 \<Rightarrow> int64" where
  "nextBackoff current base mx =
     (if \<not> sless64 0 current then base
      else let nxt = current * 2 in if sless64 mx nxt then mx else nxt)"

text \<open>The \<open>k\<close>-th delay of a row of failures, for the terminal UI and for the example consumer.\<close>

fun tui_delay :: "int64 \<Rightarrow> int64 \<Rightarrow> nat \<Rightarrow> int64" where
  "tui_delay base mx 0 = nextBackoff 0 base mx"
| "tui_delay base mx (Suc k) = nextBackoff (tui_delay base mx k) base mx"

fun consumer_delay :: "int64 \<Rightarrow> int64 \<Rightarrow> nat \<Rightarrow> int64" where
  "consumer_delay base mx 0 = base"
| "consumer_delay base mx (Suc k) =
     (let b = consumer_delay base mx k * 2 in if sless64 mx b then mx else b)"

section \<open>The contract\<close>

text \<open>
  A range in which doubling cannot wrap: the cap is below \<open>2^62\<close> nanoseconds (146 years).
\<close>

definition safe_range :: "int64 \<Rightarrow> int64 \<Rightarrow> bool" where
  "safe_range base cap \<longleftrightarrow> 0 < sint base \<and> sint base \<le> sint cap \<and> sint cap < 2 ^ 62"

locale doubling_schedule =
  fixes delay :: "int64 \<Rightarrow> int64 \<Rightarrow> nat \<Rightarrow> int64"
  assumes delay_first: "safe_range base cap \<Longrightarrow> delay base cap 0 = base"
    and delay_next: "safe_range base cap \<Longrightarrow>
      sint (delay base cap (Suc k)) = min (sint cap) (2 * sint (delay base cap k))"
begin

lemma delay_closed:
  assumes "safe_range base cap"
  shows "sint (delay base cap k) = min (sint cap) (sint base * 2 ^ k)"
proof (induction k)
  case 0
  with assms show ?case by (simp add: delay_first safe_range_def)
next
  case (Suc k)
  with assms show ?case by (auto simp: delay_next safe_range_def)
qed

lemma delay_bounds:
  assumes "safe_range base cap"
  shows "sint base \<le> sint (delay base cap k)" and "sint (delay base cap k) \<le> sint cap"
proof -
  have "sint base * 1 \<le> sint base * 2 ^ k"
    using assms by (intro mult_left_mono) (simp_all add: safe_range_def)
  then show "sint base \<le> sint (delay base cap k)" "sint (delay base cap k) \<le> sint cap"
    using assms by (simp_all add: delay_closed safe_range_def)
qed

lemma delay_grows:
  assumes "safe_range base cap"
  shows "sint (delay base cap k) \<le> sint (delay base cap (Suc k))"
  using delay_bounds [OF assms, of k] assms by (simp add: delay_next safe_range_def)

lemma delay_saturates:
  assumes "safe_range base cap" and "sint cap \<le> sint base * 2 ^ k" and "k \<le> j"
  shows "delay base cap j = cap"
proof -
  have "(2::int) ^ k \<le> 2 ^ j" using assms(3) by simp
  then have "sint base * 2 ^ k \<le> sint base * 2 ^ j"
    using assms(1) by (intro mult_left_mono) (simp_all add: safe_range_def)
  then have "sint (delay base cap j) = sint cap"
    using assms by (simp add: delay_closed)
  then show ?thesis by (rule signed_word_eqI)
qed

end

section \<open>The three schedules\<close>

lemma sint_double: "0 < sint v \<Longrightarrow> sint v < 2 ^ 62 \<Longrightarrow> sint (v * 2) = 2 * sint (v::int64)"
  by (simp add: sint_word_ariths signed_take_bit_int_eq_self)

text \<open>\<open>cappedDouble\<close> in closed form, for any positive base, also one above the cap.\<close>

lemma double_while_eq:
  assumes "0 < sint v" and "sint cap \<le> 2 ^ 62"
  shows "min (sint cap) (sint (double_while v cap n)) = min (sint cap) (sint v * 2 ^ n)"
  using assms
proof (induction v cap n rule: double_while.induct)
  case (1 v cap)
  then show ?case by simp
next
  case (2 v cap n)
  show ?case
  proof (cases "sless64 v cap")
    case True
    then have "sint (v * 2) = 2 * sint v"
      using "2.prems" by (intro sint_double) (simp_all add: sless64_def)
    with "2.IH" [OF True] "2.prems" True show ?thesis by (simp add: mult.assoc mult.left_commute)
  next
    case False
    have "sint v * 1 \<le> sint v * 2 ^ Suc n"
      using "2.prems"(1) by (intro mult_left_mono one_le_power) simp_all
    with False show ?thesis by (simp add: sless64_def)
  qed
qed

lemma cappedDouble_eq:
  assumes "0 < sint v" and "sint cap \<le> 2 ^ 62"
  shows "sint (cappedDouble v cap n) = min (sint cap) (sint v * 2 ^ n)"
  using double_while_eq [OF assms, of n] by (auto simp: cappedDouble_def sless64_def Let_def)

lemma nextBackoff_double:
  assumes "0 < sint d" and "sint d < 2 ^ 62"
  shows "sint (nextBackoff d base mx) = min (sint mx) (2 * sint d)"
  using assms by (simp add: nextBackoff_def sless64_def Let_def sint_double)

lemma nextBackoff_zero [simp]: "nextBackoff 0 base mx = base"
  by (simp add: nextBackoff_def sless64_def)

lemma sint_eqI: "sint (a :: int64) = sint b \<Longrightarrow> a = b"
  by (rule signed_word_eqI)

lemma tui_delay_range:
  "safe_range base cap \<Longrightarrow> 0 < sint (tui_delay base cap k) \<and> sint (tui_delay base cap k) \<le> sint cap"
  by (induction k) (auto simp: safe_range_def nextBackoff_double)

lemma consumer_delay_range:
  "safe_range base cap \<Longrightarrow> 0 < sint (consumer_delay base cap k) \<and> sint (consumer_delay base cap k) \<le> sint cap"
  by (induction k) (auto simp: safe_range_def sless64_def sint_double Let_def)

interpretation ipc_delay: doubling_schedule cappedDouble
  by unfold_locales
    (auto simp: safe_range_def cappedDouble_eq intro!: sint_eqI)

interpretation tui_backoff: doubling_schedule tui_delay
proof unfold_locales
  fix base cap :: int64 and k :: nat
  assume safe: "safe_range base cap"
  show "tui_delay base cap 0 = base" by simp
  show "sint (tui_delay base cap (Suc k)) = min (sint cap) (2 * sint (tui_delay base cap k))"
    using tui_delay_range [OF safe, of k] safe by (simp add: nextBackoff_double safe_range_def)
qed

interpretation consumer_backoff: doubling_schedule consumer_delay
proof unfold_locales
  fix base cap :: int64 and k :: nat
  assume safe: "safe_range base cap"
  show "consumer_delay base cap 0 = base" by simp
  show "sint (consumer_delay base cap (Suc k)) = min (sint cap) (2 * sint (consumer_delay base cap k))"
    using consumer_delay_range [OF safe, of k] safe
    by (simp add: safe_range_def sless64_def sint_double Let_def)
qed

section \<open>Jitter\<close>

text \<open>
  \<open>NextInterval\<close> computes in \<open>float64\<close>; the model computes the same expression exactly, so the
  rounding of the three operations (below one part in \<open>2^50\<close>) is left out.  \<open>r\<close> is the value of
  \<open>rand.Float64()\<close>, and the conversion to \<open>time.Duration\<close> truncates.
\<close>

definition truncate_rat :: "rat \<Rightarrow> int" where
  "truncate_rat x = (if 0 \<le> x then \<lfloor>x\<rfloor> else \<lceil>x\<rceil>)"

definition jitter_int :: "rat \<Rightarrow> int \<Rightarrow> int" where
  "jitter_int r n =
     (let i = of_int n; jitter = i * (1 / 10) in truncate_rat (i + r * 2 * jitter - jitter))"

definition jittered :: "rat \<Rightarrow> int64 \<Rightarrow> int" where
  "jittered r interval = jitter_int r (sint interval)"

lemma jitter_bounds:
  assumes "0 \<le> r" and "r < 1" and "0 \<le> n"
  shows "9 * n - 10 < 10 * jitter_int r n" and "10 * jitter_int r n \<le> 11 * n"
proof -
  let ?i = "of_int n :: rat"
  let ?x = "?i + r * 2 * (?i * (1 / 10)) - ?i * (1 / 10)"
  have i: "0 \<le> ?i" using assms(3) by simp
  have "r * ?i \<le> 1 * ?i" using assms(2) i by (intro mult_right_mono) simp_all
  moreover have "0 \<le> r * ?i" using assms(1) i by simp
  ultimately have x: "9 / 10 * ?i \<le> ?x" "?x \<le> 11 / 10 * ?i" by (simp_all add: algebra_simps)
  then have "jitter_int r n = \<lfloor>?x\<rfloor>" using i by (simp add: jitter_int_def truncate_rat_def Let_def)
  then have "of_int (jitter_int r n) \<le> ?x" "?x < of_int (jitter_int r n) + 1" by linarith+
  with x have "of_int (9 * n - 10) < (of_int (10 * jitter_int r n) :: rat)"
    "of_int (10 * jitter_int r n) \<le> (of_int (11 * n) :: rat)" by simp_all
  then show "9 * n - 10 < 10 * jitter_int r n" "10 * jitter_int r n \<le> 11 * n"
    by (simp_all only: of_int_less_iff of_int_le_iff)
qed

end
