(* ===== verification/Ipc_Client.thy ===== *)
theory Ipc_Client
  imports Go_Chan Ipc_Parser Backoff
begin

text \<open>
  The client of Discord's local IPC socket, \<open>internal/ipc/client.go\<close>, and the reconnection of
  \<open>internal/ipc/reconnect.go\<close>.  The socket library (dialling, the login handshake, reading and parsing
  frames) is not part of the repository: what it does at each call is an argument.  Connections and
  event channels are named by numbers in the order they are made; \<open>socks\<close> are the connections
  that are open.
\<close>

type_synonym opcode = "32 word"

definition OpHandshake :: opcode where "OpHandshake = 0"
definition OpFrame :: opcode where "OpFrame = 1"
definition OpClose :: opcode where "OpClose = 2"
definition OpPing :: opcode where "OpPing = 3"
definition OpPong :: opcode where "OpPong = 4"

lemmas opcode_defs = OpHandshake_def OpFrame_def OpClose_def OpPing_def OpPong_def

datatype IPC_State = IPC_Disconnected | IPC_Connecting | IPC_Connected | IPC_Reconnecting

fun State_String :: "IPC_State \<Rightarrow> string" where
  "State_String IPC_Connecting = ''connecting''"
| "State_String IPC_Connected = ''connected''"
| "State_String IPC_Reconnecting = ''reconnecting''"
| "State_String IPC_Disconnected = ''disconnected''"

datatype ipc_error =
    Read_error | Closed_by_Discord | Frame_error | Run_before_Connect | Not_connected
  | Ctx_error | ErrMaxReconnectAttempts | ErrAutoReconnectDisabled

record Event =
  ev_Opcode :: opcode
  ev_Frame :: "ResponseFrame option"
  ev_Err :: "ipc_error option"

definition eventBufferSize :: nat where
  "eventBufferSize = 64"

record ready_user =
  GlobalName :: string
  Username :: string

record ipc =
  ipc_paths :: "string list"
  ipcConn :: "nat option"
  ipc_user :: string
  ipc_state :: IPC_State
  ipc_events :: "nat option"
  has_healthCheck :: bool
  socks :: "nat set"
  next_sock :: nat
  chans :: "nat \<rightharpoonup> Event chan"
  next_chan :: nat

definition New_ipc :: "string list \<Rightarrow> ipc" where
  "New_ipc ps =
     \<lparr>ipc_paths = ps, ipcConn = None, ipc_user = [], ipc_state = IPC_Disconnected, ipc_events = None,
      has_healthCheck = False, socks = {}, next_sock = 0, chans = Map.empty, next_chan = 0\<rparr>"

definition setState :: "IPC_State \<Rightarrow> ipc \<Rightarrow> ipc" where
  "setState st c = c\<lparr>ipc_state := st\<rparr>"

definition displayName :: "ready_user option \<Rightarrow> string" where
  "displayName ready =
     (case ready of
        None \<Rightarrow> []
      | Some u \<Rightarrow> if GlobalName u \<noteq> [] then GlobalName u
                  else if Username u \<noteq> [] then Username u else [])"

section \<open>Connecting\<close>

text \<open>What happens at one path: no connection, a connection that fails the handshake, or a session.\<close>

datatype path_result = Dial_failed | Login_failed | Ready "ready_user option"

definition start_session :: "ready_user option \<Rightarrow> ipc \<Rightarrow> ipc" where
  "start_session ready c =
     c\<lparr>ipcConn := Some (next_sock c), socks := insert (next_sock c) (socks c),
       next_sock := Suc (next_sock c), ipc_user := displayName ready,
       ipc_events := Some (next_chan c), chans := (chans c)(next_chan c \<mapsto> make_chan eventBufferSize),
       next_chan := Suc (next_chan c)\<rparr>"

text \<open>The loop over the paths; a connection that fails the handshake is closed again.\<close>

fun try_paths :: "(string \<Rightarrow> path_result) \<Rightarrow> string list \<Rightarrow> ipc \<Rightarrow> bool \<times> ipc" where
  "try_paths env [] c = (False, setState IPC_Disconnected c)"
| "try_paths env (p # ps) c =
     (case env p of
        Dial_failed \<Rightarrow> try_paths env ps c
      | Login_failed \<Rightarrow> try_paths env ps (c\<lparr>next_sock := Suc (next_sock c)\<rparr>)
      | Ready r \<Rightarrow> (True, setState IPC_Connected (start_session r c)))"

definition Connect :: "(string \<Rightarrow> path_result) \<Rightarrow> ipc \<Rightarrow> bool \<times> ipc" where
  "Connect env c = try_paths env (ipc_paths c) (setState IPC_Connecting c)"

text \<open>\<open>Close\<close> closes the connection object but keeps the reference to it.\<close>

definition Close :: "ipc \<Rightarrow> ipc" where
  "Close c =
     (case ipcConn c of
        None \<Rightarrow> c
      | Some n \<Rightarrow> c\<lparr>ipc_state := IPC_Disconnected, socks := socks c - {n}\<rparr>)"

text \<open>\<open>SendRaw\<close>; \<open>wr\<close> says whether the library's write succeeds.\<close>

definition SendRaw :: "bool \<Rightarrow> ipc \<Rightarrow> ipc_error option" where
  "SendRaw wr c = (if ipcConn c = None then Some Not_connected else if wr then None else Some Read_error)"

section \<open>Reading frames\<close>

datatype read_result = Read_failed opcode | Read_ok opcode string

text \<open>
  What the body of the loop in \<open>Run\<close> does with one read: go on (having emitted the listed event, if
  any, or told the health check of a pong), block in \<open>emitTerminalEvent\<close> with an event and then
  return, or return at once.
\<close>

datatype run_next =
    Run_emit Event | Run_pong | Run_end Event "ipc_error option" | Run_return ipc_error

definition Run_read ::
  "(string \<Rightarrow> ResponseFrame option) \<Rightarrow> bool \<Rightarrow> read_result \<Rightarrow> run_next" where
  "Run_read parseFrame ctx_err r =
     (case r of
        Read_failed op \<Rightarrow>
          if ctx_err then Run_return Ctx_error
          else Run_end \<lparr>ev_Opcode = op, ev_Frame = None, ev_Err = Some Read_error\<rparr> (Some Read_error)
      | Read_ok op data \<Rightarrow>
          if op = OpClose then
            Run_end \<lparr>ev_Opcode = op, ev_Frame = None, ev_Err = Some Closed_by_Discord\<rparr> None
          else if op = OpPong then Run_pong
          else if op = OpFrame then
            (case parseFrame data of
               None \<Rightarrow> Run_emit \<lparr>ev_Opcode = op, ev_Frame = None, ev_Err = Some Frame_error\<rparr>
             | Some f \<Rightarrow> Run_emit \<lparr>ev_Opcode = op, ev_Frame = Some f, ev_Err = None\<rparr>)
          else Run_emit \<lparr>ev_Opcode = op, ev_Frame = None, ev_Err = None\<rparr>)"

text \<open>\<open>emitEvent\<close> drops the event when the channel is full; \<open>None\<close> is the panic of a closed channel.\<close>

definition emitEvent :: "nat \<Rightarrow> Event \<Rightarrow> ipc \<Rightarrow> ipc option" where
  "emitEvent ch ev c =
     (case chans c ch of
        None \<Rightarrow> None
      | Some q \<Rightarrow> map_option (\<lambda>q'. c\<lparr>chans := (chans c)(ch \<mapsto> q')\<rparr>) (send_or_drop q ev))"

text \<open>The deferred function of \<open>Run\<close>: first the client forgets the channel, then it is closed.\<close>

definition forget_events :: "nat \<Rightarrow> ipc \<Rightarrow> ipc" where
  "forget_events ch c = (if ipc_events c = Some ch then c\<lparr>ipc_events := None\<rparr> else c)"

definition close_events :: "nat \<Rightarrow> ipc \<Rightarrow> ipc option" where
  "close_events ch c =
     map_option (\<lambda>q. c\<lparr>chans := (chans c)(ch \<mapsto> q)\<rparr>) (Option.bind (chans c ch) closeChan)"

section \<open>Reconnecting\<close>

definition maxReconnectAttempts :: nat where
  "maxReconnectAttempts = 50"

record ReconnectManager =
  baseInterval :: int64
  maxInterval :: int64
  autoReconnect :: bool
  attempt :: nat

definition NextInterval :: "rat \<Rightarrow> ReconnectManager \<Rightarrow> int" where
  "NextInterval r rm = jittered r (cappedDouble (baseInterval rm) (maxInterval rm) (attempt rm))"

definition Reset :: "ReconnectManager \<Rightarrow> ReconnectManager" where
  "Reset rm = rm\<lparr>attempt := 0\<rparr>"

text \<open>The two halves of a turn of the loop in \<open>Reconnect\<close>: before the wait, and after it.\<close>

definition Reconnect_before :: "ReconnectManager \<Rightarrow> ipc \<Rightarrow> ipc_error + ipc" where
  "Reconnect_before rm c =
     (if attempt rm \<ge> maxReconnectAttempts then Inl ErrMaxReconnectAttempts
      else Inr (setState IPC_Reconnecting c))"

definition Reconnect_after ::
  "(string \<Rightarrow> path_result) \<Rightarrow> ReconnectManager \<Rightarrow> ipc \<Rightarrow> bool \<times> ReconnectManager \<times> ipc" where
  "Reconnect_after env rm c =
     (case Connect env c of
        (False, c') \<Rightarrow> (False, rm\<lparr>attempt := Suc (attempt rm)\<rparr>, c')
      | (True, c') \<Rightarrow> (True, Reset rm, c'))"

text \<open>How a wait ends: the timer, a cancelled context, or a stopped manager.\<close>

datatype wait_end = Timer | Ctx_done | Stopped

text \<open>
  \<open>Reconnect\<close> against an environment that says, for each attempt number, how the wait ends and what
  every path then does; the result carries the attempt numbers waited for.
\<close>

function Reconnect_loop ::
  "(nat \<Rightarrow> wait_end) \<Rightarrow> (nat \<Rightarrow> string \<Rightarrow> path_result) \<Rightarrow> ReconnectManager \<Rightarrow> ipc
    \<Rightarrow> ipc_error option \<times> nat list \<times> ReconnectManager \<times> ipc" where
  "Reconnect_loop waits env rm c =
     (case Reconnect_before rm c of
        Inl e \<Rightarrow> (Some e, [], rm, c)
      | Inr c1 \<Rightarrow>
          (case waits (attempt rm) of
             Ctx_done \<Rightarrow> (Some Ctx_error, [attempt rm], rm, c1)
           | Stopped \<Rightarrow> (None, [attempt rm], rm, c1)
           | Timer \<Rightarrow>
               (case Reconnect_after (env (attempt rm)) rm c1 of
                  (ok, rm2, c2) \<Rightarrow>
                    if ok then (None, [attempt rm], rm2, c2)
                    else (case Reconnect_loop waits env rm2 c2 of
                            (e, ns, r) \<Rightarrow> (e, attempt rm # ns, r)))))"
  by pat_completeness auto

termination
  by (relation "measure (\<lambda>(waits, env, rm, c). maxReconnectAttempts - attempt rm)")
    (auto simp: Reconnect_before_def Reconnect_after_def split: if_splits prod.splits bool.splits)

declare Reconnect_loop.simps [simp del]

definition Reconnect ::
  "(nat \<Rightarrow> wait_end) \<Rightarrow> (nat \<Rightarrow> string \<Rightarrow> path_result) \<Rightarrow> ReconnectManager \<Rightarrow> ipc
    \<Rightarrow> ipc_error option \<times> nat list \<times> ReconnectManager \<times> ipc" where
  "Reconnect waits env rm c =
     (if \<not> autoReconnect rm then (Some ErrAutoReconnectDisabled, [], rm, c)
      else Reconnect_loop waits env rm c)"

section \<open>What connecting and reconnecting do\<close>

definition is_ready :: "path_result \<Rightarrow> bool" where
  "is_ready r \<longleftrightarrow> (\<exists>u. r = Ready u)"

lemma try_paths_frame:
  assumes "try_paths env ps c = (b, c')"
  shows "ipc_paths c' = ipc_paths c" and "b \<longleftrightarrow> (\<exists>p\<in>set ps. is_ready (env p))"
    and "ipc_state c' = (if b then IPC_Connected else IPC_Disconnected)"
    and "\<not> b \<Longrightarrow> ipcConn c' = ipcConn c \<and> ipc_events c' = ipc_events c \<and> socks c' = socks c \<and>
      chans c' = chans c \<and> next_chan c' = next_chan c \<and> ipc_user c' = ipc_user c"
    and "b \<Longrightarrow> \<exists>n\<ge>next_sock c. ipcConn c' = Some n \<and> socks c' = insert n (socks c) \<and>
      next_sock c' = Suc n \<and> ipc_events c' = Some (next_chan c) \<and> next_chan c' = Suc (next_chan c) \<and>
      chans c' = (chans c)(next_chan c \<mapsto> make_chan eventBufferSize)"
    and "next_sock c \<le> next_sock c'" and "has_healthCheck c' = has_healthCheck c"
proof -
  have "ipc_paths c' = ipc_paths c \<and> (b \<longleftrightarrow> (\<exists>p\<in>set ps. is_ready (env p))) \<and>
    ipc_state c' = (if b then IPC_Connected else IPC_Disconnected) \<and>
    (\<not> b \<longrightarrow> ipcConn c' = ipcConn c \<and> ipc_events c' = ipc_events c \<and> socks c' = socks c \<and>
      chans c' = chans c \<and> next_chan c' = next_chan c \<and> ipc_user c' = ipc_user c) \<and>
    (b \<longrightarrow> (\<exists>n\<ge>next_sock c. ipcConn c' = Some n \<and> socks c' = insert n (socks c) \<and>
      next_sock c' = Suc n \<and> ipc_events c' = Some (next_chan c) \<and> next_chan c' = Suc (next_chan c) \<and>
      chans c' = (chans c)(next_chan c \<mapsto> make_chan eventBufferSize))) \<and>
    next_sock c \<le> next_sock c' \<and> has_healthCheck c' = has_healthCheck c"
    using assms
  proof (induction ps arbitrary: c)
    case Nil
    then show ?case by (auto simp: setState_def)
  next
    case (Cons p ps)
    show ?case
    proof (cases "env p")
      case Dial_failed
      with Cons.prems Cons.IH [of c] show ?thesis by (simp add: is_ready_def)
    next
      case Login_failed
      with Cons.prems Cons.IH [of "c\<lparr>next_sock := Suc (next_sock c)\<rparr>"] show ?thesis
        by (auto simp: is_ready_def)
    next
      case (Ready u)
      with Cons.prems show ?thesis
        by (auto simp: is_ready_def setState_def start_session_def fun_upd_def)
    qed
  qed
  then show "ipc_paths c' = ipc_paths c" and "b \<longleftrightarrow> (\<exists>p\<in>set ps. is_ready (env p))"
    and "ipc_state c' = (if b then IPC_Connected else IPC_Disconnected)"
    and "\<not> b \<Longrightarrow> ipcConn c' = ipcConn c \<and> ipc_events c' = ipc_events c \<and> socks c' = socks c \<and>
      chans c' = chans c \<and> next_chan c' = next_chan c \<and> ipc_user c' = ipc_user c"
    and "b \<Longrightarrow> \<exists>n\<ge>next_sock c. ipcConn c' = Some n \<and> socks c' = insert n (socks c) \<and>
      next_sock c' = Suc n \<and> ipc_events c' = Some (next_chan c) \<and> next_chan c' = Suc (next_chan c) \<and>
      chans c' = (chans c)(next_chan c \<mapsto> make_chan eventBufferSize)"
    and "next_sock c \<le> next_sock c'" and "has_healthCheck c' = has_healthCheck c"
    by blast+
qed

lemma setState_simps [simp]:
  "ipc_paths (setState st c) = ipc_paths c" "ipcConn (setState st c) = ipcConn c"
  "ipc_events (setState st c) = ipc_events c" "socks (setState st c) = socks c"
  "chans (setState st c) = chans c" "next_chan (setState st c) = next_chan c"
  "next_sock (setState st c) = next_sock c" "ipc_state (setState st c) = st"
  "has_healthCheck (setState st c) = has_healthCheck c" "ipc_user (setState st c) = ipc_user c"
  by (simp_all add: setState_def)

lemmas Connect_frame =
  try_paths_frame [where ps = "ipc_paths c" and c = "setState IPC_Connecting c" for c,
    folded Connect_def, simplified]

text \<open>The first path that answers is the one connected to.\<close>

lemma Connect_first:
  assumes "ipc_paths c = ps @ p # qs" and "\<forall>q\<in>set ps. \<not> is_ready (env q)" and "env p = Ready u"
  shows "fst (Connect env c) \<and> ipc_user (snd (Connect env c)) = displayName u"
proof -
  have "fst (try_paths env (ps @ p # qs) d) \<and> ipc_user (snd (try_paths env (ps @ p # qs) d)) = displayName u"
    if "\<forall>q\<in>set ps. \<not> is_ready (env q)" for d
    using that
  proof (induction ps arbitrary: d)
    case Nil
    with assms(3) show ?case by (simp add: start_session_def)
  next
    case (Cons q ps)
    then show ?case by (cases "env q") (auto simp: is_ready_def)
  qed
  from this [OF assms(2)] assms(1) show ?thesis by (simp add: Connect_def)
qed

lemma Reconnect_after_simps:
  assumes "\<exists>p\<in>set (ipc_paths c). is_ready (env p)"
  shows "\<exists>c'. Reconnect_after env rm c = (True, Reset rm, c') \<and> ipc_paths c' = ipc_paths c \<and>
    ipc_state c' = IPC_Connected \<and> ipc_events c' \<noteq> None"
proof -
  obtain b c' where cc: "Connect env c = (b, c')" by force
  with Connect_frame(2) [OF cc] assms have b by simp
  with cc Connect_frame(1,3,5) [OF cc] show ?thesis by (auto simp: Reconnect_after_def)
qed

lemma Reconnect_after_fails:
  assumes "\<forall>p\<in>set (ipc_paths c). \<not> is_ready (env p)"
  shows "\<exists>c'. Reconnect_after env rm c = (False, rm\<lparr>attempt := Suc (attempt rm)\<rparr>, c') \<and>
    ipc_paths c' = ipc_paths c \<and> ipc_state c' = IPC_Disconnected"
proof -
  obtain b c' where cc: "Connect env c = (b, c')" by force
  with Connect_frame(2) [OF cc] assms have "\<not> b" by simp
  with cc Connect_frame(1,3) [OF cc] show ?thesis by (auto simp: Reconnect_after_def)
qed

text \<open>An attempt is fruitless if the wait ends by the timer and no path answers.\<close>

definition fruitless ::
  "(nat \<Rightarrow> wait_end) \<Rightarrow> (nat \<Rightarrow> string \<Rightarrow> path_result) \<Rightarrow> string list \<Rightarrow> nat \<Rightarrow> bool" where
  "fruitless waits env ps k \<longleftrightarrow> waits k = Timer \<and> (\<forall>p\<in>set ps. \<not> is_ready (env k p))"

lemma Reconnect_loop_fruitless:
  assumes "attempt rm < 50" and "fruitless waits env (ipc_paths c) (attempt rm)"
  shows "\<exists>c'. ipc_paths c' = ipc_paths c \<and> ipc_state c' = IPC_Disconnected \<and>
    Reconnect_loop waits env rm c =
      (case Reconnect_loop waits env (rm\<lparr>attempt := Suc (attempt rm)\<rparr>) c' of
         (e, ns, r) \<Rightarrow> (e, attempt rm # ns, r))"
proof -
  have "\<forall>p\<in>set (ipc_paths (setState IPC_Reconnecting c)). \<not> is_ready (env (attempt rm) p)"
    using assms(2) by (simp add: fruitless_def)
  from Reconnect_after_fails [OF this, of rm] obtain c' where
    "Reconnect_after (env (attempt rm)) rm (setState IPC_Reconnecting c) =
      (False, rm\<lparr>attempt := Suc (attempt rm)\<rparr>, c')"
    "ipc_paths c' = ipc_paths c" "ipc_state c' = IPC_Disconnected" by auto
  with Reconnect_loop.simps [of waits env rm c] assms show ?thesis
    by (intro exI [of _ c'])
      (simp add: Reconnect_before_def maxReconnectAttempts_def fruitless_def)
qed

lemma Reconnect_loop_skip:
  assumes "\<forall>j. attempt rm \<le> j \<and> j < k \<longrightarrow> fruitless waits env (ipc_paths c) j"
    and "attempt rm \<le> k" and "k \<le> 50"
  shows "\<exists>c'. ipc_paths c' = ipc_paths c \<and>
    Reconnect_loop waits env rm c =
      (case Reconnect_loop waits env (rm\<lparr>attempt := k\<rparr>) c' of
         (e, ns, r) \<Rightarrow> (e, [attempt rm..<k] @ ns, r))"
  using assms
proof (induction "k - attempt rm" arbitrary: rm c)
  case 0
  then have "attempt rm = k" by simp
  then have "rm\<lparr>attempt := k\<rparr> = rm" by simp
  with \<open>attempt rm = k\<close> show ?case by (intro exI [of _ c]) (auto split: prod.split)
next
  case (Suc d)
  let ?rm = "rm\<lparr>attempt := Suc (attempt rm)\<rparr>"
  from Suc have lt: "attempt rm < k" by simp
  with Suc.prems have "attempt rm < 50" "fruitless waits env (ipc_paths c) (attempt rm)" by auto
  from Reconnect_loop_fruitless [OF this] obtain c1 where c1: "ipc_paths c1 = ipc_paths c"
    "Reconnect_loop waits env rm c =
      (case Reconnect_loop waits env ?rm c1 of (e, ns, r) \<Rightarrow> (e, attempt rm # ns, r))" by blast
  from Suc lt have "d = k - attempt ?rm" by simp
  from Suc.hyps(1) [OF this, of c1] Suc.prems c1(1) lt obtain c2 where "ipc_paths c2 = ipc_paths c1"
    "Reconnect_loop waits env ?rm c1 =
      (case Reconnect_loop waits env (?rm\<lparr>attempt := k\<rparr>) c2 of
         (e, ns, r) \<Rightarrow> (e, [attempt ?rm..<k] @ ns, r))" by auto
  with c1 lt show ?case
    by (intro exI [of _ c2]) (auto simp: upt_conv_Cons split: prod.split)
qed

text \<open>The three ways the loop can end, each at the first attempt that is not fruitless.\<close>

lemma Reconnect_loop_gives_up:
  assumes "\<forall>j. attempt rm \<le> j \<and> j < 50 \<longrightarrow> fruitless waits env (ipc_paths c) j" and "attempt rm \<le> 50"
  shows "\<exists>c'. Reconnect_loop waits env rm c =
    (Some ErrMaxReconnectAttempts, [attempt rm..<50], rm\<lparr>attempt := 50\<rparr>, c')"
proof -
  from Reconnect_loop_skip [OF assms] obtain c' where
    "Reconnect_loop waits env rm c =
      (case Reconnect_loop waits env (rm\<lparr>attempt := 50\<rparr>) c' of
         (e, ns, r) \<Rightarrow> (e, [attempt rm..<50] @ ns, r))" by auto
  with Reconnect_loop.simps [of waits env "rm\<lparr>attempt := 50\<rparr>" c'] show ?thesis
    by (simp add: Reconnect_before_def maxReconnectAttempts_def)
qed

lemma Reconnect_loop_connects:
  assumes "\<forall>j. attempt rm \<le> j \<and> j < k \<longrightarrow> fruitless waits env (ipc_paths c) j"
    and "attempt rm \<le> k" and "k < 50" and "waits k = Timer" and "\<exists>p\<in>set (ipc_paths c). is_ready (env k p)"
  shows "\<exists>c'. Reconnect_loop waits env rm c = (None, [attempt rm..<Suc k], Reset rm, c') \<and>
    ipc_state c' = IPC_Connected \<and> ipc_events c' \<noteq> None"
proof -
  from Reconnect_loop_skip [OF assms(1,2)] assms(3) obtain c1 where c1: "ipc_paths c1 = ipc_paths c"
    "Reconnect_loop waits env rm c =
      (case Reconnect_loop waits env (rm\<lparr>attempt := k\<rparr>) c1 of
         (e, ns, r) \<Rightarrow> (e, [attempt rm..<k] @ ns, r))" by auto
  have "\<exists>p\<in>set (ipc_paths (setState IPC_Reconnecting c1)). is_ready (env k p)"
    using assms(5) c1(1) by simp
  from Reconnect_after_simps [OF this, of "rm\<lparr>attempt := k\<rparr>"] obtain c2 where
    "Reconnect_after (env k) (rm\<lparr>attempt := k\<rparr>) (setState IPC_Reconnecting c1) = (True, Reset rm, c2)"
    "ipc_state c2 = IPC_Connected" "ipc_events c2 \<noteq> None" by (auto simp: Reset_def)
  with Reconnect_loop.simps [of waits env "rm\<lparr>attempt := k\<rparr>" c1] c1(2) assms(2-4) show ?thesis
    by (simp add: Reconnect_before_def maxReconnectAttempts_def)
qed

lemma Reconnect_loop_interrupted:
  assumes "\<forall>j. attempt rm \<le> j \<and> j < k \<longrightarrow> fruitless waits env (ipc_paths c) j"
    and "attempt rm \<le> k" and "k < 50" and "waits k \<noteq> Timer"
  shows "\<exists>c'. Reconnect_loop waits env rm c =
    (if waits k = Ctx_done then Some Ctx_error else None, [attempt rm..<Suc k], rm\<lparr>attempt := k\<rparr>, c')"
proof -
  from Reconnect_loop_skip [OF assms(1,2)] assms(3) obtain c1 where
    "Reconnect_loop waits env rm c =
      (case Reconnect_loop waits env (rm\<lparr>attempt := k\<rparr>) c1 of
         (e, ns, r) \<Rightarrow> (e, [attempt rm..<k] @ ns, r))" by auto
  with Reconnect_loop.simps [of waits env "rm\<lparr>attempt := k\<rparr>" c1] assms(2-4) show ?thesis
    by (cases "waits k") (simp_all add: Reconnect_before_def maxReconnectAttempts_def)
qed

end
