(* ===== verification/Messages.thy ===== *)
theory Messages
  imports Json Activity
begin

text \<open>
  The WebSocket wire protocol, \<open>internal/server/messages.go\<close>, with the JSON form of the presence
  payload of \<open>pkg/types/activity.go\<close>: encoding, decoding and the validation done by the two
  \<open>UnmarshalJSON\<close> methods.
\<close>

section \<open>The presence payload as JSON\<close>

definition json_of_timestamps :: "Timestamps \<Rightarrow> json" where
  "json_of_timestamps t = J_obj (member_if (ts_Start t \<noteq> 0) ''start'' (encode_int64 (ts_Start t)) @
     member_if (ts_End t \<noteq> 0) ''end'' (encode_int64 (ts_End t)))"

definition json_of_assets :: "Assets \<Rightarrow> json" where
  "json_of_assets s =
     J_obj (member_if (LargeImage s \<noteq> []) ''large_image'' (J_str (LargeImage s)) @
       member_if (LargeText s \<noteq> []) ''large_text'' (J_str (LargeText s)) @
       member_if (SmallImage s \<noteq> []) ''small_image'' (J_str (SmallImage s)) @
       member_if (SmallText s \<noteq> []) ''small_text'' (J_str (SmallText s)))"

text \<open>\<open>omitempty\<close> never omits a non-empty array, so \<open>size\<close> is always written.\<close>

definition json_of_party :: "Party \<Rightarrow> json" where
  "json_of_party p = J_obj (member_if (party_ID p \<noteq> []) ''id'' (J_str (party_ID p)) @
     [(''size'', J_arr [encode_int64 (fst (party_Size p)), encode_int64 (snd (party_Size p))])])"

definition json_of_button :: "Button \<Rightarrow> json" where
  "json_of_button b = J_obj [(''label'', J_str (Label b)), (''url'', J_str (URL b))]"

text \<open>\<open>Activity.MarshalJSON\<close> turns an empty button slice into nil in the receiver before encoding.\<close>

definition MarshalJSON_Activity :: "Activity \<Rightarrow> json \<times> Activity" where
  "MarshalJSON_Activity a0 =
     (let a = (if a_Buttons a0 = Some [] then a0\<lparr>a_Buttons := None\<rparr> else a0)
      in (J_obj (member_if (a_Details a \<noteq> []) ''details'' (J_str (a_Details a)) @
            member_if (a_State a \<noteq> []) ''state'' (J_str (a_State a)) @
            (case a_Timestamps a of None \<Rightarrow> [] | Some t \<Rightarrow> [(''timestamps'', json_of_timestamps t)]) @
            (case a_Assets a of None \<Rightarrow> [] | Some s \<Rightarrow> [(''assets'', json_of_assets s)]) @
            (case a_Party a of None \<Rightarrow> [] | Some p \<Rightarrow> [(''party'', json_of_party p)]) @
            member_if (button_list (a_Buttons a) \<noteq> []) ''buttons''
              (J_arr (map json_of_button (button_list (a_Buttons a)))) @
            [(''type'', encode_int64 (a_Type a))]), a))"

definition json_of_activity :: "Activity \<Rightarrow> json" where
  "json_of_activity a = fst (MarshalJSON_Activity a)"

definition json_of_snapshot :: "PresenceSnapshot \<Rightarrow> json" where
  "json_of_snapshot s = J_obj [(''source'', J_str (Source s)),
     (''activity'', case snap_Activity s of None \<Rightarrow> J_null | Some a \<Rightarrow> json_of_activity a)]"

definition timestamps_of_json :: "json \<Rightarrow> Timestamps \<Rightarrow> Timestamps option" where
  "timestamps_of_json = decode_struct [''start'', ''end''] (\<lambda>n v t.
     if n = ''start'' then map_option (\<lambda>x. t\<lparr>ts_Start := x\<rparr>) (decode_int64 v (ts_Start t))
     else map_option (\<lambda>x. t\<lparr>ts_End := x\<rparr>) (decode_int64 v (ts_End t)))"

definition assets_of_json :: "json \<Rightarrow> Assets \<Rightarrow> Assets option" where
  "assets_of_json = decode_struct [''large_image'', ''large_text'', ''small_image'', ''small_text''] (\<lambda>n v s.
     if n = ''large_image'' then map_option (\<lambda>x. s\<lparr>LargeImage := x\<rparr>) (decode_string v (LargeImage s))
     else if n = ''large_text'' then map_option (\<lambda>x. s\<lparr>LargeText := x\<rparr>) (decode_string v (LargeText s))
     else if n = ''small_image'' then map_option (\<lambda>x. s\<lparr>SmallImage := x\<rparr>) (decode_string v (SmallImage s))
     else map_option (\<lambda>x. s\<lparr>SmallText := x\<rparr>) (decode_string v (SmallText s)))"

definition party_of_json :: "json \<Rightarrow> Party \<Rightarrow> Party option" where
  "party_of_json = decode_struct [''id'', ''size''] (\<lambda>n v p.
     if n = ''id'' then map_option (\<lambda>x. p\<lparr>party_ID := x\<rparr>) (decode_string v (party_ID p))
     else map_option (\<lambda>x. p\<lparr>party_Size := x\<rparr>) (decode_pair v (party_Size p)))"

definition button_of_json :: "json \<Rightarrow> Button \<Rightarrow> Button option" where
  "button_of_json = decode_struct [''label'', ''url''] (\<lambda>n v b.
     if n = ''label'' then map_option (\<lambda>x. b\<lparr>Label := x\<rparr>) (decode_string v (Label b))
     else map_option (\<lambda>x. b\<lparr>URL := x\<rparr>) (decode_string v (URL b)))"

definition activity_names :: "string list" where
  "activity_names = [''details'', ''state'', ''timestamps'', ''assets'', ''party'', ''buttons'', ''type'']"

definition activity_member :: "string \<Rightarrow> json \<Rightarrow> Activity \<Rightarrow> Activity option" where
  "activity_member n v a =
     (if n = ''details'' then map_option (\<lambda>x. a\<lparr>a_Details := x\<rparr>) (decode_string v (a_Details a))
      else if n = ''state'' then map_option (\<lambda>x. a\<lparr>a_State := x\<rparr>) (decode_string v (a_State a))
      else if n = ''timestamps'' then
        map_option (\<lambda>x. a\<lparr>a_Timestamps := x\<rparr>)
          (decode_pointer timestamps_of_json \<lparr>ts_Start = 0, ts_End = 0\<rparr> v (a_Timestamps a))
      else if n = ''assets'' then
        map_option (\<lambda>x. a\<lparr>a_Assets := x\<rparr>)
          (decode_pointer assets_of_json
            \<lparr>LargeImage = [], LargeText = [], SmallImage = [], SmallText = []\<rparr> v (a_Assets a))
      else if n = ''party'' then
        map_option (\<lambda>x. a\<lparr>a_Party := x\<rparr>)
          (decode_pointer party_of_json \<lparr>party_ID = [], party_Size = (0, 0)\<rparr> v (a_Party a))
      else if n = ''buttons'' then
        map_option (\<lambda>x. a\<lparr>a_Buttons := x\<rparr>) (decode_slice button_of_json \<lparr>Label = [], URL = []\<rparr> v)
      else map_option (\<lambda>x. a\<lparr>a_Type := x\<rparr>) (decode_int64 v (a_Type a)))"

definition activity_of_json :: "json \<Rightarrow> Activity \<Rightarrow> Activity option" where
  "activity_of_json = decode_struct activity_names activity_member"

definition snapshot_of_json :: "json \<Rightarrow> PresenceSnapshot \<Rightarrow> PresenceSnapshot option" where
  "snapshot_of_json = decode_struct [''source'', ''activity''] (\<lambda>n v s.
     if n = ''source'' then map_option (\<lambda>x. s\<lparr>Source := x\<rparr>) (decode_string v (Source s))
     else map_option (\<lambda>x. s\<lparr>snap_Activity := x\<rparr>)
       (decode_pointer activity_of_json zero_activity v (snap_Activity s)))"

definition zero_snapshot :: PresenceSnapshot where
  "zero_snapshot = \<lparr>Source = [], snap_Activity = None\<rparr>"

section \<open>Messages\<close>

definition MsgTypePresence :: string where "MsgTypePresence = ''presence''"
definition MsgTypeState :: string where "MsgTypeState = ''state''"
definition MsgTypeCurrent :: string where "MsgTypeCurrent = ''current''"
definition MsgTypeSubscribe :: string where "MsgTypeSubscribe = ''subscribe''"
definition MsgTypeGetCurrent :: string where "MsgTypeGetCurrent = ''get_current''"
definition MsgTypeError :: string where "MsgTypeError = ''error''"

type_synonym ConnectionState = string

definition StateConnected :: ConnectionState where "StateConnected = ''connected''"
definition StateDisconnected :: ConnectionState where "StateDisconnected = ''disconnected''"
definition StateReconnecting :: ConnectionState where "StateReconnecting = ''reconnecting''"

lemmas msg_type_defs = MsgTypePresence_def MsgTypeState_def MsgTypeCurrent_def
  MsgTypeSubscribe_def MsgTypeGetCurrent_def MsgTypeError_def

lemmas conn_state_defs = StateConnected_def StateDisconnected_def StateReconnecting_def

record ServerMessage =
  sm_Type :: string
  Payload :: "json option"
  Status :: ConnectionState
  sm_ClientID :: string

record ClientMessage =
  cm_Type :: string
  SubscribeEvents :: "string list option"

datatype message_error =
    Invalid_json
  | Requires_payload string
  | Requires_status
  | Unknown_state string
  | Type_required
  | Unknown_type string
  | Requires_events
  | Unknown_event string

definition zero_server_message :: ServerMessage where
  "zero_server_message = \<lparr>sm_Type = [], Payload = None, Status = [], sm_ClientID = []\<rparr>"

definition zero_client_message :: ClientMessage where
  "zero_client_message = \<lparr>cm_Type = [], SubscribeEvents = None\<rparr>"

definition events_of :: "ClientMessage \<Rightarrow> string list" where
  "events_of m = (case SubscribeEvents m of None \<Rightarrow> [] | Some es \<Rightarrow> es)"

definition json_of_server_message :: "ServerMessage \<Rightarrow> json" where
  "json_of_server_message m =
     J_obj ([(''type'', J_str (sm_Type m))] @
       (case Payload m of None \<Rightarrow> [] | Some p \<Rightarrow> [(''payload'', p)]) @
       member_if (Status m \<noteq> []) ''status'' (J_str (Status m)) @
       member_if (sm_ClientID m \<noteq> []) ''client_id'' (J_str (sm_ClientID m)))"

definition json_of_client_message :: "ClientMessage \<Rightarrow> json" where
  "json_of_client_message m =
     J_obj ([(''type'', J_str (cm_Type m))] @
       member_if (events_of m \<noteq> []) ''events'' (J_arr (map J_str (events_of m))))"

definition server_message_names :: "string list" where
  "server_message_names = [''type'', ''payload'', ''status'', ''client_id'']"

definition server_message_member :: "string \<Rightarrow> json \<Rightarrow> ServerMessage \<Rightarrow> ServerMessage option" where
  "server_message_member n v m =
     (if n = ''type'' then map_option (\<lambda>x. m\<lparr>sm_Type := x\<rparr>) (decode_string v (sm_Type m))
      else if n = ''payload'' then Some (m\<lparr>Payload := Some v\<rparr>)
      else if n = ''status'' then map_option (\<lambda>x. m\<lparr>Status := x\<rparr>) (decode_string v (Status m))
      else map_option (\<lambda>x. m\<lparr>sm_ClientID := x\<rparr>) (decode_string v (sm_ClientID m)))"

definition client_message_member :: "string \<Rightarrow> json \<Rightarrow> ClientMessage \<Rightarrow> ClientMessage option" where
  "client_message_member n v m =
     (if n = ''type'' then map_option (\<lambda>x. m\<lparr>cm_Type := x\<rparr>) (decode_string v (cm_Type m))
      else map_option (\<lambda>x. m\<lparr>SubscribeEvents := x\<rparr>) (decode_slice decode_string [] v))"

definition UnmarshalJSON_Server :: "json option \<Rightarrow> message_error + ServerMessage" where
  "UnmarshalJSON_Server doc =
     (case Option.bind doc
         (\<lambda>j. decode_struct server_message_names server_message_member j zero_server_message) of
        None \<Rightarrow> Inl Invalid_json
      | Some m \<Rightarrow>
          if sm_Type m \<in> {MsgTypePresence, MsgTypeCurrent, MsgTypeError} then
            (if Payload m = None then Inl (Requires_payload (sm_Type m)) else Inr m)
          else if sm_Type m = MsgTypeState then
            (if Status m = [] then Inl Requires_status
             else if Status m \<in> {StateConnected, StateDisconnected, StateReconnecting} then Inr m
             else Inl (Unknown_state (Status m)))
          else if sm_Type m = [] then Inl Type_required
          else Inl (Unknown_type (sm_Type m)))"

definition UnmarshalJSON_Client :: "json option \<Rightarrow> message_error + ClientMessage" where
  "UnmarshalJSON_Client doc =
     (case Option.bind doc
         (\<lambda>j. decode_struct [''type'', ''events''] client_message_member j zero_client_message) of
        None \<Rightarrow> Inl Invalid_json
      | Some m \<Rightarrow>
          if cm_Type m = MsgTypeSubscribe then
            (if events_of m = [] then Inl Requires_events
             else (case find (\<lambda>e. e \<notin> {MsgTypePresence, MsgTypeState, MsgTypeCurrent}) (events_of m) of
                     Some e \<Rightarrow> Inl (Unknown_event e)
                   | None \<Rightarrow> Inr m))
          else if cm_Type m = MsgTypeGetCurrent then Inr m
          else if cm_Type m = [] then Inl Type_required
          else Inl (Unknown_type (cm_Type m)))"

definition ParseServerMessage :: "json option \<Rightarrow> message_error + ServerMessage" where
  "ParseServerMessage = UnmarshalJSON_Server"

definition ParseClientMessage :: "json option \<Rightarrow> message_error + ClientMessage" where
  "ParseClientMessage = UnmarshalJSON_Client"

section \<open>Constructors\<close>

datatype ErrorCode =
    ErrCodeUnauthorized | ErrCodeInvalidMessage | ErrCodeInternal
  | ErrCodePayloadTooLarge | ErrCodeRateLimited | ErrCodeTooManyConns

fun error_code_string :: "ErrorCode \<Rightarrow> string" where
  "error_code_string ErrCodeUnauthorized = ''AUTH_001''"
| "error_code_string ErrCodeInvalidMessage = ''MSG_001''"
| "error_code_string ErrCodeInternal = ''INT_001''"
| "error_code_string ErrCodePayloadTooLarge = ''REQ_001''"
| "error_code_string ErrCodeRateLimited = ''REQ_002''"
| "error_code_string ErrCodeTooManyConns = ''REQ_003''"

definition NewPresenceMessage :: "PresenceSnapshot \<Rightarrow> ServerMessage" where
  "NewPresenceMessage s =
     zero_server_message\<lparr>sm_Type := MsgTypePresence, Payload := Some (json_of_snapshot s)\<rparr>"

definition NewStateMessage :: "ConnectionState \<Rightarrow> string list \<Rightarrow> ServerMessage" where
  "NewStateMessage st ids =
     (let m = zero_server_message\<lparr>sm_Type := MsgTypeState, Status := st\<rparr>
      in (case ids of [] \<Rightarrow> m | i # _ \<Rightarrow> m\<lparr>sm_ClientID := i\<rparr>))"

definition NewCurrentMessage :: "PresenceSnapshot \<Rightarrow> string list \<Rightarrow> ServerMessage" where
  "NewCurrentMessage s ids =
     (let m = zero_server_message\<lparr>sm_Type := MsgTypeCurrent, Payload := Some (json_of_snapshot s)\<rparr>
      in (case ids of [] \<Rightarrow> m | i # _ \<Rightarrow> m\<lparr>sm_ClientID := i\<rparr>))"

definition NewSubscribeMessage :: "string list \<Rightarrow> message_error + ClientMessage" where
  "NewSubscribeMessage es =
     (if length es = 0 then Inl Requires_events
      else Inr \<lparr>cm_Type = MsgTypeSubscribe, SubscribeEvents = Some es\<rparr>)"

definition NewGetCurrentMessage :: ClientMessage where
  "NewGetCurrentMessage = \<lparr>cm_Type = MsgTypeGetCurrent, SubscribeEvents = None\<rparr>"

definition NewErrorMessage :: "ErrorCode \<Rightarrow> string \<Rightarrow> ServerMessage" where
  "NewErrorMessage code msg =
     zero_server_message\<lparr>sm_Type := MsgTypeError,
       Payload := Some (J_obj [(''code'', J_str (error_code_string code)), (''message'', J_str msg)])\<rparr>"

section \<open>Round trips\<close>

lemma decode_J_obj [simp]: "decode_struct names f (J_obj kvs) s = decode_members names f kvs s"
  by (simp add: decode_struct_def)

lemmas decode_simps = decode_members_append decode_member_if field_of_exact

lemma timestamps_round_trip:
  "timestamps_of_json (json_of_timestamps t) \<lparr>ts_Start = 0, ts_End = 0\<rparr> = Some t"
  by (cases t) (simp add: timestamps_of_json_def json_of_timestamps_def decode_simps)

lemma assets_round_trip: "assets_of_json (json_of_assets s)
    \<lparr>LargeImage = [], LargeText = [], SmallImage = [], SmallText = []\<rparr> = Some s"
  by (cases s) (simp add: assets_of_json_def json_of_assets_def decode_simps)

lemma party_round_trip:
  "party_of_json (json_of_party p) \<lparr>party_ID = [], party_Size = (0, 0)\<rparr> = Some p"
  by (cases p) (simp add: party_of_json_def json_of_party_def decode_simps decode_pair_def)

lemma button_round_trip: "button_of_json (json_of_button b) z = Some b"
  by (cases b; cases z) (simp add: button_of_json_def json_of_button_def decode_simps)

lemma pointer_round_trip:
  "j \<noteq> J_null \<Longrightarrow> f j zero = Some x \<Longrightarrow> decode_pointer f zero j None = Some (Some x)"
  by (cases j) (simp_all add: decode_pointer_def)

lemma part_json_not_null [simp]: "json_of_timestamps t \<noteq> J_null" "json_of_assets s \<noteq> J_null"
  "json_of_party p \<noteq> J_null" "json_of_activity a \<noteq> J_null"
  by (simp_all add: json_of_timestamps_def json_of_assets_def json_of_party_def
      json_of_activity_def MarshalJSON_Activity_def Let_def)

lemma buttons_round_trip: "decode_slice button_of_json z (J_arr (map json_of_button bs)) = Some (Some bs)"
  by (simp add: decode_slice_def decode_elements_map button_round_trip)

lemma member_case: "k \<in> set names \<Longrightarrow>
    decode_members names f (case x of None \<Rightarrow> [] | Some v \<Rightarrow> [(k, g v)]) s =
    (case x of None \<Rightarrow> Some s | Some v \<Rightarrow> f k (g v) s)"
  by (auto simp: field_of_exact split: option.splits)

text \<open>What is left of the round trip: an empty button slice comes back as nil.\<close>

lemma activity_round_trip: "activity_of_json (json_of_activity a) zero_activity =
    Some (a\<lparr>a_Buttons := drop_if (\<lambda>bs. bs = []) (a_Buttons a)\<rparr>)"
proof -
  have names: "''details'' \<in> set activity_names" "''state'' \<in> set activity_names"
    "''timestamps'' \<in> set activity_names" "''assets'' \<in> set activity_names"
    "''party'' \<in> set activity_names" "''buttons'' \<in> set activity_names"
    "''type'' \<in> set activity_names"
    by (simp_all add: activity_names_def)
  show ?thesis
    by (cases a; cases "a_Timestamps a"; cases "a_Assets a"; cases "a_Party a"; cases "a_Buttons a")
      (simp_all add: activity_of_json_def json_of_activity_def MarshalJSON_Activity_def Let_def
        decode_members_append decode_member_if [OF names(1)] decode_member_if [OF names(2)]
        decode_member_if [OF names(6)] field_of_exact [OF names(3)] field_of_exact [OF names(4)]
        field_of_exact [OF names(5)] field_of_exact [OF names(7)] activity_member_def
        pointer_round_trip timestamps_round_trip assets_round_trip party_round_trip
        buttons_round_trip zero_activity_def button_list_def)
qed

lemma activity_round_trip_Equals:
  "\<exists>b. activity_of_json (json_of_activity a) zero_activity = Some b \<and> Equals b a"
  by (simp add: activity_round_trip Equals_norm activity_norm_def)

section \<open>The codec contract\<close>

text \<open>
  What a sender and a receiver rely on: a message the receiver's checks accept is received as sent
  (up to its canonical form), and only such messages are ever received.
\<close>

locale wire_codec =
  fixes encode :: "'m \<Rightarrow> json" and parse :: "json option \<Rightarrow> 'e + 'm"
    and valid :: "'m \<Rightarrow> bool" and canon :: "'m \<Rightarrow> 'm"
  assumes parse_encode: "valid m \<Longrightarrow> parse (Some (encode m)) = Inr (canon m)"
    and parse_valid: "parse doc = Inr m \<Longrightarrow> valid m"
begin

lemma relay: "parse doc = Inr m \<Longrightarrow> parse (Some (encode m)) = Inr (canon m)"
  by (rule parse_encode [OF parse_valid])

lemma encode_inj: "valid m \<Longrightarrow> valid n \<Longrightarrow> encode m = encode n \<Longrightarrow> canon m = canon n"
  using parse_encode by (metis Inr_inject)

end

definition valid_server :: "ServerMessage \<Rightarrow> bool" where
  "valid_server m \<longleftrightarrow>
     sm_Type m \<in> {MsgTypePresence, MsgTypeCurrent, MsgTypeError} \<and> Payload m \<noteq> None \<or>
     sm_Type m = MsgTypeState \<and> Status m \<in> {StateConnected, StateDisconnected, StateReconnecting}"

definition valid_client :: "ClientMessage \<Rightarrow> bool" where
  "valid_client m \<longleftrightarrow>
     cm_Type m = MsgTypeSubscribe \<and> events_of m \<noteq> [] \<and>
       set (events_of m) \<subseteq> {MsgTypePresence, MsgTypeState, MsgTypeCurrent} \<or>
     cm_Type m = MsgTypeGetCurrent"

definition canon_client :: "ClientMessage \<Rightarrow> ClientMessage" where
  "canon_client m = m\<lparr>SubscribeEvents := drop_if (\<lambda>es. es = []) (SubscribeEvents m)\<rparr>"

lemma server_struct_round_trip:
  "decode_struct server_message_names server_message_member (json_of_server_message m)
     zero_server_message = Some m"
proof -
  have names: "''type'' \<in> set server_message_names" "''payload'' \<in> set server_message_names"
    "''status'' \<in> set server_message_names" "''client_id'' \<in> set server_message_names"
    by (simp_all add: server_message_names_def)
  show ?thesis
    by (cases m; cases "Payload m")
      (simp_all add: json_of_server_message_def decode_members_append
        decode_member_if [OF names(3)] decode_member_if [OF names(4)] field_of_exact [OF names(1)]
        field_of_exact [OF names(2)] server_message_member_def zero_server_message_def)
qed

lemma client_struct_round_trip:
  "decode_struct [''type'', ''events''] client_message_member (json_of_client_message m)
     zero_client_message = Some (canon_client m)"
  by (cases m; cases "SubscribeEvents m")
    (auto simp: json_of_client_message_def decode_simps client_message_member_def events_of_def
      zero_client_message_def canon_client_def decode_slice_def
      decode_elements_map [where g = J_str and f = decode_string])

lemma unmarshal_server_accepts:
  "UnmarshalJSON_Server doc = Inr m \<longleftrightarrow>
     Option.bind doc (\<lambda>j. decode_struct server_message_names server_message_member j
       zero_server_message) = Some m \<and> valid_server m"
  by (auto simp: UnmarshalJSON_Server_def valid_server_def msg_type_defs conn_state_defs
      split: option.splits if_splits)

lemma find_outside: "find (\<lambda>e. e \<notin> A) xs = None \<longleftrightarrow> set xs \<subseteq> A"
  by (auto simp: find_None_iff)

lemma unmarshal_client_accepts:
  "UnmarshalJSON_Client doc = Inr m \<longleftrightarrow>
     Option.bind doc (\<lambda>j. decode_struct [''type'', ''events''] client_message_member j
       zero_client_message) = Some m \<and> valid_client m"
proof (cases "Option.bind doc (\<lambda>j. decode_struct [''type'', ''events''] client_message_member j
    zero_client_message)")
  case None
  then show ?thesis by (simp add: UnmarshalJSON_Client_def)
next
  case (Some m0)
  let ?A = "{MsgTypePresence, MsgTypeState, MsgTypeCurrent}"
  have types: "MsgTypeSubscribe \<noteq> MsgTypeGetCurrent" "MsgTypeGetCurrent \<noteq> []"
    by (simp_all add: msg_type_defs)
  show ?thesis
    using Some find_outside [of ?A "events_of m0"] types
    by (cases "find (\<lambda>e. e \<notin> ?A) (events_of m0)")
      (auto simp: UnmarshalJSON_Client_def valid_client_def simp del: find_None_iff)
qed

lemma canon_client_valid: "valid_client m \<Longrightarrow> valid_client (canon_client m)"
  by (cases "SubscribeEvents m") (auto simp: valid_client_def canon_client_def events_of_def)

interpretation server_wire:
  wire_codec json_of_server_message ParseServerMessage valid_server "\<lambda>m. m"
  by unfold_locales
    (simp_all add: ParseServerMessage_def unmarshal_server_accepts server_struct_round_trip)

interpretation client_wire:
  wire_codec json_of_client_message ParseClientMessage valid_client canon_client
  by unfold_locales
    (simp_all add: ParseClientMessage_def unmarshal_client_accepts client_struct_round_trip
      canon_client_valid)

lemma constructors_valid:
  "valid_server (NewPresenceMessage s)" "valid_server (NewCurrentMessage s ids)"
  "valid_server (NewErrorMessage code t)"
  "st \<in> {StateConnected, StateDisconnected, StateReconnecting} \<Longrightarrow> valid_server (NewStateMessage st ids)"
  by (auto simp: valid_server_def NewPresenceMessage_def NewCurrentMessage_def NewErrorMessage_def
      NewStateMessage_def Let_def zero_server_message_def split: list.splits)

lemma snapshot_round_trip:
  "snapshot_of_json (json_of_snapshot s) zero_snapshot =
     Some (s\<lparr>snap_Activity := map_option (\<lambda>a. a\<lparr>a_Buttons := drop_if (\<lambda>bs. bs = []) (a_Buttons a)\<rparr>)
       (snap_Activity s)\<rparr>)"
  by (cases s; cases "snap_Activity s")
    (simp_all add: snapshot_of_json_def json_of_snapshot_def zero_snapshot_def field_of_exact
      pointer_round_trip activity_round_trip, simp add: decode_pointer_def)

text \<open>The server accepts exactly the documented client messages: \<open>subscribe\<close> with a non-empty list of
  known events, and \<open>get_current\<close>; each is received as sent, an empty event list as nil.\<close>

lemma client_messages_accepted:
  "(valid_client m \<longrightarrow> ParseClientMessage (Some (json_of_client_message m)) = Inr (canon_client m)) \<and>
   (ParseClientMessage doc = Inr m' \<longrightarrow>
      cm_Type m' = MsgTypeGetCurrent \<or>
      cm_Type m' = MsgTypeSubscribe \<and> events_of m' \<noteq> [] \<and>
        set (events_of m') \<subseteq> {MsgTypePresence, MsgTypeState, MsgTypeCurrent})"
  using client_wire.parse_encode [of m] client_wire.parse_valid [of doc m']
  by (auto simp: valid_client_def)

end
