(* ===== verification/Ipc_System.thy ===== *)
theory Ipc_System
  imports Ipc_Client Config Messages
begin

text \<open>
  The IPC side of the proxy as it runs: the supervisor \<open>RunWithReconnect\<close> with \<open>Reconnect\<close>
  (\<open>internal/ipc/reconnect.go\<close>), the goroutine that executes \<open>Run\<close> (\<open>internal/ipc/client.go\<close>), the health
  check of the session (\<open>internal/ipc/healthcheck.go\<close>) and the consumer \<open>runIPCEventLoop\<close>
  (\<open>cmd/proxy/main.go\<close>).  Each has a program counter; a step of \<open>istep\<close> is one locked section, channel
  operation or library call of one of them.  \<open>Connect\<close> is one step, so its intermediate state
  \<open>connecting\<close> shows only in the sequential model.  \<open>bcasts\<close> and \<open>updates\<close> record the calls of
  \<open>hub.Broadcast\<close> and \<open>presence.Update\<close>; \<open>emitted\<close> and \<open>consumed\<close> the events put into and taken from
  the event channels.
\<close>

section \<open>The health check\<close>

datatype hc_pc = HC_Idle | HC_Waiting instant | HC_Exited

record HealthCheckManager =
  hc_interval :: int
  hc_timeout :: int
  hc_stop :: bool
  hc_pong :: "unit chan"
  hc_pc :: hc_pc

definition NewHealthCheckManager :: "DiscordConfig \<Rightarrow> HealthCheckManager" where
  "NewHealthCheckManager cfg =
     \<lparr>hc_interval = (if HealthCheckInterval cfg = 0 then 30 * nanos else HealthCheckInterval cfg),
      hc_timeout = (if HealthCheckTimeout cfg = 0 then 10 * nanos else HealthCheckTimeout cfg),
      hc_stop = False, hc_pong = make_chan 0, hc_pc = HC_Exited\<rparr>"

text \<open>\<open>Start\<close> makes the channels and launches \<open>run\<close>; \<open>Stop\<close> closes the stop channel, then waits.\<close>

definition HC_Start :: "HealthCheckManager \<Rightarrow> HealthCheckManager" where
  "HC_Start h = h\<lparr>hc_stop := False, hc_pong := make_chan 1, hc_pc := HC_Idle\<rparr>"

definition HC_Stop :: "HealthCheckManager \<Rightarrow> HealthCheckManager" where
  "HC_Stop h = h\<lparr>hc_stop := True\<rparr>"

definition HandlePong :: "HealthCheckManager \<Rightarrow> HealthCheckManager" where
  "HandlePong h = (case send_or_drop (hc_pong h) () of None \<Rightarrow> h | Some q \<Rightarrow> h\<lparr>hc_pong := q\<rparr>)"

text \<open>\<open>run\<close> returns: on the context, on the stop channel, or after a ping that could not be sent.\<close>

definition HC_return :: "HealthCheckManager \<Rightarrow> HealthCheckManager" where
  "HC_return h = h\<lparr>hc_pc := HC_Exited\<rparr>"

text \<open>A tick: a stale pong is dropped, the ping is sent (\<open>err\<close> is what \<open>SendRaw\<close> returns), the timer set.\<close>

definition HC_ping :: "ipc_error option \<Rightarrow> instant \<Rightarrow> HealthCheckManager \<Rightarrow> HealthCheckManager" where
  "HC_ping err now h =
     (let h1 = (case tryRecv (hc_pong h) of Received _ q \<Rightarrow> h\<lparr>hc_pong := q\<rparr> | _ \<Rightarrow> h)
      in (case err of
            Some _ \<Rightarrow> HC_return h1
          | None \<Rightarrow> h1\<lparr>hc_pc := HC_Waiting (now + hc_timeout h)\<rparr>))"

text \<open>A pong received in time.\<close>

definition HC_pong_received :: "HealthCheckManager \<Rightarrow> HealthCheckManager option" where
  "HC_pong_received h =
     (case tryRecv (hc_pong h) of Received _ q \<Rightarrow> Some (h\<lparr>hc_pong := q, hc_pc := HC_Idle\<rparr>) | _ \<Rightarrow> None)"

section \<open>The program counters\<close>

datatype sup_pc =
    Sup_Top | Sup_Running | Sup_After "ipc_error option" | Sup_Await "ipc_error option"
  | Sup_Retry | Sup_Waiting | Sup_Ended "ipc_error option"

datatype run_pc =
    Run_idle | Run_reading nat | Run_terminal nat Event "ipc_error option"
  | Run_forgetting nat "ipc_error option" | Run_closing nat "ipc_error option"
  | Run_finished "ipc_error option"

datatype loop_pc = Loop_Top | Loop_Sleep | Loop_Range nat | Loop_Ended

record sys =
  cli :: ipc
  hcm :: "HealthCheckManager option"
  rm :: ReconnectManager
  cfg :: DiscordConfig
  sup :: sup_pc
  runner :: run_pc
  looper :: loop_pc
  ctx_done :: bool
  now :: instant
  bcasts :: "ServerMessage list"
  updates :: "Activity list"
  emitted :: "(nat \<times> Event) list"
  consumed :: "(nat \<times> Event) list"
  sys_panic :: bool

definition NewReconnectManager :: "DiscordConfig \<Rightarrow> ReconnectManager" where
  "NewReconnectManager c =
     \<lparr>baseInterval = ReconnectBaseInterval c, maxInterval = MaxReconnectInterval c,
      autoReconnect = AutoReconnect c, attempt = 0\<rparr>"

text \<open>The state in which \<open>main\<close> starts the two goroutines, after its own attempt to connect.\<close>

definition sys_init :: "DiscordConfig \<Rightarrow> string list \<Rightarrow> (string \<Rightarrow> path_result) \<Rightarrow> sys" where
  "sys_init c ps env =
     \<lparr>cli = snd (Connect env (New_ipc ps)), hcm = None, rm = NewReconnectManager c, cfg = c,
      sup = Sup_Top, runner = Run_idle, looper = Loop_Top, ctx_done = False, now = 0, bcasts = [],
      updates = [], emitted = [], consumed = [], sys_panic = False\<rparr>"

section \<open>The sections\<close>

text \<open>The top of the loop of \<open>RunWithReconnect\<close>; running without an event channel would end in closing nil.\<close>

definition sup_begin :: "sys \<Rightarrow> sys" where
  "sup_begin s =
     (let s1 = (if ipc_state (cli s) = IPC_Connected
                then s\<lparr>hcm := Some (HC_Start (NewHealthCheckManager (cfg s))),
                       cli := (cli s)\<lparr>has_healthCheck := True\<rparr>\<rparr>
                else s\<lparr>hcm := None\<rparr>)
      in (case ipcConn (cli s) of
            None \<Rightarrow> s1\<lparr>sup := Sup_Running, runner := Run_finished (Some Run_before_Connect)\<rparr>
          | Some _ \<Rightarrow>
              (case ipc_events (cli s) of
                 None \<Rightarrow> s1\<lparr>sys_panic := True\<rparr>
               | Some ch \<Rightarrow> s1\<lparr>sup := Sup_Running, runner := Run_reading ch\<rparr>)))"

definition has_room :: "nat \<Rightarrow> ipc \<Rightarrow> bool" where
  "has_room ch c =
     (case chans c ch of None \<Rightarrow> False | Some q \<Rightarrow> length (ch_buf q) < ch_cap q)"

definition emit :: "nat \<Rightarrow> Event \<Rightarrow> sys \<Rightarrow> sys" where
  "emit ch ev s =
     (case emitEvent ch ev (cli s) of
        None \<Rightarrow> s\<lparr>sys_panic := True\<rparr>
      | Some c \<Rightarrow> s\<lparr>cli := c,
          emitted := (if has_room ch (cli s) then emitted s @ [(ch, ev)] else emitted s)\<rparr>)"

definition run_read :: "(string \<Rightarrow> ResponseFrame option) \<Rightarrow> nat \<Rightarrow> read_result \<Rightarrow> sys \<Rightarrow> sys" where
  "run_read parseFrame ch r s =
     (case Run_read parseFrame (ctx_done s) r of
        Run_emit ev \<Rightarrow> emit ch ev s
      | Run_pong \<Rightarrow> if has_healthCheck (cli s) then s\<lparr>hcm := map_option HandlePong (hcm s)\<rparr> else s
      | Run_end ev res \<Rightarrow> s\<lparr>cli := setState IPC_Disconnected (cli s), runner := Run_terminal ch ev res\<rparr>
      | Run_return e \<Rightarrow> s\<lparr>runner := Run_forgetting ch (Some e)\<rparr>)"

definition run_close :: "nat \<Rightarrow> ipc_error option \<Rightarrow> sys \<Rightarrow> sys" where
  "run_close ch res s =
     (case close_events ch (cli s) of
        None \<Rightarrow> s\<lparr>sys_panic := True\<rparr>
      | Some c \<Rightarrow> s\<lparr>cli := c, runner := Run_finished res\<rparr>)"

text \<open>No pong within the timeout: the client is closed, which ends the session, and \<open>run\<close> returns.\<close>

definition HC_timed_out :: "HealthCheckManager \<Rightarrow> sys \<Rightarrow> sys" where
  "HC_timed_out h s = s\<lparr>cli := Close (cli s), hcm := Some (HC_return h)\<rparr>"

definition sup_continue :: "ipc_error option \<Rightarrow> sys \<Rightarrow> sys" where
  "sup_continue res s =
     (let s1 = (if hcm s = None then s
                else s\<lparr>hcm := None, cli := (cli s)\<lparr>has_healthCheck := False\<rparr>\<rparr>)
      in if ctx_done s then s1\<lparr>sup := Sup_Ended (Some Ctx_error)\<rparr>
         else if \<not> AutoReconnect (cfg s) then s1\<lparr>sup := Sup_Ended res\<rparr>
         else s1\<lparr>sup := Sup_Retry\<rparr>)"

definition sup_retry :: "sys \<Rightarrow> sys" where
  "sup_retry s =
     (case Reconnect_before (rm s) (cli s) of
        Inl e \<Rightarrow> s\<lparr>sup := Sup_Ended (Some e)\<rparr>
      | Inr c \<Rightarrow> s\<lparr>cli := c, sup := Sup_Waiting\<rparr>)"

definition sup_timer :: "(string \<Rightarrow> path_result) \<Rightarrow> sys \<Rightarrow> sys" where
  "sup_timer env s =
     (case Reconnect_after env (rm s) (cli s) of
        (ok, rm', c) \<Rightarrow> s\<lparr>rm := rm', cli := c, sup := (if ok then Sup_Top else Sup_Retry)\<rparr>)"

text \<open>The body of \<open>runIPCEventLoop\<close>: fetching the channel, handling one event, the end of the range.\<close>

definition loop_fetch :: "sys \<Rightarrow> sys" where
  "loop_fetch s =
     (case ipc_events (cli s) of
        None \<Rightarrow> s\<lparr>looper := Loop_Sleep\<rparr>
      | Some ch \<Rightarrow> s\<lparr>looper := Loop_Range ch, bcasts := bcasts s @ [NewStateMessage StateConnected []]\<rparr>)"

definition event_activity :: "(json \<Rightarrow> presence_Activity option) \<Rightarrow> Event \<Rightarrow> Activity option" where
  "event_activity decode ev =
     (if ev_Err ev = None \<and> ev_Opcode ev = OpFrame \<and> ev_Frame ev \<noteq> None
      then (case ParseActivityFrame decode (ev_Frame ev) of Inl _ \<Rightarrow> None | Inr a \<Rightarrow> Some a)
      else None)"

definition loop_leave :: "sys \<Rightarrow> sys" where
  "loop_leave s = s\<lparr>looper := Loop_Top, bcasts := bcasts s @ [NewStateMessage StateReconnecting []]\<rparr>"

definition loop_event :: "(json \<Rightarrow> presence_Activity option) \<Rightarrow> nat \<Rightarrow> sys \<Rightarrow> sys" where
  "loop_event decode ch s =
     (case map_option tryRecv (chans (cli s) ch) of
        Some (Received ev q) \<Rightarrow>
          (let s1 = s\<lparr>cli := (cli s)\<lparr>chans := (chans (cli s))(ch \<mapsto> q)\<rparr>, consumed := consumed s @ [(ch, ev)]\<rparr>
           in if ev_Err ev \<noteq> None then loop_leave s1
              else (case event_activity decode ev of None \<Rightarrow> s1 | Some a \<Rightarrow> s1\<lparr>updates := updates s @ [a]\<rparr>))
      | Some Recv_closed \<Rightarrow> loop_leave s
      | _ \<Rightarrow> s)"

section \<open>The steps\<close>

datatype ilabel =
    I_Cancel | I_Clock int
  | I_Top | I_RunDone | I_RunCtx | I_StopHC | I_AwaitHC | I_Retry | I_WaitCtx | I_Dial "string \<Rightarrow> path_result"
  | I_Read read_result | I_Terminal | I_TerminalCtx | I_Forget | I_Close
  | I_Ping bool | I_Pong | I_Timeout | I_HCExit
  | I_Fetch | I_Wake | I_Quit | I_Event
  | I_MainClose

inductive istep ::
  "(string \<Rightarrow> ResponseFrame option) \<Rightarrow> (json \<Rightarrow> presence_Activity option) \<Rightarrow> ilabel \<Rightarrow> sys \<Rightarrow> sys \<Rightarrow> bool"
  for parseFrame :: "string \<Rightarrow> ResponseFrame option" and decode :: "json \<Rightarrow> presence_Activity option" where
  cancel: "istep parseFrame decode I_Cancel s (s\<lparr>ctx_done := True\<rparr>)"
| pass: "0 \<le> d \<Longrightarrow> istep parseFrame decode (I_Clock d) s (s\<lparr>now := now s + d\<rparr>)"
| top: "sup s = Sup_Top \<Longrightarrow> istep parseFrame decode I_Top s (sup_begin s)"
| run_done: "sup s = Sup_Running \<Longrightarrow> runner s = Run_finished res \<Longrightarrow>
     istep parseFrame decode I_RunDone s (s\<lparr>sup := Sup_After res\<rparr>)"
| run_ctx: "sup s = Sup_Running \<Longrightarrow> ctx_done s \<Longrightarrow>
     istep parseFrame decode I_RunCtx s (s\<lparr>cli := Close (cli s), sup := Sup_After (Some Ctx_error)\<rparr>)"
| stop_hc: "sup s = Sup_After res \<Longrightarrow>
     istep parseFrame decode I_StopHC s (s\<lparr>hcm := map_option HC_Stop (hcm s), sup := Sup_Await res\<rparr>)"
| await_hc: "sup s = Sup_Await res \<Longrightarrow> (\<forall>h. hcm s = Some h \<longrightarrow> hc_pc h = HC_Exited) \<Longrightarrow>
     istep parseFrame decode I_AwaitHC s (sup_continue res s)"
| retry: "sup s = Sup_Retry \<Longrightarrow> istep parseFrame decode I_Retry s (sup_retry s)"
| wait_ctx: "sup s = Sup_Waiting \<Longrightarrow> ctx_done s \<Longrightarrow>
     istep parseFrame decode I_WaitCtx s (s\<lparr>sup := Sup_Ended (Some Ctx_error)\<rparr>)"
| dial: "sup s = Sup_Waiting \<Longrightarrow> istep parseFrame decode (I_Dial env) s (sup_timer env s)"
| read: "runner s = Run_reading ch \<Longrightarrow> istep parseFrame decode (I_Read r) s (run_read parseFrame ch r s)"
| terminal: "runner s = Run_terminal ch ev res \<Longrightarrow> has_room ch (cli s) \<Longrightarrow>
     istep parseFrame decode I_Terminal s ((emit ch ev s)\<lparr>runner := Run_forgetting ch res\<rparr>)"
| terminal_ctx: "runner s = Run_terminal ch ev res \<Longrightarrow> ctx_done s \<Longrightarrow>
     istep parseFrame decode I_TerminalCtx s (s\<lparr>runner := Run_forgetting ch res\<rparr>)"
| forget: "runner s = Run_forgetting ch res \<Longrightarrow>
     istep parseFrame decode I_Forget s (s\<lparr>cli := forget_events ch (cli s), runner := Run_closing ch res\<rparr>)"
| close: "runner s = Run_closing ch res \<Longrightarrow> istep parseFrame decode I_Close s (run_close ch res s)"
| ping: "hcm s = Some h \<Longrightarrow> hc_pc h = HC_Idle \<Longrightarrow>
     istep parseFrame decode (I_Ping wr) s (s\<lparr>hcm := Some (HC_ping (SendRaw wr (cli s)) (now s) h)\<rparr>)"
| pong: "hcm s = Some h \<Longrightarrow> hc_pc h = HC_Waiting t \<Longrightarrow> HC_pong_received h = Some h' \<Longrightarrow>
     istep parseFrame decode I_Pong s (s\<lparr>hcm := Some h'\<rparr>)"
| timeout: "hcm s = Some h \<Longrightarrow> hc_pc h = HC_Waiting t \<Longrightarrow> t \<le> now s \<Longrightarrow>
     istep parseFrame decode I_Timeout s (HC_timed_out h s)"
| hc_exit: "hcm s = Some h \<Longrightarrow> hc_pc h \<noteq> HC_Exited \<Longrightarrow> hc_stop h \<or> ctx_done s \<Longrightarrow>
     istep parseFrame decode I_HCExit s (s\<lparr>hcm := Some (HC_return h)\<rparr>)"
| fetch: "looper s = Loop_Top \<Longrightarrow> istep parseFrame decode I_Fetch s (loop_fetch s)"
| wake: "looper s = Loop_Sleep \<Longrightarrow> istep parseFrame decode I_Wake s (s\<lparr>looper := Loop_Top\<rparr>)"
| quit: "looper s = Loop_Sleep \<Longrightarrow> ctx_done s \<Longrightarrow> istep parseFrame decode I_Quit s (s\<lparr>looper := Loop_Ended\<rparr>)"
| event: "looper s = Loop_Range ch \<Longrightarrow> istep parseFrame decode I_Event s (loop_event decode ch s)"
| main_close: "ctx_done s \<Longrightarrow> istep parseFrame decode I_MainClose s (s\<lparr>cli := Close (cli s)\<rparr>)"

definition ireachable ::
  "(string \<Rightarrow> ResponseFrame option) \<Rightarrow> (json \<Rightarrow> presence_Activity option) \<Rightarrow> DiscordConfig \<Rightarrow> string list
    \<Rightarrow> sys \<Rightarrow> bool" where
  "ireachable parseFrame decode c ps s \<longleftrightarrow>
     (\<exists>env ls. run_of (istep parseFrame decode) ls (sys_init c ps env) s)"

end
