(* ===== verification/Ipc_System_Inv.thy ===== *)
theory Ipc_System_Inv
  imports Ipc_System
begin

text \<open>
  Invariants of the IPC side: the channel discipline (no send on or close of a closed channel, no
  closed channel ever offered to a consumer), the order in which events arrive, and the
  alternation of the broadcast states.
\<close>

section \<open>The channel discipline\<close>

definition chan_good :: "Event chan \<Rightarrow> bool" where
  "chan_good q \<longleftrightarrow> chan_ok q \<and> ch_cap q = eventBufferSize"

definition open_chan :: "ipc \<Rightarrow> nat \<Rightarrow> bool" where
  "open_chan c ch \<longleftrightarrow> (\<exists>q. chans c ch = Some q \<and> \<not> ch_closed q)"

definition chans_ok :: "ipc \<Rightarrow> bool" where
  "chans_ok c \<longleftrightarrow> (\<forall>ch q. chans c ch = Some q \<longrightarrow> ch < next_chan c \<and> chan_good q) \<and>
     (\<forall>ch. ipc_events c = Some ch \<longrightarrow> open_chan c ch)"

fun runner_ok :: "ipc \<Rightarrow> run_pc \<Rightarrow> bool" where
  "runner_ok c (Run_reading ch) \<longleftrightarrow> ipc_events c = Some ch"
| "runner_ok c (Run_terminal ch ev res) \<longleftrightarrow> ipc_events c = Some ch"
| "runner_ok c (Run_forgetting ch res) \<longleftrightarrow> ipc_events c = Some ch"
| "runner_ok c (Run_closing ch res) \<longleftrightarrow> ipc_events c = None \<and> open_chan c ch"
| "runner_ok c _ \<longleftrightarrow> True"

definition at_rest :: "run_pc \<Rightarrow> bool" where
  "at_rest r \<longleftrightarrow> r = Run_idle \<or> (\<exists>res. r = Run_finished res)"

definition sup_ok :: "sys \<Rightarrow> bool" where
  "sup_ok s \<longleftrightarrow>
     (case sup s of
        Sup_Top \<Rightarrow> at_rest (runner s) \<and> (ipcConn (cli s) \<noteq> None \<longrightarrow> ipc_events (cli s) \<noteq> None)
      | Sup_Retry \<Rightarrow> at_rest (runner s)
      | Sup_Waiting \<Rightarrow> at_rest (runner s)
      | Sup_After res \<Rightarrow> at_rest (runner s) \<or> ctx_done s
      | Sup_Await res \<Rightarrow> at_rest (runner s) \<or> ctx_done s
      | _ \<Rightarrow> True)"

definition looper_ok :: "sys \<Rightarrow> bool" where
  "looper_ok s \<longleftrightarrow> (\<forall>ch. looper s = Loop_Range ch \<longrightarrow> chans (cli s) ch \<noteq> None)"

definition sys_inv :: "sys \<Rightarrow> bool" where
  "sys_inv s \<longleftrightarrow> chans_ok (cli s) \<and> runner_ok (cli s) (runner s) \<and> sup_ok s \<and> looper_ok s \<and> \<not> sys_panic s"

text \<open>Parts of the client that the discipline does not look at.\<close>

lemma chans_ok_frame:
  "chans c = chans c' \<Longrightarrow> next_chan c = next_chan c' \<Longrightarrow> ipc_events c = ipc_events c' \<Longrightarrow>
   chans_ok c \<Longrightarrow> chans_ok c'"
  by (simp add: chans_ok_def open_chan_def)

lemma runner_ok_frame:
  "chans c = chans c' \<Longrightarrow> ipc_events c = ipc_events c' \<Longrightarrow> runner_ok c r \<Longrightarrow> runner_ok c' r"
  by (cases r) (simp_all add: open_chan_def)

lemma runner_ok_rest: "at_rest r \<Longrightarrow> runner_ok c r"
  by (auto simp: at_rest_def)

lemma cli_frame [simp]:
  "chans (Close c) = chans c" "next_chan (Close c) = next_chan c" "ipc_events (Close c) = ipc_events c"
  "ipcConn (Close c) = ipcConn c"
  by (simp_all add: Close_def split: option.split)

text \<open>Changing nothing but state, sockets and flags of the client.\<close>

lemma sys_inv_frame:
  assumes "sys_inv s"
    and "chans c = chans (cli s)" "next_chan c = next_chan (cli s)" "ipc_events c = ipc_events (cli s)"
    and "ipcConn c = ipcConn (cli s)"
  shows "sys_inv (s\<lparr>cli := c\<rparr>)"
proof -
  have "chans_ok c"
    by (rule chans_ok_frame [of "cli s"]) (use assms in \<open>simp_all add: sys_inv_def\<close>)
  moreover have "runner_ok c (runner s)"
    by (rule runner_ok_frame [of "cli s"]) (use assms in \<open>simp_all add: sys_inv_def\<close>)
  moreover have "sup_ok (s\<lparr>cli := c\<rparr>) = sup_ok s" "looper_ok (s\<lparr>cli := c\<rparr>) = looper_ok s"
    using assms(2,4,5) by (simp_all add: sup_ok_def looper_ok_def split: sup_pc.split)
  ultimately show ?thesis
    using assms(1) by (simp add: sys_inv_def)
qed

lemma sys_inv_other [simp]:
  "sys_inv (s\<lparr>hcm := h\<rparr>) = sys_inv s" "sys_inv (s\<lparr>now := t\<rparr>) = sys_inv s"
  "sys_inv (s\<lparr>bcasts := b\<rparr>) = sys_inv s" "sys_inv (s\<lparr>updates := u\<rparr>) = sys_inv s"
  "sys_inv (s\<lparr>emitted := e\<rparr>) = sys_inv s" "sys_inv (s\<lparr>consumed := e\<rparr>) = sys_inv s"
  "sys_inv (s\<lparr>rm := r\<rparr>) = sys_inv s"
  by (simp_all add: sys_inv_def sup_ok_def looper_ok_def cong: sup_pc.case_cong)

lemma sys_inv_chan: "sys_inv s \<Longrightarrow> chans (cli s) ch = Some q \<Longrightarrow> chan_good q"
  by (simp add: sys_inv_def chans_ok_def)

text \<open>Replacing an open channel by an open one.\<close>

lemma sys_inv_chan_update:
  assumes inv: "sys_inv s" and q: "chans (cli s) ch = Some q" and good: "chan_good q'"
    and closed: "ch_closed q' = ch_closed q"
  shows "sys_inv (s\<lparr>cli := (cli s)\<lparr>chans := (chans (cli s))(ch \<mapsto> q')\<rparr>\<rparr>)"
proof -
  let ?c = "(cli s)\<lparr>chans := (chans (cli s))(ch \<mapsto> q')\<rparr>"
  have opn: "open_chan ?c k = open_chan (cli s) k" for k
    using q closed by (simp add: open_chan_def)
  have "chans_ok ?c" using inv q good opn by (auto simp: sys_inv_def chans_ok_def)
  moreover have "runner_ok ?c (runner s)"
    using inv opn by (cases "runner s") (simp_all add: sys_inv_def)
  ultimately show ?thesis
    using inv by (auto simp: sys_inv_def sup_ok_def looper_ok_def split: sup_pc.splits)
qed

lemma inv_emit:
  assumes inv: "sys_inv s" and ch: "ipc_events (cli s) = Some ch"
  shows "sys_inv (emit ch ev s)" and "runner (emit ch ev s) = runner s"
    and "ipc_events (cli (emit ch ev s)) = Some ch"
proof -
  obtain q where q: "chans (cli s) ch = Some q" "\<not> ch_closed q"
    using inv ch by (auto simp: sys_inv_def chans_ok_def open_chan_def)
  have good: "chan_good q" by (rule sys_inv_chan [OF inv q(1)])
  obtain q' where q': "send_or_drop q ev = Some q'" using q(2) send_or_drop_None by fastforce
  note props = send_or_drop_Some [OF q']
  have "chan_good q'" using props(2,4) good by (simp add: chan_good_def)
  moreover have "ch_closed q' = ch_closed q" using props(1,3) by simp
  ultimately have "sys_inv (s\<lparr>cli := (cli s)\<lparr>chans := (chans (cli s))(ch \<mapsto> q')\<rparr>\<rparr>)"
    by (rule sys_inv_chan_update [OF inv q(1)])
  then show "sys_inv (emit ch ev s)"
    by (simp add: emit_def emitEvent_def q(1) q')
  show "runner (emit ch ev s) = runner s" "ipc_events (cli (emit ch ev s)) = Some ch"
    using ch by (simp_all add: emit_def emitEvent_def q(1) q')
qed

text \<open>Moving the runner between points that hold the same channel.\<close>

lemma sys_inv_runner:
  assumes "sys_inv s" and "runner_ok (cli s) r" and "at_rest (runner s) \<longrightarrow> at_rest r"
  shows "sys_inv (s\<lparr>runner := r\<rparr>)"
  using assms by (auto simp: sys_inv_def sup_ok_def looper_ok_def split: sup_pc.splits)

lemma inv_read:
  assumes inv: "sys_inv s" and r: "runner s = Run_reading ch"
  shows "sys_inv (run_read parseFrame ch res s)"
proof -
  have ch: "ipc_events (cli s) = Some ch" using inv r by (simp add: sys_inv_def)
  have busy: "\<not> at_rest (runner s)" using r by (simp add: at_rest_def)
  have disc: "sys_inv (s\<lparr>cli := setState IPC_Disconnected (cli s)\<rparr>)"
    by (rule sys_inv_frame [OF inv]) simp_all
  have "sys_inv (s\<lparr>cli := setState IPC_Disconnected (cli s), runner := Run_terminal ch ev e\<rparr>)" for ev e
    using sys_inv_runner [OF disc, of "Run_terminal ch ev e"] ch busy by simp
  moreover have "sys_inv (s\<lparr>runner := Run_forgetting ch e\<rparr>)" for e
    using sys_inv_runner [OF inv, of "Run_forgetting ch e"] ch busy by simp
  ultimately show ?thesis
    using inv inv_emit(1) [OF inv ch] by (simp add: run_read_def split: run_next.split)
qed

lemma inv_terminal:
  assumes inv: "sys_inv s" and r: "runner s = Run_terminal ch ev res"
  shows "sys_inv ((emit ch ev s)\<lparr>runner := Run_forgetting ch res\<rparr>)"
proof -
  have ch: "ipc_events (cli s) = Some ch" using inv r by (simp add: sys_inv_def)
  show ?thesis
    by (rule sys_inv_runner [OF inv_emit(1) [OF inv ch]])
      (simp_all add: inv_emit(2,3) [OF inv ch] r at_rest_def)
qed

lemma inv_forget:
  assumes inv: "sys_inv s" and r: "runner s = Run_forgetting ch res"
  shows "sys_inv (s\<lparr>cli := forget_events ch (cli s), runner := Run_closing ch res\<rparr>)"
proof -
  have ch: "ipc_events (cli s) = Some ch" using inv r by (simp add: sys_inv_def)
  have sup: "case sup s of Sup_Top \<Rightarrow> False | Sup_Retry \<Rightarrow> False | Sup_Waiting \<Rightarrow> False
      | Sup_After e \<Rightarrow> ctx_done s | Sup_Await e \<Rightarrow> ctx_done s | _ \<Rightarrow> True"
    using inv r by (auto simp: sys_inv_def sup_ok_def at_rest_def split: sup_pc.splits)
  have "chans_ok (forget_events ch (cli s))" "open_chan (forget_events ch (cli s)) ch"
    using inv ch by (auto simp: sys_inv_def chans_ok_def forget_events_def open_chan_def)
  with inv ch sup show ?thesis
    by (auto simp: sys_inv_def sup_ok_def looper_ok_def forget_events_def split: sup_pc.splits)
qed

lemma inv_close:
  assumes inv: "sys_inv s" and r: "runner s = Run_closing ch res"
  shows "sys_inv (run_close ch res s)"
proof -
  obtain q where q: "chans (cli s) ch = Some q" "\<not> ch_closed q" and none: "ipc_events (cli s) = None"
    using inv r by (auto simp: sys_inv_def open_chan_def)
  let ?c = "(cli s)\<lparr>chans := (chans (cli s))(ch \<mapsto> q\<lparr>ch_closed := True\<rparr>)\<rparr>"
  have "chan_good (q\<lparr>ch_closed := True\<rparr>)"
    using sys_inv_chan [OF inv q(1)] by (simp add: chan_good_def chan_ok_def)
  then have "chans_ok ?c"
    using inv q none by (simp add: sys_inv_def chans_ok_def)
  then have "sys_inv (s\<lparr>cli := ?c, runner := Run_finished res\<rparr>)"
    using inv by (auto simp: sys_inv_def sup_ok_def looper_ok_def at_rest_def split: sup_pc.splits)
  then show ?thesis
    using q by (simp add: run_close_def close_events_def closeChan_def)
qed

lemma inv_event:
  assumes inv: "sys_inv s" and l: "looper s = Loop_Range ch"
  shows "sys_inv (loop_event decode ch s)"
proof -
  obtain q where q: "chans (cli s) ch = Some q" using inv l by (auto simp: sys_inv_def looper_ok_def)
  have leave: "sys_inv (loop_leave t)" if "sys_inv t" for t
    using that by (auto simp: loop_leave_def sys_inv_def sup_ok_def looper_ok_def split: sup_pc.splits)
  show ?thesis
  proof (cases "tryRecv q")
    case (Received ev q')
    then have "chan_good q'" "ch_closed q' = ch_closed q"
      using sys_inv_chan [OF inv q]
      by (auto simp: tryRecv_def chan_good_def chan_ok_def split: list.splits if_splits)
    then have "sys_inv (s\<lparr>cli := (cli s)\<lparr>chans := (chans (cli s))(ch \<mapsto> q')\<rparr>\<rparr>)"
      by (rule sys_inv_chan_update [OF inv q])
    then have "sys_inv (s\<lparr>cli := (cli s)\<lparr>chans := (chans (cli s))(ch \<mapsto> q')\<rparr>,
        consumed := consumed s @ [(ch, ev)]\<rparr>)" by simp
    with leave [OF this] show ?thesis
      by (simp add: loop_event_def q Received Let_def split: option.split)
  next
    case Recv_closed
    with leave [OF inv] show ?thesis by (simp add: loop_event_def q)
  next
    case Recv_blocked
    with inv show ?thesis by (simp add: loop_event_def q)
  qed
qed

lemma inv_fetch: "sys_inv s \<Longrightarrow> sys_inv (loop_fetch s)"
  by (auto simp: loop_fetch_def sys_inv_def sup_ok_def looper_ok_def chans_ok_def open_chan_def
      split: sup_pc.splits option.splits)

lemma inv_looper: "sys_inv s \<Longrightarrow> \<forall>ch. l \<noteq> Loop_Range ch \<Longrightarrow> sys_inv (s\<lparr>looper := l\<rparr>)"
  by (auto simp: sys_inv_def sup_ok_def looper_ok_def split: sup_pc.splits)

lemma inv_sup:
  assumes "sys_inv s" and "case p of Sup_Top \<Rightarrow> False | Sup_Retry \<Rightarrow> at_rest (runner s)
      | Sup_Waiting \<Rightarrow> at_rest (runner s) | Sup_After e \<Rightarrow> at_rest (runner s) \<or> ctx_done s
      | Sup_Await e \<Rightarrow> at_rest (runner s) \<or> ctx_done s | _ \<Rightarrow> True"
  shows "sys_inv (s\<lparr>sup := p\<rparr>)"
  using assms by (auto simp: sys_inv_def sup_ok_def looper_ok_def split: sup_pc.splits)

lemma inv_begin:
  assumes inv: "sys_inv s" and p: "sup s = Sup_Top"
  shows "sys_inv (sup_begin s)"
proof -
  have conn: "ipcConn (cli s) \<noteq> None \<longrightarrow> ipc_events (cli s) \<noteq> None"
    using inv p by (simp add: sys_inv_def sup_ok_def)
  have go: "sys_inv (t\<lparr>sup := Sup_Running, runner := r\<rparr>)" if "sys_inv t" "runner_ok (cli t) r" for t r
    using that by (auto simp: sys_inv_def sup_ok_def looper_ok_def)
  have flag_h: "sys_inv (s\<lparr>hcm := h, cli := (cli s)\<lparr>has_healthCheck := b\<rparr>\<rparr>)" for h b
    by (rule sys_inv_frame [of "s\<lparr>hcm := h\<rparr>", simplified, OF inv]) simp_all
  have hc: "sys_inv (s\<lparr>hcm := h\<rparr>)" for h using inv by simp
  show ?thesis
    using go [OF flag_h] go [OF hc] conn
    by (auto simp: sup_begin_def Let_def split: option.split)
qed

lemma inv_continue:
  assumes inv: "sys_inv s" and p: "sup s = Sup_Await res"
  shows "sys_inv (sup_continue res s)"
proof -
  let ?t = "if hcm s = None then s else s\<lparr>hcm := None, cli := (cli s)\<lparr>has_healthCheck := False\<rparr>\<rparr>"
  have "sys_inv (s\<lparr>hcm := None, cli := (cli s)\<lparr>has_healthCheck := False\<rparr>\<rparr>)"
    by (rule sys_inv_frame [of "s\<lparr>hcm := None\<rparr>", simplified, OF inv]) simp_all
  then have t: "sys_inv ?t" using inv by simp
  have "at_rest (runner s) \<or> ctx_done s" using inv p by (simp add: sys_inv_def sup_ok_def)
  then have "ctx_done s \<or> at_rest (runner ?t)" by auto
  then show ?thesis
    using inv_sup [OF t] unfolding sup_continue_def Let_def by (cases "ctx_done s") simp_all
qed

lemma inv_retry:
  assumes inv: "sys_inv s" and p: "sup s = Sup_Retry"
  shows "sys_inv (sup_retry s)"
proof -
  have rest: "at_rest (runner s)" using inv p by (simp add: sys_inv_def sup_ok_def)
  have "sys_inv (s\<lparr>cli := setState IPC_Reconnecting (cli s)\<rparr>)"
    by (rule sys_inv_frame [OF inv]) simp_all
  then have "sys_inv (s\<lparr>cli := setState IPC_Reconnecting (cli s), sup := Sup_Waiting\<rparr>)"
    using rest inv_sup [of "s\<lparr>cli := setState IPC_Reconnecting (cli s)\<rparr>" Sup_Waiting] by simp
  moreover have "sys_inv (s\<lparr>sup := Sup_Ended e\<rparr>)" for e by (rule inv_sup [OF inv]) simp
  ultimately show ?thesis by (simp add: sup_retry_def Reconnect_before_def)
qed

lemma chans_ok_Connect:
  assumes "chans_ok c" and "Connect env c = (b, c')"
  shows "chans_ok c'" and "b \<Longrightarrow> ipc_events c' \<noteq> None"
    and "\<And>ch. chans c ch \<noteq> None \<Longrightarrow> chans c' ch \<noteq> None"
proof -
  have new: "ipc_events c' = Some (next_chan c) \<and> next_chan c' = Suc (next_chan c) \<and>
      chans c' = (chans c)(next_chan c \<mapsto> make_chan eventBufferSize)" if b
    using Connect_frame(5) [OF assms(2) that] by blast
  have old: "ipc_events c' = ipc_events c \<and> next_chan c' = next_chan c \<and> chans c' = chans c" if "\<not> b"
    using Connect_frame(4) [OF assms(2) that] by blast
  show "chans_ok c'"
    using new old assms(1)
    by (cases b) (auto simp: chans_ok_def open_chan_def chan_good_def less_SucI)
  show "b \<Longrightarrow> ipc_events c' \<noteq> None" using new by simp
  show "\<And>ch. chans c ch \<noteq> None \<Longrightarrow> chans c' ch \<noteq> None" using new old by (cases b) auto
qed

lemma inv_timer:
  assumes inv: "sys_inv s" and p: "sup s = Sup_Waiting"
  shows "sys_inv (sup_timer env s)"
proof -
  have rest: "at_rest (runner s)" using inv p by (simp add: sys_inv_def sup_ok_def)
  obtain b c where cc: "Connect env (cli s) = (b, c)" by force
  have "chans_ok (cli s)" using inv by (simp add: sys_inv_def)
  note k = chans_ok_Connect [OF this cc]
  have "sys_inv (s\<lparr>rm := r, cli := c, sup := (if b then Sup_Top else Sup_Retry)\<rparr>)" for r
    using inv rest k by (auto simp: sys_inv_def sup_ok_def looper_ok_def runner_ok_rest)
  then show ?thesis by (cases b) (auto simp: sup_timer_def Reconnect_after_def cc)
qed

interpretation ipc_sys: step_invariant_all "istep parseFrame decode" sys_inv for parseFrame decode
proof unfold_locales
  fix l s t
  assume step: "istep parseFrame decode l s t" and inv: "sys_inv s"
  have close_inv: "sys_inv (s\<lparr>cli := Close (cli s)\<rparr>)"
    by (rule sys_inv_frame [OF inv]) simp_all
  from step show "sys_inv t"
  proof cases
    case cancel
    with inv show ?thesis
      by (auto simp: sys_inv_def sup_ok_def looper_ok_def split: sup_pc.splits)
  next
    case (run_ctx)
    then show ?thesis
      using inv_sup [OF close_inv, of "Sup_After (Some Ctx_error)"] by simp
  next
    case (run_done res)
    then show ?thesis using inv by (simp add: inv_sup at_rest_def)
  next
    case (stop_hc res)
    have "at_rest (runner s) \<or> ctx_done s" using inv stop_hc by (simp add: sys_inv_def sup_ok_def)
    with inv_sup [of "s\<lparr>hcm := map_option HC_Stop (hcm s)\<rparr>" "Sup_Await res"] inv stop_hc
    show ?thesis by simp
  next
    case (terminal_ctx ch ev res)
    with inv show ?thesis
      by (auto intro!: sys_inv_runner simp: at_rest_def) (simp add: sys_inv_def)
  next
    case (timeout h u)
    with close_inv sys_inv_other(1) [where s = "s\<lparr>cli := Close (cli s)\<rparr>"] show ?thesis by (simp add: HC_timed_out_def)
  qed (auto simp: inv intro: inv_begin inv_continue inv_retry inv_sup inv_timer inv_read inv_terminal
      inv_forget inv_close inv_fetch inv_looper inv_event close_inv)
qed

lemma sys_inv_init: "sys_inv (sys_init c ps env)"
proof -
  obtain b d where cc: "Connect env (New_ipc ps) = (b, d)" by force
  have new: "chans_ok (New_ipc ps)" by (simp add: chans_ok_def New_ipc_def)
  note k = chans_ok_Connect [OF new cc]
  have "ipcConn d \<noteq> None \<longrightarrow> ipc_events d \<noteq> None"
    using k(2) Connect_frame(4) [OF cc] by (cases b) (auto simp: New_ipc_def)
  with k(1) cc show ?thesis
    by (simp add: sys_init_def sys_inv_def sup_ok_def looper_ok_def at_rest_def)
qed

lemma ireachable_inv: "ireachable parseFrame decode c ps s \<Longrightarrow> sys_inv s"
  unfolding ireachable_def using ipc_sys.run_keeps_all sys_inv_init by blast

section \<open>Events arrive in order\<close>

definition evs :: "nat \<Rightarrow> (nat \<times> Event) list \<Rightarrow> Event list" where
  "evs ch xs = map snd (filter (\<lambda>x. fst x = ch) xs)"

definition buffered :: "ipc \<Rightarrow> nat \<Rightarrow> Event list" where
  "buffered c ch = (case chans c ch of None \<Rightarrow> [] | Some q \<Rightarrow> ch_buf q)"

lemma sys_inv_buffered: "sys_inv s \<Longrightarrow> length (buffered (cli s) ch) \<le> 64"
  using sys_inv_chan [of s ch]
  by (auto simp: buffered_def chan_good_def chan_ok_def eventBufferSize_def split: option.split)

definition fifo_inv :: "(json \<Rightarrow> presence_Activity option) \<Rightarrow> sys \<Rightarrow> bool" where
  "fifo_inv decode s \<longleftrightarrow>
     (\<forall>ch. evs ch (emitted s) = evs ch (consumed s) @ buffered (cli s) ch) \<and>
     updates s = List.map_filter (\<lambda>x. event_activity decode (snd x)) (consumed s)"

lemma timed_out_frame [simp]:
  "bcasts (HC_timed_out h s) = bcasts s" "looper (HC_timed_out h s) = looper s"
  "updates (HC_timed_out h s) = updates s" "consumed (HC_timed_out h s) = consumed s"
  "emitted (HC_timed_out h s) = emitted s" "cfg (HC_timed_out h s) = cfg s"
  "cli (HC_timed_out h s) = Close (cli s)"
  by (simp_all add: HC_timed_out_def)

lemma evs_simps [simp]:
  "evs ch [] = []" "evs ch (xs @ ys) = evs ch xs @ evs ch ys"
  "evs ch [(k, ev)] = (if k = ch then [ev] else [])"
  by (simp_all add: evs_def)

lemma map_filter_snoc: "List.map_filter f (xs @ [x]) =
    List.map_filter f xs @ (case f x of None \<Rightarrow> [] | Some y \<Rightarrow> [y])"
  by (simp add: List.map_filter_def split: option.split)

lemma fifo_frame:
  "emitted t = emitted s \<Longrightarrow> consumed t = consumed s \<Longrightarrow> updates t = updates s \<Longrightarrow>
   (\<And>ch. buffered (cli t) ch = buffered (cli s) ch) \<Longrightarrow> fifo_inv decode s \<Longrightarrow> fifo_inv decode t"
  by (simp add: fifo_inv_def)

lemma buffered_same [simp]:
  "buffered (setState st c) ch = buffered c ch" "buffered (Close c) ch = buffered c ch"
  "buffered (forget_events k c) ch = buffered c ch" "buffered (c\<lparr>has_healthCheck := b\<rparr>) ch = buffered c ch"
  by (simp_all add: buffered_def forget_events_def)

lemma buffered_Connect:
  assumes "chans_ok c" and "Connect env c = (b, c')"
  shows "buffered c' ch = buffered c ch"
proof (cases b)
  case True
  with Connect_frame(5) [OF assms(2)] have "chans c' = (chans c)(next_chan c \<mapsto> make_chan eventBufferSize)"
    by blast
  moreover have "chans c (next_chan c) = None"
    using assms(1) by (cases "chans c (next_chan c)") (auto simp: chans_ok_def)
  ultimately show ?thesis by (simp add: buffered_def)
next
  case False
  with Connect_frame(4) [OF assms(2)] show ?thesis by (simp add: buffered_def)
qed

lemma fifo_emit:
  assumes inv: "sys_inv s" and ch: "ipc_events (cli s) = Some ch" and "fifo_inv decode s"
  shows "fifo_inv decode (emit ch ev s)"
proof -
  obtain q where q: "chans (cli s) ch = Some q" "\<not> ch_closed q"
    using inv ch by (auto simp: sys_inv_def chans_ok_def open_chan_def)
  then have "has_room ch (cli s) = (length (ch_buf q) < ch_cap q)" by (simp add: has_room_def)
  with assms(3) q show ?thesis
    by (auto simp: fifo_inv_def emit_def emitEvent_def send_or_drop_open buffered_def)
qed

lemma fifo_event:
  assumes inv: "sys_inv s" and "looper s = Loop_Range ch" and fifo: "fifo_inv decode s"
  shows "fifo_inv decode (loop_event decode ch s)"
proof -
  have leave: "fifo_inv decode t \<Longrightarrow> fifo_inv decode (loop_leave t)" for t
    by (simp add: fifo_inv_def loop_leave_def)
  obtain q where q: "chans (cli s) ch = Some q"
    using assms(1,2) by (auto simp: sys_inv_def looper_ok_def)
  show ?thesis
  proof (cases "tryRecv q")
    case (Received ev q')
    then have buf: "ch_buf q = ev # ch_buf q'" by (auto simp: tryRecv_def split: list.splits if_splits)
    let ?t = "s\<lparr>cli := (cli s)\<lparr>chans := (chans (cli s))(ch \<mapsto> q')\<rparr>, consumed := consumed s @ [(ch, ev)]\<rparr>"
    have order: "\<forall>k. evs k (emitted ?t) = evs k (consumed ?t) @ buffered (cli ?t) k"
      using fifo q buf by (simp add: fifo_inv_def buffered_def)
    show ?thesis
    proof (cases "event_activity decode ev")
      case None
      then have "fifo_inv decode ?t" using fifo order by (simp add: fifo_inv_def map_filter_snoc)
      with leave [OF this] None q Received show ?thesis by (simp add: loop_event_def Let_def)
    next
      case (Some a)
      then have "ev_Err ev = None" by (simp add: event_activity_def split: if_splits)
      moreover have "fifo_inv decode (?t\<lparr>updates := updates s @ [a]\<rparr>)"
        using fifo order Some by (simp add: fifo_inv_def map_filter_snoc)
      ultimately show ?thesis using Some q Received by (simp add: loop_event_def Let_def)
    qed
  next
    case Recv_closed
    with leave [OF fifo] q show ?thesis by (simp add: loop_event_def)
  next
    case Recv_blocked
    with fifo q show ?thesis by (simp add: loop_event_def)
  qed
qed

lemma fifo_read:
  assumes inv: "sys_inv s" and r: "runner s = Run_reading ch" and fifo: "fifo_inv decode s"
  shows "fifo_inv decode (run_read parseFrame ch res s)"
proof -
  have ch: "ipc_events (cli s) = Some ch" using inv r by (simp add: sys_inv_def)
  have "fifo_inv decode (s\<lparr>cli := setState st (cli s), runner := p\<rparr>)" "fifo_inv decode (s\<lparr>runner := p\<rparr>)"
    "fifo_inv decode (s\<lparr>hcm := h\<rparr>)" for st p h
    by (rule fifo_frame [OF _ _ _ _ fifo], simp_all)+
  with fifo fifo_emit [OF inv ch fifo] show ?thesis
    by (simp add: run_read_def split: run_next.split)
qed

lemma fifo_sup:
  assumes inv: "sys_inv s" and fifo: "fifo_inv decode s"
  shows "fifo_inv decode (sup_begin s)" and "fifo_inv decode (sup_continue res s)"
    and "fifo_inv decode (sup_retry s)" and "fifo_inv decode (sup_timer env s)"
proof -
  have upd: "fifo_inv decode (s\<lparr>hcm := h, cli := c, sup := p\<rparr>)" "fifo_inv decode (s\<lparr>hcm := h, sup := p\<rparr>)"
      "fifo_inv decode (s\<lparr>sup := p\<rparr>)" "fifo_inv decode (s\<lparr>cli := c, sup := p\<rparr>)"
      "fifo_inv decode (s\<lparr>hcm := h, cli := c, sup := p, runner := r\<rparr>)"
      "fifo_inv decode (s\<lparr>hcm := h, sup := p, runner := r\<rparr>)"
      "fifo_inv decode (s\<lparr>hcm := h, cli := c, sys_panic := b\<rparr>)"
      "fifo_inv decode (s\<lparr>hcm := h, sys_panic := b\<rparr>)"
      "fifo_inv decode (s\<lparr>rm := m, cli := c, sup := p\<rparr>)"
    if "\<And>k. buffered c k = buffered (cli s) k" for h c p r b m
    by (rule fifo_frame [OF _ _ _ _ fifo], simp_all add: that)+
  show "fifo_inv decode (sup_begin s)" "fifo_inv decode (sup_continue res s)"
    using upd by (simp_all add: sup_begin_def sup_continue_def Let_def split: option.split)
  show "fifo_inv decode (sup_retry s)"
    using upd by (simp add: sup_retry_def Reconnect_before_def)
  obtain b c where cc: "Connect env (cli s) = (b, c)" by force
  have "chans_ok (cli s)" using inv by (simp add: sys_inv_def)
  from buffered_Connect [OF this cc] show "fifo_inv decode (sup_timer env s)"
    using upd(9) by (cases b) (auto simp: sup_timer_def Reconnect_after_def cc)
qed

lemma fifo_close: "sys_inv s \<Longrightarrow> fifo_inv decode s \<Longrightarrow> fifo_inv decode (run_close ch res s)"
  by (rule fifo_frame [of _ s])
    (auto simp: run_close_def close_events_def closeChan_def buffered_def bind_eq_Some_conv
      split: option.splits if_splits)

lemma fifo_fetch: "fifo_inv decode s \<Longrightarrow> fifo_inv decode (loop_fetch s)"
  by (rule fifo_frame [of _ s]) (simp_all add: loop_fetch_def split: option.split)

interpretation ipc_fifo:
  step_invariant_all "istep parseFrame decode" "\<lambda>s. sys_inv s \<and> fifo_inv decode s" for parseFrame decode
proof unfold_locales
  fix l s t
  assume step: "istep parseFrame decode l s t" and "sys_inv s \<and> fifo_inv decode s"
  then have inv: "sys_inv s" and fifo: "fifo_inv decode s" by simp_all
  have "sys_inv t" by (rule ipc_sys.step_keeps [OF TrueI step inv])
  moreover from step have "fifo_inv decode t"
  proof cases
    case (terminal ch ev res)
    have "ipc_events (cli s) = Some ch" using inv terminal by (simp add: sys_inv_def)
    from fifo_emit [OF inv this fifo] show ?thesis
      unfolding terminal by (rule fifo_frame [rotated -1]) simp_all
  qed (auto intro: fifo_sup [OF inv fifo] fifo_read [OF inv _ fifo] fifo_event [OF inv _ fifo]
      fifo_close [OF inv fifo] fifo_fetch [OF fifo] fifo_frame [OF _ _ _ _ fifo])
  ultimately show "sys_inv t \<and> fifo_inv decode t" ..
qed

section \<open>The broadcast states alternate\<close>

definition alternating :: "nat \<Rightarrow> ServerMessage list" where
  "alternating n = concat (replicate n [NewStateMessage StateConnected [], NewStateMessage StateReconnecting []])"

definition bcast_inv :: "sys \<Rightarrow> bool" where
  "bcast_inv s \<longleftrightarrow> (\<exists>n. bcasts s =
     alternating n @ (if \<exists>ch. looper s = Loop_Range ch then [NewStateMessage StateConnected []] else []))"

lemma alternating_Suc: "alternating n @ [NewStateMessage StateConnected [], NewStateMessage StateReconnecting []] =
    alternating (Suc n)"
  by (simp add: alternating_def replicate_append_same [symmetric] del: replicate_append_same)

lemma bcast_frame: "bcasts t = bcasts s \<Longrightarrow> looper t = looper s \<Longrightarrow> bcast_inv s \<Longrightarrow> bcast_inv t"
  by (simp add: bcast_inv_def)

lemma bcast_leave: "bcast_inv s \<Longrightarrow> looper s = Loop_Range ch \<Longrightarrow> bcast_inv (loop_leave s)"
  using alternating_Suc by (fastforce simp: bcast_inv_def loop_leave_def)

lemma emit_looper [simp]: "bcasts (emit ch ev s) = bcasts s" "looper (emit ch ev s) = looper s"
  by (simp_all add: emit_def split: option.split)

lemma sections_looper [simp]:
  "bcasts (sup_begin s) = bcasts s" "looper (sup_begin s) = looper s"
  "bcasts (sup_continue res s) = bcasts s" "looper (sup_continue res s) = looper s"
  "bcasts (sup_retry s) = bcasts s" "looper (sup_retry s) = looper s"
  "bcasts (sup_timer env s) = bcasts s" "looper (sup_timer env s) = looper s"
  "bcasts (run_close ch res s) = bcasts s" "looper (run_close ch res s) = looper s"
  "bcasts (run_read parseFrame ch r s) = bcasts s" "looper (run_read parseFrame ch r s) = looper s"
  by (simp_all add: sup_begin_def sup_continue_def sup_retry_def sup_timer_def run_close_def
      run_read_def Let_def split: option.split sum.split prod.split run_next.split)

lemma bcast_event:
  assumes "bcast_inv s" and "looper s = Loop_Range ch"
  shows "bcast_inv (loop_event decode ch s)"
proof -
  have "bcast_inv (s\<lparr>cli := c, consumed := x\<rparr>)" for c x
    by (rule bcast_frame [OF _ _ assms(1)]) simp_all
  moreover from bcast_leave [OF this] assms(2)
  have "bcast_inv (loop_leave (s\<lparr>cli := c, consumed := x\<rparr>))" for c x by simp
  moreover have "bcast_inv (s\<lparr>cli := c, consumed := x, updates := u\<rparr>)" for c x u
    by (rule bcast_frame [OF _ _ assms(1)]) simp_all
  ultimately show ?thesis
    using assms bcast_leave [OF assms]
    by (simp add: loop_event_def Let_def split: option.split recv_result.split)
qed

interpretation ipc_bcast: step_invariant_all "istep parseFrame decode" bcast_inv for parseFrame decode
proof unfold_locales
  fix l s t
  assume step: "istep parseFrame decode l s t" and inv: "bcast_inv s"
  from step show "bcast_inv t"
  proof cases
    case fetch
    with inv show ?thesis by (auto simp: bcast_inv_def loop_fetch_def split: option.splits)
  next
    case wake
    with inv show ?thesis by (simp add: bcast_inv_def)
  next
    case quit
    with inv show ?thesis by (simp add: bcast_inv_def)
  next
    case (event ch)
    with inv show ?thesis by (simp add: bcast_event)
  qed (auto intro: bcast_frame [OF _ _ inv])
qed

lemma ireachable_fifo: "ireachable parseFrame decode c ps s \<Longrightarrow> fifo_inv decode s"
proof -
  assume "ireachable parseFrame decode c ps s"
  moreover have "fifo_inv decode (sys_init c ps env)" for env
  proof -
    obtain b d where cc: "Connect env (New_ipc ps) = (b, d)" by force
    have "chans_ok (New_ipc ps)" by (simp add: chans_ok_def New_ipc_def)
    from buffered_Connect [OF this cc] cc show ?thesis
      by (simp add: fifo_inv_def sys_init_def buffered_def New_ipc_def List.map_filter_def)
  qed
  ultimately show ?thesis
    unfolding ireachable_def using ipc_fifo.run_keeps_all sys_inv_init by blast
qed

lemma ireachable_bcast: "ireachable parseFrame decode c ps s \<Longrightarrow> bcast_inv s"
proof -
  assume "ireachable parseFrame decode c ps s"
  moreover have "bcast_inv (sys_init c ps env)" for env
    unfolding bcast_inv_def by (rule exI [of _ 0]) (simp add: sys_init_def alternating_def)
  ultimately show ?thesis unfolding ireachable_def using ipc_bcast.run_keeps_all by blast
qed

section \<open>The health check\<close>

definition pong_ok :: "HealthCheckManager \<Rightarrow> bool" where
  "pong_ok h \<longleftrightarrow> \<not> ch_closed (hc_pong h) \<and> ch_cap (hc_pong h) = 1 \<and> chan_ok (hc_pong h) \<and>
     0 \<le> hc_timeout h"

definition hc_inv :: "sys \<Rightarrow> bool" where
  "hc_inv s \<longleftrightarrow> 0 \<le> HealthCheckTimeout (cfg s) \<and> (\<forall>h. hcm s = Some h \<longrightarrow> pong_ok h)"

lemma pong_ok_ops:
  assumes "pong_ok h"
  shows "pong_ok (HandlePong h)" and "pong_ok (HC_Stop h)" and "pong_ok (HC_ping err t h)"
    and "HC_pong_received h = Some h' \<Longrightarrow> pong_ok h'" and "pong_ok (HC_return h)"
  using assms
  by (auto simp: pong_ok_def HC_return_def HandlePong_def HC_Stop_def HC_ping_def HC_pong_received_def
      send_or_drop_open tryRecv_def chan_ok_def Let_def split: list.splits option.splits if_splits)

text \<open>A pong counts exactly if it arrives after the ping.\<close>

lemma HC_round:
  assumes "pong_ok h"
  shows "HC_pong_received (HC_ping None t h) = None"
    and "\<exists>h'. HC_pong_received (HandlePong (HC_ping None t h)) = Some h' \<and> hc_pc h' = HC_Idle"
proof -
  have len: "length (ch_buf (hc_pong h)) \<le> 1" using assms by (simp add: pong_ok_def chan_ok_def)
  have "ch_buf (hc_pong (HC_ping None t h)) = []"
  proof (cases "ch_buf (hc_pong h)")
    case Nil
    then show ?thesis by (simp add: HC_ping_def tryRecv_def)
  next
    case (Cons x xs)
    with len show ?thesis by (simp add: HC_ping_def tryRecv_def)
  qed
  moreover have "pong_ok (HC_ping None t h)" by (rule pong_ok_ops(3) [OF assms])
  ultimately show "HC_pong_received (HC_ping None t h) = None"
    "\<exists>h'. HC_pong_received (HandlePong (HC_ping None t h)) = Some h' \<and> hc_pc h' = HC_Idle"
    by (simp_all add: HC_pong_received_def HandlePong_def send_or_drop_open tryRecv_def pong_ok_def)
qed

lemma pong_ok_start: "0 \<le> HealthCheckTimeout c \<Longrightarrow> pong_ok (HC_Start (NewHealthCheckManager c))"
  by (simp add: pong_ok_def HC_Start_def NewHealthCheckManager_def nanos_def)

lemma hc_frame: "hcm t = hcm s \<Longrightarrow> cfg t = cfg s \<Longrightarrow> hc_inv s \<Longrightarrow> hc_inv t"
  by (simp add: hc_inv_def)

lemma hc_upd: "hc_inv s \<Longrightarrow> pong_ok h \<Longrightarrow> hc_inv (s\<lparr>hcm := Some h\<rparr>)"
  by (simp add: hc_inv_def)

lemma sections_hc [simp]:
  "hcm (emit ch ev s) = hcm s" "cfg (emit ch ev s) = cfg s"
  "hcm (sup_retry s) = hcm s" "cfg (sup_retry s) = cfg s"
  "hcm (sup_timer env s) = hcm s" "cfg (sup_timer env s) = cfg s"
  "hcm (run_close ch res s) = hcm s" "cfg (run_close ch res s) = cfg s"
  "hcm (loop_fetch s) = hcm s" "cfg (loop_fetch s) = cfg s"
  "hcm (loop_leave s) = hcm s" "cfg (loop_leave s) = cfg s"
  "hcm (loop_event decode ch s) = hcm s" "cfg (loop_event decode ch s) = cfg s"
  by (simp_all add: emit_def sup_retry_def sup_timer_def run_close_def loop_fetch_def loop_leave_def
      loop_event_def Let_def split: option.split sum.split prod.split recv_result.split)

lemma hc_sections:
  assumes "hc_inv s"
  shows "hc_inv (sup_begin s)" and "hc_inv (sup_continue res s)"
    and "hc_inv (run_read parseFrame ch r s)" and "hc_inv (s\<lparr>hcm := map_option HC_Stop (hcm s), sup := p\<rparr>)"
  using assms pong_ok_start pong_ok_ops(1,2)
  by (auto simp: hc_inv_def sup_begin_def sup_continue_def run_read_def Let_def
      split: option.split run_next.split)

interpretation ipc_hc: step_invariant_all "istep parseFrame decode" hc_inv for parseFrame decode
proof unfold_locales
  fix l s t
  assume step: "istep parseFrame decode l s t" and inv: "hc_inv s"
  have ok: "pong_ok h" if "hcm s = Some h" for h using inv that by (simp add: hc_inv_def)
  from step show "hc_inv t"
  proof cases
    case (timeout h u)
    with hc_upd [OF hc_frame [OF _ _ inv], of "s\<lparr>cli := Close (cli s)\<rparr>" "HC_return h"]
      pong_ok_ops(5) [OF ok] show ?thesis by (simp add: HC_timed_out_def)
  qed (auto intro: hc_frame [OF _ _ inv] hc_sections [OF inv] hc_upd [OF inv] pong_ok_ops [OF ok] ok)
qed

lemma ireachable_hc: "ireachable parseFrame decode c ps s \<Longrightarrow> 0 \<le> HealthCheckTimeout c \<Longrightarrow> hc_inv s"
proof -
  assume "ireachable parseFrame decode c ps s" and "0 \<le> HealthCheckTimeout c"
  moreover from this(2) have "hc_inv (sys_init c ps env)" for env
    by (simp add: hc_inv_def sys_init_def)
  ultimately show ?thesis unfolding ireachable_def using ipc_hc.run_keeps_all by blast
qed

section \<open>What reaches the presence machine\<close>

lemma updates_well_formed:
  assumes "ireachable parseFrame decode c ps s" and "a \<in> set (updates s)"
  shows "well_formed a"
proof -
  have "a \<in> set (List.map_filter (\<lambda>x. event_activity decode (snd x)) (consumed s))"
    using ireachable_fifo [OF assms(1)] assms(2) by (simp add: fifo_inv_def)
  then obtain ev where "event_activity decode ev = Some a"
    by (auto simp: List.map_filter_def)
  then have "ParseActivityFrame decode (ev_Frame ev) = Inr a"
    by (auto simp: event_activity_def split: if_splits sum.splits)
  then obtain src where "ParseActivity (Some src) = Inr a"
    using ParseActivityFrame_Inr by blast
  then show ?thesis by (rule ParseActivity_well_formed)
qed

section \<open>Particular runs\<close>

lemma ireachable_init: "ireachable parseFrame decode c ps (sys_init c ps env)"
  unfolding ireachable_def by blast

lemma ireachable_step:
  "ireachable parseFrame decode c ps s \<Longrightarrow> istep parseFrame decode l s t \<Longrightarrow> ireachable parseFrame decode c ps t"
  unfolding ireachable_def by (blast intro: run_snoc)

lemma ireachable_to:
  "ireachable parseFrame decode c ps s \<Longrightarrow> istep parseFrame decode l s t \<Longrightarrow> t = u \<Longrightarrow>
   ireachable parseFrame decode c ps u"
  by (auto intro: ireachable_step)

text \<open>The system during its first session, whose client answers at the only path.\<close>

definition first_session :: "DiscordConfig \<Rightarrow> string \<Rightarrow> sys" where
  "first_session c p =
     \<lparr>cli = \<lparr>ipc_paths = [p], ipcConn = Some 0, ipc_user = [], ipc_state = IPC_Connected,
        ipc_events = Some 0, has_healthCheck = True, socks = {0}, next_sock = 1,
        chans = [0 \<mapsto> make_chan 64], next_chan = 1\<rparr>,
      hcm = Some (HC_Start (NewHealthCheckManager c)), rm = NewReconnectManager c, cfg = c,
      sup = Sup_Running, runner = Run_reading 0, looper = Loop_Top, ctx_done = False, now = 0,
      bcasts = [], updates = [], emitted = [], consumed = [], sys_panic = False\<rparr>"

lemma first_session_reachable: "ireachable parseFrame decode c [p] (first_session c p)"
proof (rule ireachable_to [OF ireachable_init istep.top])
  show "sup_begin (sys_init c [p] (\<lambda>_. Ready None)) = first_session c p"
    by (simp add: sup_begin_def sys_init_def Connect_def New_ipc_def setState_def start_session_def
        displayName_def eventBufferSize_def first_session_def)
  show "sup (sys_init c [p] (\<lambda>_. Ready None)) = Sup_Top" by (simp add: sys_init_def)
qed

text \<open>
  A frame that does not parse: the consumer takes its error event for the end of the session, goes
  round its loop and finds the same session again.
\<close>

lemma bad_frame_run:
  assumes bad: "parseFrame bad = None"
  shows "\<exists>s. ireachable parseFrame decode c [p] s \<and> ipc_state (cli s) = IPC_Connected \<and>
    runner s = Run_reading 0 \<and> looper s = Loop_Range 0 \<and> bcasts s =
      [NewStateMessage StateConnected [], NewStateMessage StateReconnecting [], NewStateMessage StateConnected []]"
proof -
  let ?r = "ireachable parseFrame decode c [p]"
  let ?s0 = "first_session c p"
  let ?s1 = "run_read parseFrame 0 (Read_ok OpFrame bad) ?s0"
  let ?s2 = "loop_fetch ?s1"
  let ?s3 = "loop_event decode 0 ?s2"
  let ?s4 = "loop_fetch ?s3"
  note defs = first_session_def run_read_def Run_read_def opcode_defs bad emit_def emitEvent_def
    send_or_drop_open has_room_def loop_fetch_def loop_event_def loop_leave_def tryRecv_def Let_def
  have 1: "?r ?s1"
    by (rule ireachable_step [OF first_session_reachable istep.read]) (simp add: first_session_def)
  have 2: "?r ?s2" by (rule ireachable_step [OF 1 istep.fetch]) (simp add: defs)
  have 3: "?r ?s3" by (rule ireachable_step [OF 2 istep.event]) (simp add: defs)
  have 4: "?r ?s4" by (rule ireachable_step [OF 3 istep.fetch]) (simp add: defs)
  have "ipc_state (cli ?s4) = IPC_Connected \<and> runner ?s4 = Run_reading 0 \<and> looper ?s4 = Loop_Range 0 \<and>
    bcasts ?s4 = [NewStateMessage StateConnected [], NewStateMessage StateReconnecting [],
      NewStateMessage StateConnected []]"
    by (simp add: defs)
  with 4 show ?thesis by blast
qed

text \<open>
  Discord closes the session and the supervisor connects again: the socket of the first session is
  still open.
\<close>

lemma second_session_run:
  assumes auto: "AutoReconnect c"
  shows "\<exists>s. ireachable parseFrame decode c [p] s \<and> sup s = Sup_Top \<and> ipcConn (cli s) = Some 1 \<and>
    socks (cli s) = {0, 1}"
proof -
  let ?r = "ireachable parseFrame decode c [p]"
  let ?s0 = "first_session c p"
  let ?s1 = "run_read parseFrame 0 (Read_ok OpClose []) ?s0"
  let ?ev = "\<lparr>ev_Opcode = OpClose, ev_Frame = None, ev_Err = Some Closed_by_Discord\<rparr>"
  let ?s2 = "(emit 0 ?ev ?s1)\<lparr>runner := Run_forgetting 0 None\<rparr>"
  let ?s3 = "?s2\<lparr>cli := forget_events 0 (cli ?s2), runner := Run_closing 0 None\<rparr>"
  let ?s4 = "run_close 0 None ?s3"
  let ?s5 = "?s4\<lparr>sup := Sup_After None\<rparr>"
  let ?s6 = "?s5\<lparr>hcm := map_option HC_Stop (hcm ?s5), sup := Sup_Await None\<rparr>"
  let ?h = "HC_Stop (HC_Start (NewHealthCheckManager c))"
  let ?s7 = "?s6\<lparr>hcm := Some (HC_return ?h)\<rparr>"
  let ?s8 = "sup_continue None ?s7"
  let ?s9 = "sup_retry ?s8"
  let ?s10 = "sup_timer (\<lambda>_. Ready None) ?s9"
  note defs = first_session_def run_read_def Run_read_def opcode_defs emit_def emitEvent_def
    send_or_drop_open has_room_def setState_def forget_events_def run_close_def close_events_def
    closeChan_def sup_continue_def sup_retry_def sup_timer_def Reconnect_before_def
    Reconnect_after_def Connect_def start_session_def maxReconnectAttempts_def
    NewReconnectManager_def auto HC_return_def HC_Stop_def HC_Start_def NewHealthCheckManager_def Let_def
  have 1: "?r ?s1"
    by (rule ireachable_step [OF first_session_reachable istep.read]) (simp add: first_session_def)
  have 2: "?r ?s2" by (rule ireachable_step [OF 1 istep.terminal]) (simp_all add: defs)
  have 3: "?r ?s3" by (rule ireachable_step [OF 2 istep.forget]) (simp add: defs)
  have 4: "?r ?s4" by (rule ireachable_step [OF 3 istep.close]) (simp add: defs)
  have 5: "?r ?s5" by (rule ireachable_step [OF 4 istep.run_done]) (simp_all add: defs)
  have 6: "?r ?s6" by (rule ireachable_step [OF 5 istep.stop_hc]) (simp add: defs)
  have 7: "?r ?s7" by (rule ireachable_step [OF 6 istep.hc_exit [where h = ?h]]) (simp_all add: defs)
  have 8: "?r ?s8" by (rule ireachable_step [OF 7 istep.await_hc]) (simp_all add: defs)
  have 9: "?r ?s9" by (rule ireachable_step [OF 8 istep.retry]) (simp add: defs)
  have 10: "?r ?s10" by (rule ireachable_step [OF 9 istep.dial]) (simp add: defs)
  have "sup ?s10 = Sup_Top \<and> ipcConn (cli ?s10) = Some 1 \<and> socks (cli ?s10) = {0, 1}"
    by (auto simp: defs)
  with 10 show ?thesis by blast
qed

text \<open>A frame with an activity is read and handled.\<close>

definition text_frame :: "string \<Rightarrow> ResponseFrame option" where
  "text_frame d = Some (Some (Some (J_str d)))"

definition quiet_config :: DiscordConfig where
  "quiet_config = \<lparr>dc_ClientID = ''1'', AutoReconnect = True, ReconnectBaseInterval = 5000000000,
     MaxReconnectInterval = 60000000000, HealthCheckInterval = 0, HealthCheckTimeout = 0, CoalesceInterval = 0\<rparr>"

lemma plain_frame_run:
  "\<exists>s. ireachable text_frame (\<lambda>_. Some plain_source) c [p] s \<and> updates s = [plain_activity] \<and>
     hcm s = Some (HC_Start (NewHealthCheckManager c))"
proof -
  let ?r = "ireachable text_frame (\<lambda>_. Some plain_source) c [p]"
  let ?s1 = "run_read text_frame 0 (Read_ok OpFrame []) (first_session c p)"
  let ?s2 = "loop_fetch ?s1"
  let ?s3 = "loop_event (\<lambda>_. Some plain_source) 0 ?s2"
  note defs = first_session_def run_read_def Run_read_def opcode_defs emit_def emitEvent_def text_frame_def
    send_or_drop_open has_room_def loop_fetch_def loop_event_def tryRecv_def Let_def
    event_activity_def ParseActivityFrame_def ParseActivityData_def plain_parses
  have 1: "?r ?s1"
    by (rule ireachable_step [OF first_session_reachable istep.read]) (simp add: first_session_def)
  have 2: "?r ?s2" by (rule ireachable_step [OF 1 istep.fetch]) (simp add: defs)
  have 3: "?r ?s3" by (rule ireachable_step [OF 2 istep.event]) (simp add: defs)
  have "updates ?s3 = [plain_activity] \<and> hcm ?s3 = Some (HC_Start (NewHealthCheckManager c))"
    by (simp add: defs)
  with 3 show ?thesis by blast
qed

end
