(* ===== verification/Presence.thy ===== *)
theory Presence
  imports Activity
begin

text \<open>
  The presence state machine, \<open>internal/state/presence.go\<close>: the cached activity, the debouncing
  timer with its generation counter, change detection against the last notified activity,
  subscribers and the bounded fan-out of callbacks.

  \<open>Presence\<close> is the Go struct.  \<open>psys\<close> puts it into its runtime: the clock, the timers that
  \<open>time.AfterFunc\<close> armed (named by the generation they were created for, with their deadline),
  the timer goroutines that have started but not yet taken the mutex (\<open>fired\<close>), the \<open>run\<close>
  goroutines with their stop and done channels (numbered by the \<open>Start\<close> that made them), the
  goroutines inside \<open>notify\<close> and the callbacks holding a semaphore slot.  Every section of code
  executed under \<open>p.mu\<close> or \<open>p.subMu\<close> is one step of \<open>pstep\<close>, so all interleavings of those sections
  are covered.  \<open>notified\<close> is a history variable: the activities handed to \<open>notify\<close> since the last
  \<open>Start\<close>.  Counters are natural numbers: wrapping \<open>uint64\<close> would take 2^64 updates.
\<close>

record PresenceUpdate =
  upd_Activity :: Activity
  upd_Timestamp :: instant

type_synonym subscriber = "nat \<times> nat"  \<comment> \<open>id and callback\<close>

record Presence =
  cached :: Activity
  hasSource :: bool
  lastNotified :: Activity
  subscribers :: "nat \<rightharpoonup> nat"
  nextSubID :: nat
  timer :: "nat option"
  interval :: int
  stopCh :: "nat option"
  doneCh :: "nat option"
  gen :: nat
  stopped :: bool
  notifySem :: nat

definition DefaultMaxConcurrentCallbacks :: nat where
  "DefaultMaxConcurrentCallbacks = 50"

record psys =
  pres :: Presence
  clock :: instant
  armed :: "nat \<rightharpoonup> instant"
  fired :: "nat list"
  next_run :: nat
  runs :: "nat set"
  closed :: "nat set"
  cancelled :: "nat set"
  exited :: "nat set"
  notifying :: "(PresenceUpdate \<times> subscriber list option) list"
  callbacks :: "(subscriber \<times> PresenceUpdate) list"
  invoked :: "(subscriber \<times> PresenceUpdate) list"
  notified :: "Activity list"

section \<open>Operations\<close>

definition NewPresence :: "int \<Rightarrow> Presence" where
  "NewPresence d =
     \<lparr>cached = zero_activity, hasSource = False, lastNotified = zero_activity,
      subscribers = Map.empty, nextSubID = 0, timer = None,
      interval = (if d \<le> 0 then 50 * 1000000 else d), stopCh = None, doneCh = None, gen = 0,
      stopped = False, notifySem = 0\<rparr>"

text \<open>\<open>Start\<close> makes fresh stop and done channels and launches \<open>run\<close> with both as parameters.\<close>

definition Start :: "psys \<Rightarrow> psys" where
  "Start s =
     (let n = next_run s
      in s\<lparr>pres := (pres s)\<lparr>stopCh := Some n, doneCh := Some n, stopped := False,
                             hasSource := False, lastNotified := zero_activity\<rparr>,
           next_run := Suc n, runs := insert n (runs s), notified := []\<rparr>)"

text \<open>The locked part of \<open>Stop\<close>; the call then waits for the done channel (\<open>stop_returns\<close>).\<close>

definition Stop :: "psys \<Rightarrow> psys" where
  "Stop s =
     (let p = (pres s)\<lparr>stopped := True\<rparr>
      in (case stopCh p of
            None \<Rightarrow> s\<lparr>pres := p\<rparr>
          | Some n \<Rightarrow> s\<lparr>pres := p\<lparr>stopCh := None\<rparr>, closed := insert n (closed s)\<rparr>))"

definition stop_returns :: "psys \<Rightarrow> bool" where
  "stop_returns s = (case doneCh (pres s) of None \<Rightarrow> True | Some n \<Rightarrow> n \<in> exited s)"

definition stop_timer :: "nat option \<Rightarrow> (nat \<rightharpoonup> instant) \<Rightarrow> (nat \<rightharpoonup> instant)" where
  "stop_timer t ar = (case t of None \<Rightarrow> ar | Some g \<Rightarrow> ar(g := None))"

definition Update :: "Activity \<Rightarrow> psys \<Rightarrow> psys" where
  "Update a s =
     (let p = pres s
      in if stopped p then s
         else let g = Suc (gen p)
              in s\<lparr>pres := p\<lparr>cached := Clone a, hasSource := True, gen := g, timer := Some g\<rparr>,
                   armed := (stop_timer (timer p) (armed s))(g \<mapsto> clock s + interval p)\<rparr>)"

definition Current :: "Presence \<Rightarrow> Activity" where
  "Current p = Clone (cached p)"

definition Snapshot :: "Presence \<Rightarrow> PresenceSnapshot" where
  "Snapshot p =
     (if \<not> hasSource p then \<lparr>Source = SourceNone, snap_Activity = None\<rparr>
      else \<lparr>Source = SourceIPC, snap_Activity = Some (Clone (cached p))\<rparr>)"

definition Subscribe :: "nat \<Rightarrow> Presence \<Rightarrow> Presence \<times> nat" where
  "Subscribe fn p =
     (let i = Suc (nextSubID p)
      in (p\<lparr>nextSubID := i, subscribers := (subscribers p)(i \<mapsto> fn)\<rparr>, i))"

definition Unsubscribe :: "nat \<Rightarrow> Presence \<Rightarrow> Presence" where
  "Unsubscribe i p = p\<lparr>subscribers := (subscribers p)(i := None)\<rparr>"

text \<open>
  \<open>flush\<close> up to the unlock; the update it hands to \<open>notify\<close>, if any, joins \<open>notifying\<close> with its
  subscriber list still to be read.
\<close>

definition flush :: "nat \<Rightarrow> psys \<Rightarrow> psys" where
  "flush g s =
     (let p = pres s
      in if g \<noteq> gen p \<or> stopped p then s
         else if Equals (cached p) (lastNotified p) then s\<lparr>pres := p\<lparr>timer := None\<rparr>\<rparr>
         else let u = \<lparr>upd_Activity = Clone (cached p), upd_Timestamp = clock s\<rparr>
              in s\<lparr>pres := p\<lparr>lastNotified := Clone (cached p), timer := None\<rparr>,
                   notifying := notifying s @ [(u, None)],
                   notified := notified s @ [upd_Activity u]\<rparr>)"

text \<open>The end of \<open>run\<close>: the timer is stopped under the lock, then \<open>done\<close> is closed.\<close>

definition run_exit :: "nat \<Rightarrow> psys \<Rightarrow> psys" where
  "run_exit n s =
     s\<lparr>pres := (pres s)\<lparr>timer := None\<rparr>, armed := stop_timer (timer (pres s)) (armed s),
       runs := runs s - {n}, exited := insert n (exited s)\<rparr>"

section \<open>The steps of the running system\<close>

datatype plabel =
    L_Start | L_Stop | L_Update Activity | L_Subscribe nat | L_Unsubscribe nat
  | L_Cancel nat | L_RunExit nat | L_Tick int | L_Fire nat | L_Flush nat
  | L_ReadSubs | L_Spawn | L_NotifyEnd | L_Callback "subscriber \<times> PresenceUpdate"

inductive pstep :: "plabel \<Rightarrow> psys \<Rightarrow> psys \<Rightarrow> bool" where
  start: "pstep L_Start s (Start s)"
| stop: "pstep L_Stop s (Stop s)"
| update: "pstep (L_Update a) s (Update a s)"
| subscribe: "pstep (L_Subscribe fn) s (s\<lparr>pres := fst (Subscribe fn (pres s))\<rparr>)"
| unsubscribe: "pstep (L_Unsubscribe i) s (s\<lparr>pres := Unsubscribe i (pres s)\<rparr>)"
| cancel: "n < next_run s \<Longrightarrow> pstep (L_Cancel n) s (s\<lparr>cancelled := insert n (cancelled s)\<rparr>)"
| run_exit: "n \<in> runs s \<Longrightarrow> n \<in> cancelled s \<or> n \<in> closed s \<Longrightarrow>
     pstep (L_RunExit n) s (run_exit n s)"
| tick: "0 \<le> d \<Longrightarrow> pstep (L_Tick d) s (s\<lparr>clock := clock s + d\<rparr>)"
| fire: "armed s g = Some t \<Longrightarrow> t \<le> clock s \<Longrightarrow>
     pstep (L_Fire g) s (s\<lparr>armed := (armed s)(g := None), fired := g # fired s\<rparr>)"
| flush: "g \<in> set (fired s) \<Longrightarrow>
     pstep (L_Flush g) s (flush g (s\<lparr>fired := remove1 g (fired s)\<rparr>))"
| read_subs: "notifying s = xs @ (u, None) # ys \<Longrightarrow> distinct subs \<Longrightarrow>
     set subs = {(i, fn). subscribers (pres s) i = Some fn} \<Longrightarrow>
     pstep L_ReadSubs s (s\<lparr>notifying := xs @ (u, Some subs) # ys\<rparr>)"
| spawn: "notifying s = xs @ (u, Some (c # cs)) # ys \<Longrightarrow>
     notifySem (pres s) < DefaultMaxConcurrentCallbacks \<Longrightarrow>
     pstep L_Spawn s (s\<lparr>notifying := xs @ (u, Some cs) # ys,
        pres := (pres s)\<lparr>notifySem := Suc (notifySem (pres s))\<rparr>,
        callbacks := callbacks s @ [(c, u)]\<rparr>)"
| notify_end: "notifying s = xs @ (u, Some []) # ys \<Longrightarrow>
     pstep L_NotifyEnd s (s\<lparr>notifying := xs @ ys\<rparr>)"
| callback: "callbacks s = xs @ c # ys \<Longrightarrow>
     pstep (L_Callback c) s (s\<lparr>callbacks := xs @ ys, invoked := invoked s @ [c],
        pres := (pres s)\<lparr>notifySem := notifySem (pres s) - 1\<rparr>\<rparr>)"

inductive_cases pstep_elim: "pstep l s s'"

inductive_simps pstep_flush_iff: "pstep (L_Flush g) s s'"

inductive_simps pstep_update_iff: "pstep (L_Update a) s s'"

definition psys_init :: "int \<Rightarrow> psys" where
  "psys_init d =
     \<lparr>pres = NewPresence d, clock = 0, armed = Map.empty, fired = [], next_run = 0, runs = {},
      closed = {}, cancelled = {}, exited = {}, notifying = [], callbacks = [], invoked = [],
      notified = []\<rparr>"

definition preachable :: "int \<Rightarrow> psys \<Rightarrow> bool" where
  "preachable d s \<longleftrightarrow> (\<exists>ls. run_of pstep ls (psys_init d) s)"

lemmas presence_defs [go_defs] =
  Start_def Stop_def Update_def flush_def run_exit_def Subscribe_def Unsubscribe_def
  stop_timer_def Let_def

end
