(* ===== verification/Presence_Inv.thy ===== *)
theory Presence_Inv
  imports Presence
begin

text \<open>
  Invariants of the presence state machine over all interleavings of its critical sections: at
  most the newest update has a live timer, consecutive notifications differ, the callback
  semaphore counts the running callbacks, and the stop protocol neither blocks nor closes a
  channel twice.  Each is one predicate, shown to be kept by every step; the reachable states
  inherit it through \<open>step_invariant\<close>.
\<close>

definition timer_inv :: "psys \<Rightarrow> bool" where
  "timer_inv s \<longleftrightarrow>
     (\<forall>g t. armed s g = Some t \<longrightarrow> g = gen (pres s) \<and> timer (pres s) = Some g) \<and>
     distinct (fired s) \<and> (\<forall>g\<in>set (fired s). g \<le> gen (pres s) \<and> armed s g = None)"

definition notified_inv :: "psys \<Rightarrow> bool" where
  "notified_inv s \<longleftrightarrow>
     lastNotified (pres s) = last (zero_activity # notified s) \<and>
     successively (\<lambda>x y. \<not> Equals y x) (zero_activity # notified s)"

definition sem_inv :: "psys \<Rightarrow> bool" where
  "sem_inv s \<longleftrightarrow> notifySem (pres s) = length (callbacks s) \<and>
     length (callbacks s) \<le> DefaultMaxConcurrentCallbacks"

definition stop_inv :: "psys \<Rightarrow> bool" where
  "stop_inv s \<longleftrightarrow>
     (\<forall>n. doneCh (pres s) = Some n \<longrightarrow>
        (n \<in> runs s \<or> n \<in> exited s) \<and> (stopCh (pres s) = Some n \<or> n \<in> closed s)) \<and>
     (\<forall>n. stopCh (pres s) = Some n \<longrightarrow> doneCh (pres s) = Some n \<and> n \<notin> closed s) \<and>
     (stopped (pres s) \<longrightarrow> stopCh (pres s) = None) \<and>
     runs s \<inter> exited s = {} \<and>
     (\<forall>n \<in> runs s \<union> exited s \<union> closed s. n < next_run s)"

interpretation timer: step_invariant_all pstep timer_inv
proof unfold_locales
  fix l s t
  assume "pstep l s t" and "timer_inv s"
  then show "timer_inv t"
    by (cases rule: pstep.cases)
      (auto simp: timer_inv_def presence_defs split: if_splits option.splits)
qed

interpretation notify: step_invariant_all pstep notified_inv
proof unfold_locales
  fix l s t
  assume "pstep l s t" and "notified_inv s"
  then show "notified_inv t"
    by (cases rule: pstep.cases)
      (auto simp: notified_inv_def presence_defs successively_Cons successively_append_iff
        split: if_splits option.splits)
qed

interpretation sem: step_invariant_all pstep sem_inv
proof unfold_locales
  fix l s t
  assume "pstep l s t" and "sem_inv s"
  then show "sem_inv t"
    by (cases rule: pstep.cases)
      (auto simp: sem_inv_def presence_defs split: if_splits option.splits)
qed

text \<open>The stop protocol reads few fields; a step that leaves them alone keeps its invariant.\<close>

definition stop_view :: "psys \<Rightarrow> nat option \<times> nat option \<times> bool \<times> nat set \<times> nat set \<times> nat set \<times> nat" where
  "stop_view s = (doneCh (pres s), stopCh (pres s), stopped (pres s), runs s, exited s, closed s, next_run s)"

lemma stop_inv_view: "stop_view s = stop_view t \<Longrightarrow> stop_inv s \<Longrightarrow> stop_inv t"
  by (simp add: stop_inv_def stop_view_def)

lemma stop_inv_Start: "stop_inv s \<Longrightarrow> stop_inv (Start s)"
  by (auto simp: stop_inv_def Start_def Let_def less_Suc_eq)

lemma stop_inv_Stop: "stop_inv s \<Longrightarrow> stop_inv (Stop s)"
  by (auto simp: stop_inv_def Stop_def Let_def split: option.splits)

lemma stop_inv_run_exit: "stop_inv s \<Longrightarrow> n \<in> runs s \<Longrightarrow> stop_inv (run_exit n s)"
  by (auto simp: stop_inv_def run_exit_def)

lemma stop_view_other [simp]:
  "stop_view (Update a s) = stop_view s" "stop_view (flush g s) = stop_view s"
  "stop_view (s\<lparr>pres := fst (Subscribe fn (pres s))\<rparr>) = stop_view s"
  "stop_view (s\<lparr>pres := Unsubscribe i (pres s)\<rparr>) = stop_view s"
  by (simp_all add: stop_view_def Update_def flush_def Subscribe_def Unsubscribe_def Let_def)

lemma stop_view_frame [simp]:
  "stop_view (s\<lparr>cancelled := c\<rparr>) = stop_view s" "stop_view (s\<lparr>clock := t\<rparr>) = stop_view s"
  "stop_view (s\<lparr>armed := ar\<rparr>) = stop_view s"
  "stop_view (s\<lparr>fired := fs\<rparr>) = stop_view s" "stop_view (s\<lparr>notifying := ns\<rparr>) = stop_view s"
  "stop_view (s\<lparr>notifying := ns, pres := (pres s)\<lparr>notifySem := k\<rparr>, callbacks := cs\<rparr>) = stop_view s"
  "stop_view (s\<lparr>callbacks := cs, invoked := is, pres := (pres s)\<lparr>notifySem := k\<rparr>\<rparr>) = stop_view s"
  by (simp_all add: stop_view_def)

lemma stop_view_step:
  assumes "pstep l s t" and "l \<noteq> L_Start" and "l \<noteq> L_Stop" and "\<forall>n. l \<noteq> L_RunExit n"
  shows "stop_view s = stop_view t"
  using assms by (cases rule: pstep.cases) simp_all

interpretation stop: step_invariant_all pstep stop_inv
proof unfold_locales
  fix l s t
  assume step: "pstep l s t" and inv: "stop_inv s"
  show "stop_inv t"
  proof (cases "l = L_Start \<or> l = L_Stop \<or> (\<exists>n. l = L_RunExit n)")
    case True
    with step inv show ?thesis
      by (auto elim!: pstep.cases intro: stop_inv_Start stop_inv_Stop stop_inv_run_exit)
  next
    case False
    with step inv show ?thesis
      by (blast intro: stop_inv_view stop_view_step)
  qed
qed

lemmas init_defs = psys_init_def NewPresence_def

lemma inv_init: "timer_inv (psys_init d)" "notified_inv (psys_init d)" "sem_inv (psys_init d)"
  "stop_inv (psys_init d)"
  by (simp_all add: init_defs timer_inv_def notified_inv_def sem_inv_def stop_inv_def)

lemma reachable_timer_inv: "preachable d s \<Longrightarrow> timer_inv s"
  unfolding preachable_def by (blast intro: timer.run_keeps_all inv_init)

lemma reachable_notified_inv: "preachable d s \<Longrightarrow> notified_inv s"
  unfolding preachable_def by (blast intro: notify.run_keeps_all inv_init)

lemma reachable_sem_inv: "preachable d s \<Longrightarrow> sem_inv s"
  unfolding preachable_def by (blast intro: sem.run_keeps_all inv_init)

lemma reachable_stop_inv: "preachable d s \<Longrightarrow> stop_inv s"
  unfolding preachable_def by (blast intro: stop.run_keeps_all inv_init)

lemma preachable_step: "preachable d s \<Longrightarrow> pstep l s t \<Longrightarrow> preachable d t"
  unfolding preachable_def by (blast intro: run_snoc)

lemma preachable_init: "preachable d (psys_init d)"
  unfolding preachable_def by blast

text \<open>The frozen part of a stopped machine: nothing but \<open>Start\<close> changes it.\<close>

definition frozen_view :: "psys \<Rightarrow> bool \<times> Activity \<times> bool \<times> Activity \<times> Activity list" where
  "frozen_view s = (stopped (pres s), cached (pres s), hasSource (pres s), lastNotified (pres s), notified s)"

interpretation frozen:
  step_invariant pstep "\<lambda>l. l \<noteq> L_Start" "\<lambda>t. frozen_view t = (True, a, h, n, ns)"
proof unfold_locales
  fix l s t
  assume lab: "l \<noteq> L_Start" and step: "pstep l s t" and "frozen_view s = (True, a, h, n, ns)"
  with step lab show "frozen_view t = (True, a, h, n, ns)"
    by (cases rule: pstep.cases)
      (auto simp: frozen_view_def presence_defs split: option.splits)
qed


text \<open>What a snapshot is made of: only \<open>Start\<close> and \<open>Update\<close> change it.\<close>

interpretation snap:
  step_invariant pstep "\<lambda>l. l \<noteq> L_Start \<and> (\<forall>a. l \<noteq> L_Update a)"
    "\<lambda>t. (hasSource (pres t), cached (pres t)) = v"
proof unfold_locales
  fix l s t
  assume lab: "l \<noteq> L_Start \<and> (\<forall>a. l \<noteq> L_Update a)" and step: "pstep l s t"
    and "(hasSource (pres s), cached (pres s)) = v"
  with step lab show "(hasSource (pres t), cached (pres t)) = v"
    by (cases rule: pstep.cases) (auto simp: presence_defs split: option.splits)
qed

text \<open>\<open>Stop\<close> has told the current run goroutine to end, so one step of it releases the caller.\<close>

lemma stop_released:
  assumes "stop_inv s"
  shows "stop_returns (Stop s) \<or> (\<exists>n t. pstep (L_RunExit n) (Stop s) t \<and> stop_returns t)"
proof (cases "doneCh (pres (Stop s))")
  case None
  then show ?thesis by (simp add: stop_returns_def)
next
  case (Some n)
  have inv: "stop_inv (Stop s)" by (rule stop_inv_Stop [OF assms])
  have "stopCh (pres (Stop s)) = None" by (simp add: Stop_def Let_def split: option.split)
  with inv Some have closed: "n \<in> closed (Stop s)" and live: "n \<in> runs (Stop s) \<or> n \<in> exited (Stop s)"
    by (auto simp: stop_inv_def)
  show ?thesis
  proof (cases "n \<in> exited (Stop s)")
    case True
    with Some show ?thesis by (simp add: stop_returns_def)
  next
    case False
    with live closed have "pstep (L_RunExit n) (Stop s) (run_exit n (Stop s))"
      by (intro pstep.run_exit) auto
    moreover have "stop_returns (run_exit n (Stop s))"
      using Some by (simp add: stop_returns_def run_exit_def)
    ultimately show ?thesis by blast
  qed
qed

text \<open>Callback concurrency is bounded.  In every reachable state at most 50 subscriber callbacks are
  in flight, and the semaphore holds exactly one slot per callback, so none leaks.\<close>

lemma callbacks_bounded:
  assumes "preachable d s"
  shows "length (callbacks s) \<le> DefaultMaxConcurrentCallbacks \<and>
    notifySem (pres s) = length (callbacks s)"
  using reachable_sem_inv [OF assms] by (simp add: sem_inv_def)

text \<open>The snapshot follows the updates at once, before any debouncing: after an update accepted by
  a running machine, and whatever runs short of another update or a restart, the snapshot is that
  activity with source \<open>ipc\<close>; after \<open>Start\<close> and until the first update it is \<open>none\<close> with no activity.\<close>

lemma snapshot_is_latest_update:
  assumes "L_Start \<notin> set ls" and "\<forall>b. L_Update b \<notin> set ls"
  shows "(run_of pstep ls (Start s) t \<longrightarrow>
      Snapshot (pres t) = \<lparr>Source = SourceNone, snap_Activity = None\<rparr>) \<and>
    (\<not> stopped (pres s) \<longrightarrow> run_of pstep ls (Update a s) t \<longrightarrow>
      Snapshot (pres t) = \<lparr>Source = SourceIPC, snap_Activity = Some a\<rparr>)"
proof -
  have "(hasSource (pres t), cached (pres t)) = (hasSource (pres u), cached (pres u))"
    if "run_of pstep ls u t" for u
    by (rule snap.run_keeps [OF that]) (use assms in \<open>auto simp: list_all_iff\<close>)
  from this [of "Start s"] this [of "Update a s"] show ?thesis
    by (auto simp: Snapshot_def Start_def Update_def Let_def)
qed

text \<open>In every reachable state, under every interleaving of updates, timer firings, stops and
  restarts, consecutive notifications differ: no notified activity equals the one before it, and the
  first does not equal the zero activity.  The machine's record of the last notification is accurate.\<close>

lemma notifications_are_changes:
  assumes "preachable d s"
  shows "successively (\<lambda>x y. \<not> Equals y x) (zero_activity # notified s) \<and>
    lastNotified (pres s) = last (zero_activity # notified s)"
  using reachable_notified_inv [OF assms] by (simp add: notified_inv_def)

text \<open>\<open>Stop\<close> returns and never closes a channel twice.  From every reachable state the call either
  finds nothing to wait for, or the run goroutine it has just told to end can end at once and
  releases it; the stop channel it closes was still open.\<close>

lemma stop_returns_without_panic:
  assumes "preachable d s"
  shows "(stop_returns (Stop s) \<or> (\<exists>n t. pstep (L_RunExit n) (Stop s) t \<and> stop_returns t)) \<and>
    (\<forall>n. stopCh (pres s) = Some n \<longrightarrow> n \<notin> psys.closed s)"
  using stop_released [OF reachable_stop_inv [OF assms]] reachable_stop_inv [OF assms]
  by (simp add: stop_inv_def)

end
