(* ===== verification/Presence_Sched.thy ===== *)
theory Presence_Sched
  imports Presence_Inv
begin

text \<open>
  The presence machine under a prompt scheduler, where a timer that is due runs its \<open>flush\<close> before
  anything else happens.  \<open>play\<close> feeds a schedule of updates, each with the time since the previous
  one, and \<open>settled\<close> says which of them survive the debounce: those followed by at least one
  interval of silence.  The machine notifies exactly the settled updates, less repeats.
\<close>

definition elapse :: "int \<Rightarrow> psys \<Rightarrow> psys" where
  "elapse d s =
     (let limit = clock s + d; g = gen (pres s)
      in (case armed s g of
            None \<Rightarrow> s
          | Some t \<Rightarrow> if t \<le> limit then flush g (s\<lparr>clock := t, armed := (armed s)(g := None)\<rparr>) else s)
         \<lparr>clock := limit\<rparr>)"

fun play :: "(int \<times> Activity) list \<Rightarrow> psys \<Rightarrow> psys" where
  "play [] s = s"
| "play ((d, a) # es) s = play es (Update a (elapse d s))"

fun settled :: "int \<Rightarrow> Activity \<Rightarrow> (int \<times> Activity) list \<Rightarrow> int \<Rightarrow> Activity list" where
  "settled i a [] e = (if i \<le> e then [a] else [])"
| "settled i a ((d, b) # es) e = (if i \<le> d then a # settled i b es e else settled i b es e)"

definition waiting :: "psys \<Rightarrow> Activity \<Rightarrow> bool" where
  "waiting s a \<longleftrightarrow> \<not> stopped (pres s) \<and> 0 < interval (pres s) \<and> cached (pres s) = a \<and>
     timer (pres s) = Some (gen (pres s)) \<and>
     armed s = [gen (pres s) \<mapsto> clock s + interval (pres s)]"

definition quiesced :: "psys \<Rightarrow> bool" where
  "quiesced s \<longleftrightarrow> \<not> stopped (pres s) \<and> 0 < interval (pres s) \<and>
     (armed s = Map.empty \<or> timer (pres s) = Some (gen (pres s)) \<and> (\<exists>t. armed s = [gen (pres s) \<mapsto> t]))"

lemma waiting_quiesced: "waiting s a \<Longrightarrow> quiesced s"
  by (auto simp: waiting_def quiesced_def)

lemma Update_waiting:
  assumes "quiesced s"
  shows "waiting (Update a s) a" and "notified (Update a s) = notified s"
    and "lastNotified (pres (Update a s)) = lastNotified (pres s)"
    and "interval (pres (Update a s)) = interval (pres s)"
  using assms
  by (auto simp: waiting_def quiesced_def Update_def stop_timer_def Let_def fun_eq_iff
      split: option.splits)

lemma elapse_early:
  assumes "waiting s a" and "d < interval (pres s)"
  shows "elapse d s = s\<lparr>clock := clock s + d\<rparr>" and "quiesced (elapse d s)"
  using assms by (auto simp: waiting_def elapse_def quiesced_def Let_def)

lemma elapse_due:
  assumes "waiting s a" and "interval (pres s) \<le> d"
  shows "quiesced (elapse d s)" and "armed (elapse d s) = Map.empty"
    and "interval (pres (elapse d s)) = interval (pres s)"
    and "notified (elapse d s) =
      notified s @ (if Equals a (lastNotified (pres s)) then [] else [a])"
    and "lastNotified (pres (elapse d s)) =
      (if Equals a (lastNotified (pres s)) then lastNotified (pres s) else a)"
  using assms by (auto simp: waiting_def elapse_def flush_def quiesced_def Let_def)

lemma notified_play:
  assumes "waiting s a" and "\<forall>(d, b) \<in> set es. 0 \<le> d" and "0 \<le> e"
  shows "notified (elapse e (play es s)) =
    notified s @ drop_repeats Equals (lastNotified (pres s)) (settled (interval (pres s)) a es e)"
  using assms
proof (induction es arbitrary: s a)
  case Nil
  show ?case
  proof (cases "interval (pres s) \<le> e")
    case True
    with Nil show ?thesis by (auto simp: elapse_due)
  next
    case False
    with Nil show ?thesis by (simp add: elapse_early)
  qed
next
  case (Cons x es)
  obtain d b where x: "x = (d, b)" by force
  let ?t = "elapse d s" and ?i = "interval (pres s)"
  let ?u = "Update b ?t"
  show ?case
  proof (cases "?i \<le> d")
    case True
    note due = elapse_due [OF Cons.prems(1) True]
    note upd = Update_waiting [OF due(1), of b]
    from Cons.IH [OF upd(1)] Cons.prems(2,3) True show ?thesis
      by (simp add: x upd due)
  next
    case False
    then have "d < ?i" by simp
    note early = elapse_early [OF Cons.prems(1) this]
    note upd = Update_waiting [OF early(2), of b]
    from Cons.IH [OF upd(1)] Cons.prems(2,3) False show ?thesis
      by (simp add: x upd) (simp add: early)
  qed
qed

lemma settled_dense: "\<forall>(d, b) \<in> set es. d < i \<Longrightarrow> e < i \<Longrightarrow> settled i a es e = []"
  by (induction i a es e rule: settled.induct) auto

lemma settled_burst: "\<forall>(d, b) \<in> set es. d < i \<Longrightarrow> i \<le> e \<Longrightarrow>
    settled i a es e = [last (a # map snd es)]"
  by (induction i a es e rule: settled.induct) auto

section \<open>The prompt schedules are runs of the machine\<close>

lemma elapse_run:
  assumes "0 \<le> d" and "\<forall>t. armed s (gen (pres s)) = Some t \<longrightarrow> clock s \<le> t"
  shows "\<exists>ls. run_of pstep ls s (elapse d s)"
proof (cases "armed s (gen (pres s))")
  case None
  with pstep.tick [OF assms(1), of s] show ?thesis
    by (auto simp: elapse_def Let_def intro: run_single)
next
  case (Some t)
  let ?g = "gen (pres s)" and ?limit = "clock s + d"
  show ?thesis
  proof (cases "t \<le> ?limit")
    case False
    with Some pstep.tick [OF assms(1), of s] show ?thesis
      by (auto simp: elapse_def Let_def intro: run_single)
  next
    case True
    let ?s1 = "s\<lparr>clock := t\<rparr>"
    let ?s2 = "?s1\<lparr>armed := (armed ?s1)(?g := None), fired := ?g # fired ?s1\<rparr>"
    let ?s3 = "flush ?g (?s2\<lparr>fired := remove1 ?g (fired ?s2)\<rparr>)"
    have "clock s \<le> t" using assms(2) Some by blast
    then have 1: "pstep (L_Tick (t - clock s)) s ?s1"
      using pstep.tick [of "t - clock s" s] by simp
    have 2: "pstep (L_Fire ?g) ?s1 ?s2"
      using Some by (intro pstep.fire [of _ _ t]) simp_all
    have 3: "pstep (L_Flush ?g) ?s2 ?s3"
      by (intro pstep.flush) simp
    have clk: "clock ?s3 = t" by (simp add: flush_def Let_def)
    have 4: "pstep (L_Tick (?limit - t)) ?s3 (?s3\<lparr>clock := ?limit\<rparr>)"
      using True pstep.tick [of "?limit - t" ?s3] clk by simp
    have "elapse d s = ?s3\<lparr>clock := ?limit\<rparr>"
      using Some True by (simp add: elapse_def flush_def Let_def)
    moreover have "run_of pstep [L_Tick (t - clock s), L_Fire ?g, L_Flush ?g, L_Tick (?limit - t)]
        s (?s3\<lparr>clock := ?limit\<rparr>)"
      by (rule run_Cons [where step = pstep, OF 1], rule run_Cons [where step = pstep, OF 2],
          rule run_Cons [where step = pstep, OF 3], rule run_single [where step = pstep, OF 4])
    ultimately show ?thesis by metis
  qed
qed

lemma Update_run: "run_of pstep [L_Update a] s (Update a s)"
  by (rule run_single [where step = pstep, OF pstep.update])

lemma waiting_deadline: "waiting s a \<Longrightarrow> \<forall>t. armed s (gen (pres s)) = Some t \<longrightarrow> clock s \<le> t"
  by (auto simp: waiting_def)

lemma elapse_quiesced: "waiting s a \<Longrightarrow> quiesced (elapse d s)"
  using elapse_due(1) elapse_early(2) by (metis not_le)

lemma play_run:
  assumes "waiting s a" and "\<forall>(d, b) \<in> set es. 0 \<le> d" and "0 \<le> e"
  shows "\<exists>ls. run_of pstep ls s (elapse e (play es s))"
  using assms
proof (induction es arbitrary: s a)
  case Nil
  then show ?case using elapse_run waiting_deadline by simp
next
  case (Cons x es)
  obtain d b where x: "x = (d, b)" by force
  have "\<exists>ls. run_of pstep ls s (elapse d s)"
    using elapse_run [OF _ waiting_deadline [OF Cons.prems(1)]] Cons.prems(2) x by simp
  moreover have "\<exists>ls. run_of pstep ls (Update b (elapse d s)) (elapse e (play es (Update b (elapse d s))))"
    using Cons.IH [OF Update_waiting(1) [OF elapse_quiesced [OF Cons.prems(1)]]] Cons.prems(2,3) by simp
  ultimately show ?case
    using Update_run run_append unfolding x play.simps by metis
qed

section \<open>From a fresh start\<close>

lemma fresh_quiesced: "quiesced (Start (psys_init d))"
  by (simp add: quiesced_def Start_def psys_init_def NewPresence_def Let_def)

lemma fresh_simps [simp]:
  "notified (Start (psys_init d)) = []" "lastNotified (pres (Start (psys_init d))) = zero_activity"
  "interval (pres (Start (psys_init d))) = interval (NewPresence d)"
  by (simp_all add: Start_def psys_init_def Let_def)

lemmas fresh_waiting = Update_waiting [OF fresh_quiesced]

lemma notified_fresh:
  assumes "\<forall>(g, b) \<in> set es. 0 \<le> g" and "0 \<le> e"
  shows "notified (elapse e (play es (Update a (Start (psys_init d))))) =
    drop_repeats Equals zero_activity (settled (interval (NewPresence d)) a es e)"
  using notified_play [OF fresh_waiting(1) assms] by (simp add: fresh_waiting)

lemma preachable_fresh:
  assumes "\<forall>(g, b) \<in> set es. 0 \<le> g" and "0 \<le> e"
  shows "preachable d (elapse e (play es (Update a (Start (psys_init d)))))"
proof -
  have "run_of pstep [L_Start] (psys_init d) (Start (psys_init d))"
    by (rule run_single [where step = pstep, OF pstep.start])
  with play_run [OF fresh_waiting(1) assms] Update_run show ?thesis
    unfolding preachable_def by (meson run_append)
qed

text \<open>A burst is coalesced.  If every further update comes before the interval has passed and
  then there is silence for at least an interval, the subscribers are told only the last activity of
  the burst, and nothing at all if it equals the zero activity.\<close>

lemma burst_coalesced:
  assumes "\<forall>(g, b) \<in> set es. 0 \<le> g \<and> g < interval (NewPresence d)" and "interval (NewPresence d) \<le> e"
  shows "notified (elapse e (play es (Update a (Start (psys_init d))))) =
    (if Equals (last (a # map snd es)) zero_activity then [] else [last (a # map snd es)])"
proof -
  have "0 \<le> e" using assms(2) by (simp add: NewPresence_def split: if_splits)
  moreover have "\<forall>(g, b) \<in> set es. 0 \<le> g" using assms(1) by auto
  moreover have "\<forall>(g, b) \<in> set es. g < interval (NewPresence d)" using assms(1) by auto
  ultimately show ?thesis
    using notified_fresh [of es e a d] settled_burst [OF _ assms(2), of es a] by simp
qed

text \<open>Continuous updates starve the subscribers.  While updates keep coming less than an interval
  apart, however many there are, nothing is notified: the timer is pushed back by every update.\<close>

lemma continuous_updates_silent:
  assumes "\<forall>(g, b) \<in> set es. 0 \<le> g \<and> g < interval (NewPresence d)"
    and "0 \<le> e" and "e < interval (NewPresence d)"
  shows "notified (elapse e (play es (Update a (Start (psys_init d))))) = []"
proof -
  have "\<forall>(g, b) \<in> set es. 0 \<le> g" and "\<forall>(g, b) \<in> set es. g < interval (NewPresence d)"
    using assms(1) by auto
  then show ?thesis
    using notified_fresh [OF _ assms(2), of es a d] settled_dense [OF _ assms(3), of es a] by simp
qed

end
