(* ===== verification/Hub.thy ===== *)
theory Hub
  imports Go_Chan Messages
begin

text \<open>
  The broadcast hub, \<open>internal/server/hub.go\<close>: registration, fan-out and shutdown of WebSocket
  clients, with the read and write pumps.

  A client is named by its id.  Its \<open>send\<close> channel holds messages (marshalled when queued); \<open>out\<close>
  is what its connection has been sent.  The hub's goroutine \<open>Run\<close>, the goroutines blocked in
  \<open>Register\<close>, the read pumps (reading, handling a message, unregistering, gone) and the write pumps
  run concurrently.  Each section under \<open>h.mu\<close>, each channel operation and each handled message is
  one step of \<open>hstep\<close>.  Sending on or closing a closed channel panics; the two flags record whether
  a section of the hub or a message handler did so.
\<close>

datatype reader = Not_started | Reading | Handling "json option" | Unregistering | Reader_gone

record Client =
  send :: "ServerMessage chan"
  events :: "string set"
  done_closed :: bool
  conn_open :: bool
  read_pump :: reader
  write_pump :: bool
  out :: "json list"

record Hub =
  clients :: "string set"
  objs :: "string \<rightharpoonup> Client"
  registering :: "string set"
  broadcast :: "ServerMessage chan"
  hub_done :: bool
  running :: bool
  ctx_done :: bool
  closing :: bool
  hub_ClientID :: string
  hub_panic :: bool
  reader_panic :: bool

definition NewHub :: "string \<Rightarrow> Hub" where
  "NewHub cid =
     \<lparr>clients = {}, objs = Map.empty, registering = {}, broadcast = make_chan 256,
      hub_done = False, running = True, ctx_done = False, closing = False, hub_ClientID = cid,
      hub_panic = False, reader_panic = False\<rparr>"

definition NewClient :: Client where
  "NewClient =
     \<lparr>send = make_chan 256, events = {}, done_closed = False, conn_open = True,
      read_pump = Not_started, write_pump = False, out = []\<rparr>"

definition ClientCount :: "Hub \<Rightarrow> nat" where
  "ClientCount h = card (clients h)"

section \<open>Sections of the hub\<close>

definition start_pumps :: "Client \<Rightarrow> Client" where
  "start_pumps c = c\<lparr>read_pump := Reading, write_pump := True\<rparr>"

definition Run_register :: "string \<Rightarrow> Hub \<Rightarrow> Hub" where
  "Run_register i h =
     h\<lparr>clients := insert i (clients h), registering := registering h - {i},
       objs := (objs h)(i := map_option start_pumps (objs h i))\<rparr>"

text \<open>\<open>close(client.send); close(client.Done)\<close>: \<open>None\<close> is the panic.\<close>

definition close_client :: "Client \<Rightarrow> Client option" where
  "close_client c =
     (case closeChan (send c) of
        None \<Rightarrow> None
      | Some ch \<Rightarrow> if done_closed c then None else Some (c\<lparr>send := ch, done_closed := True\<rparr>))"

text \<open>The \<open>unregister\<close> case of \<open>Run\<close>, then the rest of the read pump's deferred function.\<close>

definition Run_unregister :: "string \<Rightarrow> Hub \<Rightarrow> Hub" where
  "Run_unregister i h =
     (if i \<in> clients h then
        (case Option.bind (objs h i) close_client of
           None \<Rightarrow> h\<lparr>hub_panic := True\<rparr>
         | Some c \<Rightarrow> h\<lparr>clients := clients h - {i},
             objs := (objs h)(i \<mapsto> c\<lparr>conn_open := False, read_pump := Reader_gone\<rparr>)\<rparr>)
      else h\<lparr>objs := (objs h)(i := map_option
              (\<lambda>c. c\<lparr>conn_open := False, read_pump := Reader_gone\<rparr>) (objs h i))\<rparr>)"

text \<open>The message a broadcast is sent out as: a state message without an id gets the hub's.\<close>

definition stamp :: "Hub \<Rightarrow> ServerMessage \<Rightarrow> ServerMessage" where
  "stamp h m =
     (if sm_Type m = MsgTypeState \<and> sm_ClientID m = [] then m\<lparr>sm_ClientID := hub_ClientID h\<rparr> else m)"

definition offer :: "ServerMessage \<Rightarrow> Client \<Rightarrow> Client option" where
  "offer m c =
     (if sm_Type m \<in> events c
      then map_option (\<lambda>ch. c\<lparr>send := ch\<rparr>) (send_or_drop (send c) m)
      else Some c)"

text \<open>The \<open>broadcast\<close> case of \<open>Run\<close> for the message taken from the queue.\<close>

definition dispatch :: "ServerMessage \<Rightarrow> Hub \<Rightarrow> Hub" where
  "dispatch m0 h =
     (let m = stamp h m0
      in if \<exists>i\<in>clients h. Option.bind (objs h i) (offer m) = None then h\<lparr>hub_panic := True\<rparr>
         else h\<lparr>objs := (\<lambda>i. if i \<in> clients h then Option.bind (objs h i) (offer m) else objs h i)\<rparr>)"

definition Run_broadcast :: "Hub \<Rightarrow> Hub" where
  "Run_broadcast h =
     (case tryRecv (broadcast h) of
        Received m ch \<Rightarrow> dispatch m (h\<lparr>broadcast := ch\<rparr>)
      | _ \<Rightarrow> h)"

definition Broadcast :: "ServerMessage \<Rightarrow> Hub \<Rightarrow> Hub" where
  "Broadcast m h =
     (case trySend (broadcast h) m of
        Sent ch \<Rightarrow> h\<lparr>broadcast := ch\<rparr>
      | Send_full \<Rightarrow> h
      | Send_panic \<Rightarrow> h\<lparr>hub_panic := True\<rparr>)"

definition closeAllClients :: "Hub \<Rightarrow> Hub" where
  "closeAllClients h =
     (if \<exists>i\<in>clients h. Option.bind (objs h i) close_client = None then h\<lparr>hub_panic := True\<rparr>
      else h\<lparr>clients := {}, closing := True,
             objs := (\<lambda>i. if i \<in> clients h
               then map_option (\<lambda>c. c\<lparr>conn_open := False\<rparr>) (Option.bind (objs h i) close_client)
               else objs h i)\<rparr>)"

definition closeDone :: "Hub \<Rightarrow> Hub" where
  "closeDone h = h\<lparr>hub_done := True\<rparr>"

definition Close_hub :: "Hub \<Rightarrow> Hub" where
  "Close_hub h = closeDone (closeAllClients h)"

section \<open>The pumps\<close>

definition SendMessage :: "ServerMessage \<Rightarrow> Client \<Rightarrow> Client option" where
  "SendMessage m c = map_option (\<lambda>ch. c\<lparr>send := ch\<rparr>) (send_or_drop (send c) m)"

definition subscribe :: "string list \<Rightarrow> Client \<Rightarrow> Client" where
  "subscribe es c = c\<lparr>events := events c \<union> set es\<rparr>"

text \<open>
  The body of the read loop for one received document: \<open>get\<close> is what \<open>GetCurrentPresence\<close> returns at
  that moment (\<open>None\<close> when the function is nil), \<open>errtxt\<close> renders an error as text.
\<close>

definition handle_message ::
  "PresenceSnapshot option \<Rightarrow> (message_error \<Rightarrow> string) \<Rightarrow> string \<Rightarrow> json option \<Rightarrow> Client
    \<Rightarrow> Client option" where
  "handle_message get errtxt cid doc c =
     (case ParseClientMessage doc of
        Inl e \<Rightarrow> SendMessage (NewErrorMessage ErrCodeInvalidMessage (errtxt e)) c
      | Inr m \<Rightarrow>
          if cm_Type m = MsgTypeSubscribe then Some (subscribe (events_of m) c)
          else if cm_Type m = MsgTypeGetCurrent then
            (case get of None \<Rightarrow> Some c | Some snap \<Rightarrow> SendMessage (NewCurrentMessage snap [cid]) c)
          else SendMessage (NewErrorMessage ErrCodeInvalidMessage (errtxt (Unknown_type (cm_Type m)))) c)"

text \<open>One turn of the write loop on the send channel; \<open>ok\<close> says whether the write succeeds.\<close>

definition WritePump_step :: "bool \<Rightarrow> Client \<Rightarrow> Client option" where
  "WritePump_step ok c =
     (case tryRecv (send c) of
        Received m ch \<Rightarrow>
          Some (if ok then c\<lparr>send := ch, out := out c @ [json_of_server_message m]\<rparr>
                else c\<lparr>send := ch, write_pump := False, conn_open := False\<rparr>)
      | Recv_closed \<Rightarrow> Some (c\<lparr>write_pump := False, conn_open := False\<rparr>)
      | Recv_blocked \<Rightarrow> None)"

section \<open>The running hub\<close>

datatype hlabel =
    H_Connect string | H_Register string | H_RegisterAbort string
  | H_Unregister string | H_UnregisterAbort string
  | H_Broadcast ServerMessage | H_Dispatch
  | H_Cancel | H_RunCtx | H_RunDone | H_CloseClients | H_CloseDone
  | H_Recv string "json option" | H_ReadErr string
  | H_Handle string "PresenceSnapshot option" | H_Write string | H_Ping string

inductive hstep ::
  "(message_error \<Rightarrow> string) \<Rightarrow> hlabel \<Rightarrow> Hub \<Rightarrow> Hub \<Rightarrow> bool"
  for errtxt :: "message_error \<Rightarrow> string" where
  connect: "objs h i = None \<Longrightarrow> hstep errtxt (H_Connect i) h
     (h\<lparr>objs := (objs h)(i \<mapsto> NewClient), registering := insert i (registering h)\<rparr>)"
| register: "running h \<Longrightarrow> i \<in> registering h \<Longrightarrow> hstep errtxt (H_Register i) h (Run_register i h)"
| register_abort: "hub_done h \<Longrightarrow> i \<in> registering h \<Longrightarrow> hstep errtxt (H_RegisterAbort i) h
     (h\<lparr>registering := registering h - {i}, objs := (objs h)(i := map_option start_pumps (objs h i))\<rparr>)"
| unregister: "running h \<Longrightarrow> objs h i = Some c \<Longrightarrow> read_pump c = Unregistering \<Longrightarrow>
     hstep errtxt (H_Unregister i) h (Run_unregister i h)"
| unregister_abort: "hub_done h \<Longrightarrow> objs h i = Some c \<Longrightarrow> read_pump c = Unregistering \<Longrightarrow>
     hstep errtxt (H_UnregisterAbort i) h
       (h\<lparr>objs := (objs h)(i \<mapsto> c\<lparr>conn_open := False, read_pump := Reader_gone\<rparr>)\<rparr>)"
| broadcast: "hstep errtxt (H_Broadcast m) h (Broadcast m h)"
| dispatch: "running h \<Longrightarrow> ch_buf (broadcast h) \<noteq> [] \<Longrightarrow> hstep errtxt H_Dispatch h (Run_broadcast h)"
| cancel: "hstep errtxt H_Cancel h (h\<lparr>ctx_done := True\<rparr>)"
| run_ctx: "running h \<Longrightarrow> ctx_done h \<Longrightarrow>
     hstep errtxt H_RunCtx h (closeDone ((closeAllClients h)\<lparr>running := False\<rparr>))"
| run_done: "running h \<Longrightarrow> hub_done h \<Longrightarrow> hstep errtxt H_RunDone h (closeDone (h\<lparr>running := False\<rparr>))"
| close_clients: "hstep errtxt H_CloseClients h (closeAllClients h)"
| close_done: "closing h \<Longrightarrow> hstep errtxt H_CloseDone h (closeDone h)"
| recv: "objs h i = Some c \<Longrightarrow> read_pump c = Reading \<Longrightarrow> conn_open c \<Longrightarrow>
     hstep errtxt (H_Recv i doc) h (h\<lparr>objs := (objs h)(i \<mapsto> c\<lparr>read_pump := Handling doc\<rparr>)\<rparr>)"
| read_err: "objs h i = Some c \<Longrightarrow> read_pump c = Reading \<Longrightarrow>
     hstep errtxt (H_ReadErr i) h (h\<lparr>objs := (objs h)(i \<mapsto> c\<lparr>read_pump := Unregistering\<rparr>)\<rparr>)"
| handle: "objs h i = Some c \<Longrightarrow> read_pump c = Handling doc \<Longrightarrow>
     handle_message get errtxt (hub_ClientID h) doc c = Some c' \<Longrightarrow>
     hstep errtxt (H_Handle i get) h (h\<lparr>objs := (objs h)(i \<mapsto> c'\<lparr>read_pump := Reading\<rparr>)\<rparr>)"
| handle_panic: "objs h i = Some c \<Longrightarrow> read_pump c = Handling doc \<Longrightarrow>
     handle_message get errtxt (hub_ClientID h) doc c = None \<Longrightarrow>
     hstep errtxt (H_Handle i get) h (h\<lparr>reader_panic := True\<rparr>)"
| write_out: "objs h i = Some c \<Longrightarrow> write_pump c \<Longrightarrow> WritePump_step ok c = Some c' \<Longrightarrow>
     hstep errtxt (H_Write i) h (h\<lparr>objs := (objs h)(i \<mapsto> c')\<rparr>)"
| ping_fail: "objs h i = Some c \<Longrightarrow> write_pump c \<Longrightarrow>
     hstep errtxt (H_Ping i) h (h\<lparr>objs := (objs h)(i \<mapsto> c\<lparr>write_pump := False, conn_open := False\<rparr>)\<rparr>)"

definition hreachable :: "(message_error \<Rightarrow> string) \<Rightarrow> string \<Rightarrow> Hub \<Rightarrow> bool" where
  "hreachable errtxt cid h \<longleftrightarrow> (\<exists>ls. run_of (hstep errtxt) ls (NewHub cid) h)"

lemmas hub_section_defs [go_defs] =
  Run_register_def Run_unregister_def dispatch_def Run_broadcast_def Broadcast_def
  closeAllClients_def closeDone_def Let_def

section \<open>The invariant\<close>

text \<open>
  A registered client has open channels; the two channels of a client close together; while the hub
  has not begun to close, only a client whose read pump is gone has closed channels; a client waits
  for registration before its pumps run.
\<close>

definition client_ok :: "Client \<Rightarrow> bool" where
  "client_ok c \<longleftrightarrow> ch_closed (send c) = done_closed c \<and> chan_ok (send c) \<and> ch_cap (send c) = 256"

definition hub_inv :: "Hub \<Rightarrow> bool" where
  "hub_inv h \<longleftrightarrow>
     (\<forall>i c. objs h i = Some c \<longrightarrow> client_ok c) \<and>
     (\<forall>i\<in>clients h. \<exists>c. objs h i = Some c \<and> \<not> done_closed c \<and> read_pump c \<noteq> Not_started) \<and>
     (\<forall>i\<in>registering h. i \<notin> clients h \<and>
        (\<exists>c. objs h i = Some c \<and> \<not> done_closed c \<and> read_pump c = Not_started)) \<and>
     (\<not> closing h \<longrightarrow> \<not> hub_done h \<and>
        (\<forall>i c. objs h i = Some c \<longrightarrow> read_pump c \<noteq> Not_started \<and> read_pump c \<noteq> Reader_gone \<longrightarrow>
           i \<in> clients h)) \<and>
     (\<forall>i c. objs h i = Some c \<longrightarrow> read_pump c = Not_started \<longrightarrow> i \<in> registering h) \<and>
     \<not> ch_closed (broadcast h) \<and> chan_ok (broadcast h) \<and> ch_cap (broadcast h) = 256 \<and>
     \<not> hub_panic h \<and> (reader_panic h \<longrightarrow> closing h)"

end
