(* ===== verification/Http.thy ===== *)
theory Http
  imports Auth Messages Ratelimit Hub
begin

text \<open>
  The HTTP server: routing, authentication of the data routes, the gates before a WebSocket upgrade
  and the REST handlers, \<open>internal/server/http.go\<close>, \<open>ws.go\<close>, \<open>errors.go\<close>, \<open>metrics.go\<close>.  What the
  outside provides to one request (clock readings, the snapshot and IPC state at that moment, the
  result of the library's upgrade, the embedded files) is the record \<open>env\<close>.
\<close>

section \<open>Responses\<close>

text \<open>\<open>B_metrics\<close> is rendered by the Prometheus library, \<open>B_upgrade_failed\<close> by the WebSocket library.\<close>

datatype body = B_json json | B_text string | B_redirect string | B_metrics | B_upgraded | B_upgrade_failed

record Response =
  rs_status :: nat
  rs_type :: string
  rs_cookie :: "Cookie option"
  rs_protocol :: "string option"
  rs_body :: body

definition respond :: "nat \<Rightarrow> string \<Rightarrow> body \<Rightarrow> Response" where
  "respond st ty b = \<lparr>rs_status = st, rs_type = ty, rs_cookie = None, rs_protocol = None, rs_body = b\<rparr>"

definition json_response :: "nat \<Rightarrow> json \<Rightarrow> Response" where
  "json_response st j = respond st ''application/json'' (B_json j)"

definition writeAPIError :: "nat \<Rightarrow> ErrorCode \<Rightarrow> string \<Rightarrow> Response" where
  "writeAPIError st code msg =
     json_response st (J_obj [(''code'', J_str (error_code_string code)), (''error'', J_str msg)])"

text \<open>\<open>next\<close> is the result of the wrapped handler, \<open>None\<close> if it panicked.\<close>

definition RecoveryMiddleware :: "Response option \<Rightarrow> Response" where
  "RecoveryMiddleware nxt =
     (case nxt of None \<Rightarrow> writeAPIError 500 ErrCodeInternal ''internal server error'' | Some r \<Rightarrow> r)"

text \<open>What the library's upgrade does: a connection, an answer of its own with that status, or a panic.\<close>

datatype upgrade_result = Upgrade_ok | Upgrade_fails nat | Upgrade_panics

record env =
  t_since :: instant
  t_now :: instant
  cur_presence :: PresenceSnapshot
  cur_ipc :: string
  upgraded :: upgrade_result
  subprotos :: "string list"
  index_page :: "string option"
  static_file :: "Request \<Rightarrow> nat \<times> string"

section \<open>The server\<close>

datatype handler = Dashboard | WebSocket | Api_presence | Api_state | Health | Healthz | Readyz | Metrics_page

record Server =
  srv_auth :: "(Request \<Rightarrow> bool) option"
  ws_auth :: "(Request \<Rightarrow> bool) option"
  srv_wsPath :: string
  rateLimiter :: "RateLimiter option"
  connTracker :: "ConnectionTracker option"
  mux :: "(string \<times> handler) list"

datatype ServerOption =
    WithAuth "Request \<Rightarrow> bool" | WithWSPath string | WithRateLimiter RateLimiter
  | WithConnectionTracker ConnectionTracker | WithMetrics

text \<open>
  \<open>ServeMux.Handle\<close> panics (\<open>None\<close>) on a pattern already registered and on one without a slash at
  its front; patterns with a method, a host or wildcards do not occur.
\<close>

definition Handle :: "string \<Rightarrow> handler \<Rightarrow> (string \<times> handler) list \<Rightarrow> (string \<times> handler) list option" where
  "Handle p h m = (if take 1 p \<noteq> ''/'' \<or> p \<in> set (map fst m) then None else Some (m @ [(p, h)]))"

definition apply_option :: "ServerOption \<Rightarrow> Server \<Rightarrow> Server option" where
  "apply_option opt s =
     (case opt of
        WithAuth f \<Rightarrow> Some (s\<lparr>srv_auth := Some f, ws_auth := Some f\<rparr>)
      | WithWSPath p \<Rightarrow> Some (if p \<noteq> [] then s\<lparr>srv_wsPath := p\<rparr> else s)
      | WithRateLimiter rl \<Rightarrow> Some (s\<lparr>rateLimiter := Some rl\<rparr>)
      | WithConnectionTracker ct \<Rightarrow> Some (s\<lparr>connTracker := Some ct\<rparr>)
      | WithMetrics \<Rightarrow> map_option (\<lambda>m. s\<lparr>mux := m\<rparr>) (Handle ''/metrics'' Metrics_page (mux s)))"

fun handle_all :: "(string \<times> handler) list \<Rightarrow> (string \<times> handler) list \<Rightarrow> (string \<times> handler) list option" where
  "handle_all [] m = Some m"
| "handle_all ((p, h) # phs) m = Option.bind (Handle p h m) (handle_all phs)"

definition registerRoutes :: "Server \<Rightarrow> Server option" where
  "registerRoutes s = map_option (\<lambda>m. s\<lparr>mux := m\<rparr>)
     (handle_all [(''/'', Dashboard), (srv_wsPath s, WebSocket), (''/api/presence'', Api_presence),
        (''/api/state'', Api_state), (''/health'', Health), (''/healthz'', Healthz),
        (''/readyz'', Readyz)] (mux s))"

fun apply_options :: "ServerOption list \<Rightarrow> Server \<Rightarrow> Server option" where
  "apply_options [] s = Some s"
| "apply_options (opt # opts) s = Option.bind (apply_option opt s) (apply_options opts)"

definition NewServer :: "ServerOption list \<Rightarrow> Server option" where
  "NewServer opts =
     Option.bind (apply_options opts
        \<lparr>srv_auth = None, ws_auth = None, srv_wsPath = ''/ws'', rateLimiter = None, connTracker = None, mux = []\<rparr>)
       registerRoutes"

text \<open>
  The pattern a clean path selects: the path itself, else the longest registered subtree (a pattern
  ending in a slash) it lies under.
\<close>

definition longer :: "(string \<times> handler) \<Rightarrow> (string \<times> handler) option \<Rightarrow> (string \<times> handler) option" where
  "longer ph best =
     (case best of None \<Rightarrow> Some ph | Some b \<Rightarrow> if length (fst ph) > length (fst b) then Some ph else Some b)"

definition mux_match :: "(string \<times> handler) list \<Rightarrow> string \<Rightarrow> handler option" where
  "mux_match m p =
     (case map_of m p of
        Some h \<Rightarrow> Some h
      | None \<Rightarrow> map_option snd
          (fold longer (filter (\<lambda>ph. has_suffix (fst ph) ''/'' \<and> has_prefix p (fst ph)) m) None))"

section \<open>Authentication of the data routes\<close>

definition unauthorized_text :: string where
  "unauthorized_text = ''unauthorized: open with ?token=<token> or send Authorization: Bearer <token>'' @ [char_of (10::nat)]"

definition requireAuth :: "Server \<Rightarrow> bool \<Rightarrow> Request \<Rightarrow> Response \<Rightarrow> Response" where
  "requireAuth s apiRoute r nxt =
     (case srv_auth s of
        None \<Rightarrow> nxt
      | Some auth \<Rightarrow>
          if \<not> auth r then
            (if apiRoute then writeAPIError 401 ErrCodeUnauthorized ''unauthorized''
             else respond 401 ''text/plain; charset=utf-8'' (B_text unauthorized_text))
          else (let token = extractQueryToken r
                in if token \<noteq> [] then nxt\<lparr>rs_cookie := Some (setAuthCookie r token)\<rparr> else nxt))"

text \<open>\<open>AuthMiddleware\<close> of \<open>auth.go\<close>, around a handler that answers \<open>nxt\<close>.\<close>

definition AuthMiddleware :: "AuthConfig \<Rightarrow> Request \<Rightarrow> Response \<Rightarrow> Response" where
  "AuthMiddleware conf r nxt =
     (if \<not> BearerAuthFunc conf r then writeAPIError 401 ErrCodeUnauthorized ''unauthorized'' else nxt)"

section \<open>The REST handlers\<close>

definition handlePresence :: "env \<Rightarrow> Response" where
  "handlePresence e = json_response 200 (json_of_snapshot (cur_presence e))"

definition handleState :: "env \<Rightarrow> Response" where
  "handleState e = json_response 200 (J_obj [(''status'', J_str (cur_ipc e))])"

definition handleHealth :: "env \<Rightarrow> Response" where
  "handleHealth e = json_response 200 (J_obj [(''ipc'', J_str (cur_ipc e)), (''status'', J_str ''ok'')])"

definition handleHealthz :: Response where
  "handleHealthz = json_response 200 (J_obj [(''status'', J_str ''ok'')])"

definition handleReadyz :: "env \<Rightarrow> Response" where
  "handleReadyz e =
     (if cur_ipc e = StateConnected
      then json_response 200 (J_obj [(''ipc'', J_str ''connected''), (''status'', J_str ''ok'')])
      else json_response 503 (J_obj [(''ipc'', J_str ''disconnected''), (''status'', J_str ''not ready'')]))"

text \<open>\<open>html.EscapeString\<close> and \<open>strings.Replace(s, old, new, 1)\<close>.\<close>

fun EscapeString :: "string \<Rightarrow> string" where
  "EscapeString [] = []"
| "EscapeString (c # cs) =
     (if c = CHR ''&'' then ''&amp;''
      else if c = CHR 0x27 then ''&#39;''
      else if c = CHR ''<'' then ''&lt;''
      else if c = CHR ''>'' then ''&gt;''
      else if c = CHR 0x22 then ''&#34;''
      else [c]) @ EscapeString cs"

fun replace_first :: "string \<Rightarrow> string \<Rightarrow> string \<Rightarrow> string" where
  "replace_first old new [] = (if old = [] then new else [])"
| "replace_first old new (c # cs) =
     (if has_prefix (c # cs) old then new @ drop (length old) (c # cs)
      else c # replace_first old new cs)"

definition wsPathPlaceholder :: string where
  "wsPathPlaceholder = ''__WS_PATH__''"

definition serveDashboardIndex :: "env \<Rightarrow> Server \<Rightarrow> Response" where
  "serveDashboardIndex e s =
     (case index_page e of
        None \<Rightarrow> writeAPIError 500 ErrCodeInternal ''internal server error''
      | Some page \<Rightarrow> respond 200 ''text/html; charset=utf-8''
          (B_text (replace_first wsPathPlaceholder (EscapeString (srv_wsPath s)) page)))"

definition handleDashboard :: "env \<Rightarrow> Request \<Rightarrow> Server \<Rightarrow> Response" where
  "handleDashboard e r s =
     (if Path r = ''/'' \<or> Path r = ''/index.html'' then serveDashboardIndex e s
      else (case static_file e r of (st, txt) \<Rightarrow> respond st [] (B_text txt)))"

section \<open>The WebSocket route\<close>

definition subprotocolResponse :: "string list \<Rightarrow> string option" where
  "subprotocolResponse protos = find (\<lambda>p. has_prefix p subprotocolTokenPrefix) protos"

text \<open>
  \<open>WSHandler.ServeHTTP\<close>.  A successful upgrade hands its slot over to \<open>trackDisconnect\<close>; on every
  other way out, a panic included, the first deferred function gives the slot back, and after a panic
  the second answers 500.
\<close>

definition upgrade :: "env \<Rightarrow> Response" where
  "upgrade e =
     (case upgraded e of
        Upgrade_ok \<Rightarrow> (respond 101 [] B_upgraded)\<lparr>rs_protocol := subprotocolResponse (subprotos e)\<rparr>
      | Upgrade_fails st \<Rightarrow> respond st [] B_upgrade_failed
      | Upgrade_panics \<Rightarrow> writeAPIError 500 ErrCodeInternal ''internal server error'')"

definition WS_ServeHTTP :: "env \<Rightarrow> Request \<Rightarrow> Server \<Rightarrow> Response \<times> Server" where
  "WS_ServeHTTP e r s =
     (if (case ws_auth s of None \<Rightarrow> False | Some auth \<Rightarrow> \<not> auth r)
      then (writeAPIError 401 ErrCodeUnauthorized ''unauthorized'', s)
      else (case connTracker s of
              None \<Rightarrow> (upgrade e, s)
            | Some ct \<Rightarrow>
                (case TryAdd ct of
                   (False, _) \<Rightarrow> (writeAPIError 503 ErrCodeTooManyConns ''max connections reached'', s)
                 | (True, ct') \<Rightarrow>
                     (upgrade e, s\<lparr>connTracker := Some (if upgraded e = Upgrade_ok then ct' else Remove ct')\<rparr>))))"

definition rateLimitWS :: "env \<Rightarrow> Request \<Rightarrow> Server \<Rightarrow> Response \<times> Server" where
  "rateLimitWS e r s =
     (case rateLimiter s of
        None \<Rightarrow> WS_ServeHTTP e r s
      | Some rl \<Rightarrow>
          (case Allow (extractIP (RemoteAddr r)) (t_since e) (t_now e) rl of
             (False, rl') \<Rightarrow>
               (writeAPIError 429 ErrCodeRateLimited ''rate limit exceeded'', s\<lparr>rateLimiter := Some rl'\<rparr>)
           | (True, rl') \<Rightarrow> WS_ServeHTTP e r (s\<lparr>rateLimiter := Some rl'\<rparr>)))"

definition trackDisconnect :: "Server \<Rightarrow> Server" where
  "trackDisconnect s = s\<lparr>connTracker := map_option Remove (connTracker s)\<rparr>"

section \<open>Metrics\<close>

text \<open>
  A collector has a name under the namespace, a help text, a kind, and the value it reads from the live
  components at scrape time; the send counter is the only one with a value of its own.  Whether the
  Prometheus library accepts a set of names is the argument \<open>accepts\<close>; when it does not, \<open>MustRegister\<close>
  panics (\<open>None\<close>).
\<close>

definition metricsNamespace :: string where
  "metricsNamespace = ''discord_proxy''"

datatype collector_kind = Counter | Gauge

record sources =
  src_hub :: Hub
  src_ipc :: string
  src_limiter :: "RateLimiter option"
  src_sends :: nat

record collector =
  col_name :: string
  col_help :: string
  col_kind :: collector_kind
  col_read :: "sources \<Rightarrow> nat"

definition fq_name :: "collector \<Rightarrow> string" where
  "fq_name c = metricsNamespace @ ''_'' @ col_name c"

definition collectors :: "collector list" where
  "collectors =
     [\<lparr>col_name = ''ws_connected_clients'',
        col_help = ''Number of WebSocket clients currently connected to the hub.'', col_kind = Gauge,
        col_read = \<lambda>s. ClientCount (src_hub s)\<rparr>,
      \<lparr>col_name = ''ipc_connected'',
        col_help = ''Whether the Discord IPC connection is up (1) or down (0).'', col_kind = Gauge,
        col_read = \<lambda>s. if src_ipc s = StateConnected then 1 else 0\<rparr>,
      \<lparr>col_name = ''rate_limit_rejections_total'',
        col_help = ''Number of WebSocket upgrade requests rejected by the rate limiter.'', col_kind = Counter,
        col_read = \<lambda>s. case src_limiter s of None \<Rightarrow> 0 | Some rl \<Rightarrow> Rejections rl\<rparr>,
      \<lparr>col_name = ''presence_coalesced_sends_total'',
        col_help = ''Number of coalesced presence updates flushed to subscribers.'', col_kind = Counter,
        col_read = src_sends\<rparr>]"

definition NewMetrics :: "(string list \<Rightarrow> bool) \<Rightarrow> collector list option" where
  "NewMetrics accepts = (if accepts (map fq_name collectors) then Some collectors else None)"

definition scrape :: "(string list \<Rightarrow> bool) \<Rightarrow> sources \<Rightarrow> (string \<times> nat) list option" where
  "scrape accepts s = map_option (map (\<lambda>c. (fq_name c, col_read c s))) (NewMetrics accepts)"

definition RecordPresenceSend :: "nat \<Rightarrow> nat" where
  "RecordPresenceSend n = Suc n"

section \<open>Dispatching a request\<close>

definition maxRequestBodyBytes :: int where
  "maxRequestBodyBytes = 1048576"

definition run_handler :: "env \<Rightarrow> handler \<Rightarrow> Request \<Rightarrow> Server \<Rightarrow> Response \<times> Server" where
  "run_handler e h r s =
     (case h of
        Dashboard \<Rightarrow> (requireAuth s False r (handleDashboard e r s), s)
      | WebSocket \<Rightarrow> rateLimitWS e r s
      | Api_presence \<Rightarrow> (requireAuth s True r (handlePresence e), s)
      | Api_state \<Rightarrow> (requireAuth s True r (handleState e), s)
      | Health \<Rightarrow> (handleHealth e, s)
      | Healthz \<Rightarrow> (handleHealthz, s)
      | Readyz \<Rightarrow> (handleReadyz e, s)
      | Metrics_page \<Rightarrow> (respond 200 [] B_metrics, s))"

text \<open>
  \<open>ServeHTTP\<close> for a request whose path is clean; the catch-all route makes every one match.  No handler
  of the model panics outside the upgrade, so the outer middleware passes every response on.  The mux
  redirects a path that only lacks the slash of a registered subtree.
\<close>

definition needs_slash :: "(string \<times> handler) list \<Rightarrow> string \<Rightarrow> bool" where
  "needs_slash m p \<longleftrightarrow> p \<notin> set (map fst m) \<and> p @ ''/'' \<in> set (map fst m)"

definition ServeHTTP :: "env \<Rightarrow> Request \<Rightarrow> Server \<Rightarrow> Response \<times> Server" where
  "ServeHTTP e r s =
     (if ContentLength r > maxRequestBodyBytes
      then (writeAPIError 413 ErrCodePayloadTooLarge ''request body too large'', s)
      else if needs_slash (mux s) (Path r)
      then (respond 307 ''text/html; charset=utf-8'' (B_redirect (Path r @ ''/'')), s)
      else (case mux_match (mux s) (Path r) of
              None \<Rightarrow> (respond 404 ''text/plain; charset=utf-8'' (B_text ''404 page not found''), s)
            | Some h \<Rightarrow> (case run_handler e h r s of (resp, s') \<Rightarrow> (RecoveryMiddleware (Some resp), s'))))"

text \<open>\<open>Server.Close\<close> stops the rate limiter's clean-up goroutine; closing the stop channel is done once.\<close>

definition Close_server :: "Server \<Rightarrow> Server" where
  "Close_server s = s\<lparr>rateLimiter := map_option (\<lambda>rl. rl\<lparr>stop_closed := True\<rparr>) (rateLimiter s)\<rparr>"

section \<open>Routing\<close>

lemma handle_all_append:
  "handle_all phs m = Some m' \<longleftrightarrow>
     m' = m @ phs \<and> (\<forall>ph\<in>set phs. take 1 (fst ph) = ''/'' \<and> fst ph \<notin> set (map fst m)) \<and>
     distinct (map fst phs)"
proof (induction phs arbitrary: m)
  case Nil
  then show ?case by auto
next
  case (Cons ph phs)
  obtain p h where ph: "ph = (p, h)" by force
  show ?case
  proof (cases "Handle p h m")
    case None
    then show ?thesis by (auto simp: ph Handle_def split: if_splits)
  next
    case (Some m1)
    then have m1: "m1 = m @ [(p, h)]" "take 1 p = ''/''" "p \<notin> set (map fst m)"
      by (simp_all add: Handle_def split: if_splits)
    have "(\<forall>ph\<in>set phs. fst ph \<notin> set (map fst m1)) \<longleftrightarrow>
        (\<forall>ph\<in>set phs. fst ph \<notin> set (map fst m)) \<and> p \<notin> set (map fst phs)"
      by (auto simp: m1(1))
    then show ?thesis
      using Cons.IH [of m1] m1 Some by (auto simp: ph simp del: set_map)
  qed
qed

text \<open>The paths the server keeps for itself.\<close>

definition fixed_paths :: "string set" where
  "fixed_paths = {''/'', ''/api/presence'', ''/api/state'', ''/health'', ''/healthz'', ''/readyz''}"

definition routes_of :: "string \<Rightarrow> (string \<times> handler) list" where
  "routes_of ws = [(''/'', Dashboard), (ws, WebSocket), (''/api/presence'', Api_presence),
     (''/api/state'', Api_state), (''/health'', Health), (''/healthz'', Healthz), (''/readyz'', Readyz)]"

lemma registerRoutes_iff:
  "mux s = [] \<Longrightarrow> registerRoutes s = Some s' \<longleftrightarrow>
     take 1 (srv_wsPath s) = ''/'' \<and> srv_wsPath s \<notin> fixed_paths \<and> s' = s\<lparr>mux := routes_of (srv_wsPath s)\<rparr>"
  by (auto simp: registerRoutes_def handle_all_append routes_of_def fixed_paths_def
      simp del: handle_all.simps)

section \<open>The gates of the WebSocket route\<close>

lemma error_body [simp]: "rs_body (writeAPIError st code msg) \<noteq> B_upgraded"
  "rs_status (writeAPIError st code msg) = st" "rs_cookie (writeAPIError st code msg) = None"
  by (simp_all add: writeAPIError_def json_response_def respond_def)

lemma upgraded_iff [simp]: "rs_body (upgrade e) = B_upgraded \<longleftrightarrow> upgraded e = Upgrade_ok"
  by (simp add: upgrade_def respond_def split: upgrade_result.split)

definition admitted_by_limiter :: "env \<Rightarrow> Request \<Rightarrow> Server \<Rightarrow> bool" where
  "admitted_by_limiter e r s =
     (case rateLimiter s of None \<Rightarrow> True
      | Some rl \<Rightarrow> fst (Allow (extractIP (RemoteAddr r)) (t_since e) (t_now e) rl))"

definition authorized :: "(Request \<Rightarrow> bool) option \<Rightarrow> Request \<Rightarrow> bool" where
  "authorized auth r = (case auth of None \<Rightarrow> True | Some f \<Rightarrow> f r)"

definition slot_free :: "Server \<Rightarrow> bool" where
  "slot_free s = (case connTracker s of None \<Rightarrow> True | Some ct \<Rightarrow> Count ct < maxConn ct)"

lemma rateLimitWS_response:
  "fst (rateLimitWS e r s) =
     (if \<not> admitted_by_limiter e r s then writeAPIError 429 ErrCodeRateLimited ''rate limit exceeded''
      else if \<not> authorized (ws_auth s) r then writeAPIError 401 ErrCodeUnauthorized ''unauthorized''
      else if \<not> slot_free s then writeAPIError 503 ErrCodeTooManyConns ''max connections reached''
      else upgrade e)"
  by (auto simp: rateLimitWS_def WS_ServeHTTP_def admitted_by_limiter_def authorized_def slot_free_def
      TryAdd_def Count_def split: option.splits prod.splits bool.splits if_splits)

lemma rateLimitWS_tracker:
  assumes "\<forall>ct. connTracker s = Some ct \<longrightarrow> 0 \<le> Count ct"
  shows "connTracker (snd (rateLimitWS e r s)) =
     (if rs_body (fst (rateLimitWS e r s)) = B_upgraded
      then map_option (\<lambda>ct. snd (TryAdd ct)) (connTracker s) else connTracker s)"
proof (cases "upgraded e = Upgrade_ok")
  case True
  then show ?thesis
    by (auto simp: rateLimitWS_def WS_ServeHTTP_def TryAdd_def
        split: option.splits prod.splits bool.splits if_splits)
next
  case False
  with assms show ?thesis
    by (auto simp: rateLimitWS_def WS_ServeHTTP_def TryAdd_def Remove_def Count_def
        split: option.splits prod.splits bool.splits if_splits)
qed

section \<open>Slots and connections\<close>

text \<open>Requests arriving and connections ending, in any order; the number counts live connections.\<close>

datatype conn_event = Request_in env Request | Connection_gone

fun conn_step :: "conn_event \<Rightarrow> Server \<times> nat \<Rightarrow> Server \<times> nat" where
  "conn_step (Request_in e r) (s, live) =
     (case ServeHTTP e r s of (resp, s') \<Rightarrow> (s', if rs_body resp = B_upgraded then Suc live else live))"
| "conn_step Connection_gone (s, live) = (if live = 0 then (s, 0) else (trackDisconnect s, live - 1))"

definition slots_match :: "int \<Rightarrow> Server \<times> nat \<Rightarrow> bool" where
  "slots_match m sl \<longleftrightarrow> (\<exists>ct. connTracker (fst sl) = Some ct \<and> maxConn ct = m \<and>
     Count ct = int (snd sl) \<and> int (snd sl) \<le> max 0 m)"

lemma requireAuth_body: "rs_body nxt \<noteq> B_upgraded \<Longrightarrow> rs_body (requireAuth s b r nxt) \<noteq> B_upgraded"
  by (simp add: requireAuth_def respond_def Let_def split: option.split)

lemma rest_bodies [simp]:
  "rs_body (handlePresence e) \<noteq> B_upgraded" "rs_body (handleState e) \<noteq> B_upgraded"
  "rs_body (handleHealth e) \<noteq> B_upgraded" "rs_body handleHealthz \<noteq> B_upgraded"
  "rs_body (handleReadyz e) \<noteq> B_upgraded" "rs_body (handleDashboard e r s) \<noteq> B_upgraded"
  by (simp_all add: handlePresence_def handleState_def handleHealth_def handleHealthz_def
      handleReadyz_def handleDashboard_def serveDashboardIndex_def json_response_def respond_def
      split: option.split prod.split)

lemma ServeHTTP_cases:
  "rs_body (fst (ServeHTTP e r s)) \<noteq> B_upgraded \<and> snd (ServeHTTP e r s) = s \<or>
   ServeHTTP e r s = rateLimitWS e r s"
  by (auto simp: ServeHTTP_def run_handler_def requireAuth_body respond_def RecoveryMiddleware_def
      split: option.split handler.split prod.split)

lemma TryAdd_upgraded:
  assumes "rs_body (fst (rateLimitWS e r s)) = B_upgraded" and "connTracker s = Some ct"
  shows "Count ct < maxConn ct"
  using assms by (auto simp: rateLimitWS_response slot_free_def split: if_splits)

lemma slots_match_request:
  assumes "slots_match m (s, live)"
  shows "slots_match m (conn_step (Request_in e r) (s, live))"
proof -
  obtain ct where ct: "connTracker s = Some ct" "maxConn ct = m" "Count ct = int live" "int live \<le> max 0 m"
    using assms by (auto simp: slots_match_def)
  from ServeHTTP_cases [of e r s] show ?thesis
  proof
    assume "rs_body (fst (ServeHTTP e r s)) \<noteq> B_upgraded \<and> snd (ServeHTTP e r s) = s"
    with assms show ?thesis by (simp add: split_beta)
  next
    assume ws: "ServeHTTP e r s = rateLimitWS e r s"
    have trk: "connTracker (snd (rateLimitWS e r s)) =
        (if rs_body (fst (rateLimitWS e r s)) = B_upgraded then Some (snd (TryAdd ct)) else Some ct)"
      using rateLimitWS_tracker [of s e r] ct by simp
    show ?thesis
    proof (cases "rs_body (fst (rateLimitWS e r s)) = B_upgraded")
      case True
      with TryAdd_upgraded [OF True ct(1)] trk ct show ?thesis
        by (simp add: ws split_beta slots_match_def TryAdd_def Count_def)
    next
      case False
      with trk ct show ?thesis by (simp add: ws split_beta slots_match_def)
    qed
  qed
qed

lemma slots_match_run: "slots_match m sl \<Longrightarrow> slots_match m (fold conn_step evs sl)"
proof (induction evs arbitrary: sl)
  case Nil
  then show ?case by simp
next
  case (Cons ev evs)
  obtain s live where sl: "sl = (s, live)" by force
  have "slots_match m (conn_step ev sl)"
  proof (cases ev)
    case (Request_in e r)
    with Cons.prems sl slots_match_request show ?thesis by blast
  next
    case Connection_gone
    obtain ct where "connTracker s = Some ct" "maxConn ct = m" "Count ct = int live" "int live \<le> max 0 m"
      using Cons.prems by (auto simp: sl slots_match_def)
    then show ?thesis
      using Connection_gone by (auto simp add: sl slots_match_def trackDisconnect_def Remove_def Count_def)
  qed
  with Cons.IH show ?case by simp
qed

text \<open>Requests and disconnections never change the routes or the credentials asked for.\<close>

lemma ServeHTTP_frame:
  "srv_auth (snd (ServeHTTP e r s)) = srv_auth s" "ws_auth (snd (ServeHTTP e r s)) = ws_auth s"
  "mux (snd (ServeHTTP e r s)) = mux s"
  using ServeHTTP_cases [of e r s]
  by (auto simp: rateLimitWS_def WS_ServeHTTP_def split: option.splits prod.splits bool.splits if_splits)

lemma conn_run_frame:
  "srv_auth (fst (fold conn_step evs sl)) = srv_auth (fst sl) \<and>
   ws_auth (fst (fold conn_step evs sl)) = ws_auth (fst sl) \<and>
   mux (fst (fold conn_step evs sl)) = mux (fst sl)"
proof (induction evs arbitrary: sl)
  case (Cons ev evs)
  have "srv_auth (fst (conn_step ev sl)) = srv_auth (fst sl) \<and>
      ws_auth (fst (conn_step ev sl)) = ws_auth (fst sl) \<and> mux (fst (conn_step ev sl)) = mux (fst sl)"
    by (cases ev; cases sl) (simp_all add: ServeHTTP_frame split_beta trackDisconnect_def)
  with Cons.IH [of "conn_step ev sl"] show ?case by simp
qed simp

section \<open>The catch-all route\<close>

lemma fold_longer_None: "fold longer phs b = None \<longleftrightarrow> phs = [] \<and> b = None"
proof (induction phs arbitrary: b)
  case (Cons ph phs)
  have "longer ph b \<noteq> None" by (simp add: longer_def split: option.split)
  with Cons.IH [of "longer ph b"] show ?case by simp
qed simp

lemma mux_match_total:
  assumes "(''/'', h) \<in> set m" and "take 1 p = ''/''"
  shows "mux_match m p \<noteq> None"
proof -
  have "(''/'', h) \<in> set (filter (\<lambda>ph. has_suffix (fst ph) ''/'' \<and> has_prefix p (fst ph)) m)"
    using assms by (simp add: has_suffix_def has_prefix_def)
  then have "filter (\<lambda>ph. has_suffix (fst ph) ''/'' \<and> has_prefix p (fst ph)) m \<noteq> []" by force
  then have "fold longer (filter (\<lambda>ph. has_suffix (fst ph) ''/'' \<and> has_prefix p (fst ph)) m) None \<noteq> None"
    using fold_longer_None by blast
  then show ?thesis by (auto simp: mux_match_def split: option.split)
qed

section \<open>Escaping\<close>

lemma EscapeString_safe: "c \<in> set (EscapeString s) \<Longrightarrow> c \<notin> set [CHR ''<'', CHR ''>'', CHR 0x22, CHR 0x27]"
  by (induction s rule: EscapeString.induct) (auto split: if_splits)

end
