(* ===== verification/Platform.thy ===== *)
theory Platform
  imports Go_Strings
begin

text \<open>
  Where Discord's local socket may be, \<open>internal/platform/ipc_path.go\<close>: ten names under a directory of
  the platform.  \<open>getenv\<close> is the environment, the empty string for an unset variable.
\<close>

definition ipcNameCount :: nat where
  "ipcNameCount = 10"

definition unixPaths :: "(string \<Rightarrow> string) \<Rightarrow> string list" where
  "unixPaths getenv =
     (let base = getenv ''XDG_RUNTIME_DIR''; base = (if base = [] then ''/tmp'' else base)
      in map (\<lambda>i. base @ ''/discord-ipc-'' @ itoa (int i)) [0..<ipcNameCount])"

definition windowsPaths :: "string list" where
  "windowsPaths =
     map (\<lambda>i. [CHR 0x5C, CHR 0x5C] @ ''.'' @ [CHR 0x5C] @ ''pipe'' @ [CHR 0x5C] @ ''discord-ipc-'' @ itoa (int i))
       [0..<ipcNameCount]"

definition IPCPaths :: "string \<Rightarrow> (string \<Rightarrow> string) \<Rightarrow> string list" where
  "IPCPaths goos getenv = (if goos = ''windows'' then windowsPaths else unixPaths getenv)"

lemma numbered_distinct: "distinct (map (\<lambda>i. p @ itoa (int i)) [0..<ipcNameCount])"
  by (simp add: ipcNameCount_def upt_rec itoa_def itoa_nat.simps)

lemma IPCPaths_length: "length (IPCPaths goos getenv) = ipcNameCount"
  by (simp add: IPCPaths_def unixPaths_def windowsPaths_def Let_def)

lemma IPCPaths_distinct: "distinct (IPCPaths goos getenv)"
proof -
  have "distinct windowsPaths"
    using numbered_distinct [of "[CHR 0x5C, CHR 0x5C] @ ''.'' @ [CHR 0x5C] @ ''pipe'' @ [CHR 0x5C] @ ''discord-ipc-''"]
    by (simp only: windowsPaths_def append_assoc)
  moreover have "distinct (unixPaths getenv)"
    using numbered_distinct [of "(if getenv ''XDG_RUNTIME_DIR'' = [] then ''/tmp'' else getenv ''XDG_RUNTIME_DIR'') @ ''/discord-ipc-''"]
    by (simp only: unixPaths_def append_assoc Let_def)
  ultimately show ?thesis by (simp add: IPCPaths_def)
qed

end
