(* ===== verification/Mdns.thy ===== *)
theory Mdns
  imports Config Prelude
begin

text \<open>
  The mDNS announcement, \<open>internal/mdns/announce.go\<close> and \<open>signal.go\<close>.  Registering a service is the
  library zeroconf's: whether it succeeds is an argument.  Registrations are numbered in the order
  they are made, and \<open>net_live\<close> are those that have not been shut down.
\<close>

definition defaultServiceType :: string where "defaultServiceType = ''_discord-proxy._tcp''"
definition fallbackName :: string where "fallbackName = ''discord-proxy''"
definition domain :: string where "domain = ''local.''"
definition txtAPIVersion :: string where "txtAPIVersion = ''v=1''"

record Advertiser =
  adv_server :: "nat option"
  adv_cfg :: MdnsConfig
  adv_port :: int

datatype mdns_error = Invalid_port int | Already_advertising | Register_failed

text \<open>What is announced: instance, type, domain, port and text records.\<close>

type_synonym service = "string \<times> string \<times> string \<times> int \<times> string list"

record network =
  net_live :: "(nat \<times> service) list"
  net_next :: nat

definition NewAdvertiser :: "MdnsConfig \<Rightarrow> int \<Rightarrow> mdns_error + Advertiser" where
  "NewAdvertiser c port =
     (if port \<le> 0 \<or> port > 65535 then Inl (Invalid_port port)
      else let c = (if ServiceType c = [] then c\<lparr>ServiceType := defaultServiceType\<rparr> else c)
           in Inr \<lparr>adv_server = None, adv_cfg = c, adv_port = port\<rparr>)"

definition IsEnabled :: "Advertiser \<Rightarrow> bool" where
  "IsEnabled a = mdns_Enabled (adv_cfg a)"

text \<open>\<open>hostname\<close> is the result of \<open>os.Hostname\<close>, \<open>None\<close> for an error.\<close>

definition resolveInstanceName :: "string option \<Rightarrow> Advertiser \<Rightarrow> string" where
  "resolveInstanceName hostname a =
     (if InstanceName (adv_cfg a) \<noteq> [] then InstanceName (adv_cfg a)
      else case hostname of
             None \<Rightarrow> fallbackName
           | Some h \<Rightarrow> if h \<noteq> [] then h else fallbackName)"

definition Advertise ::
  "bool \<Rightarrow> string option \<Rightarrow> Advertiser \<times> network \<Rightarrow> mdns_error option \<times> Advertiser \<times> network" where
  "Advertise ok hostname an =
     (case an of (a, net) \<Rightarrow>
        if \<not> mdns_Enabled (adv_cfg a) then (None, a, net)
        else if adv_server a \<noteq> None then (Some Already_advertising, a, net)
        else let inst = resolveInstanceName hostname a
             in if \<not> ok then (Some Register_failed, a, net)
                else (None, a\<lparr>adv_server := Some (net_next net)\<rparr>,
                      net\<lparr>net_live := net_live net @ [(net_next net,
                            (inst, ServiceType (adv_cfg a), domain, adv_port a, [txtAPIVersion]))],
                          net_next := Suc (net_next net)\<rparr>))"

definition Mdns_Shutdown :: "Advertiser \<times> network \<Rightarrow> Advertiser \<times> network" where
  "Mdns_Shutdown an =
     (case an of (a, net) \<Rightarrow>
        (case adv_server a of
           None \<Rightarrow> (a, net)
         | Some n \<Rightarrow> (a\<lparr>adv_server := None\<rparr>, net\<lparr>net_live := filter (\<lambda>r. fst r \<noteq> n) (net_live net)\<rparr>)))"

text \<open>Both ways out of the wait, a signal or a cancelled context, shut the advertiser down.\<close>

datatype deregister_cause = Signal_received | Context_done

definition deregisterOnSignal :: "deregister_cause \<Rightarrow> Advertiser \<times> network \<Rightarrow> Advertiser \<times> network" where
  "deregisterOnSignal cause an =
     (case cause of Signal_received \<Rightarrow> Mdns_Shutdown an | Context_done \<Rightarrow> Mdns_Shutdown an)"

section \<open>One registration at most\<close>

text \<open>Any sequence of calls on one advertiser, over a network that starts without its registrations.\<close>

datatype mdns_call = Call_Advertise bool "string option" | Call_Shutdown | Call_deregister deregister_cause

fun mdns_step :: "mdns_call \<Rightarrow> Advertiser \<times> network \<Rightarrow> Advertiser \<times> network" where
  "mdns_step (Call_Advertise ok h) an = snd (Advertise ok h an)"
| "mdns_step Call_Shutdown an = Mdns_Shutdown an"
| "mdns_step (Call_deregister cause) an = deregisterOnSignal cause an"

definition announced :: "MdnsConfig \<Rightarrow> int \<Rightarrow> Advertiser \<times> network \<Rightarrow> bool" where
  "announced c port an \<longleftrightarrow>
     adv_cfg (fst an) = c \<and> adv_port (fst an) = port \<and>
     (case adv_server (fst an) of
        None \<Rightarrow> net_live (snd an) = []
      | Some n \<Rightarrow> n < net_next (snd an) \<and> mdns_Enabled c \<and>
          (\<exists>inst. inst \<noteq> [] \<and> net_live (snd an) = [(n, (inst, ServiceType c, domain, port, [txtAPIVersion]))]))"

lemma resolveInstanceName_nonempty: "resolveInstanceName h a \<noteq> []"
  by (simp add: resolveInstanceName_def fallbackName_def split: option.split)

lemma announced_step:
  assumes "announced c port an"
  shows "announced c port (mdns_step call an)"
proof -
  obtain a net where an: "an = (a, net)" by force
  have "announced c port (Mdns_Shutdown (a, net))"
    using assms unfolding an by (auto simp: announced_def Mdns_Shutdown_def split: option.splits)
  moreover have "announced c port (snd (Advertise ok h (a, net)))" for ok h
    using assms unfolding an
    by (auto simp: announced_def Advertise_def Let_def resolveInstanceName_nonempty)
  ultimately show ?thesis
    by (cases call) (simp_all add: an deregisterOnSignal_def split: deregister_cause.split)
qed

lemma announced_run: "announced c port an \<Longrightarrow> announced c port (fold mdns_step calls an)"
  by (induction calls arbitrary: an) (auto simp: announced_step)

lemma announced_new:
  "NewAdvertiser c port = Inr a \<Longrightarrow> announced (adv_cfg a) (adv_port a) (a, \<lparr>net_live = [], net_next = k\<rparr>)"
  by (auto simp: NewAdvertiser_def announced_def Let_def split: if_splits)

end
