(* ===== verification/Tui.thy ===== *)
theory Tui
  imports Backoff Messages "HOL-Library.Signed_Division"
begin

text \<open>
  The terminal client: address resolution (\<open>internal/tui/addr.go\<close>), the formatting of an activity
  (\<open>render.go\<close>) and the deterministic update function of the model (\<open>model.go\<close>) with the commands it
  asks the runtime to perform.  Times are in Unix milliseconds, the unit in which the model is read.
\<close>

section \<open>Addresses\<close>

text \<open>\<open>getenv\<close> is the environment, the empty string for an unset variable.\<close>

definition ResolveAddr :: "(string \<Rightarrow> string) \<Rightarrow> string \<Rightarrow> string" where
  "ResolveAddr getenv addr =
     (if addr \<noteq> [] then addr
      else let host = getenv ''PROXY_HOST'';
               host = (if host = [] then ''127.0.0.1'' else host);
               port = getenv ''PROXY_PORT'';
               port = (if port = [] then getenv ''PROXY_SERVER_PORT'' else port);
               port = (if port = [] then ''8765'' else port)
           in JoinHostPort host port)"

definition ResolveToken :: "(string \<Rightarrow> string) \<Rightarrow> string \<Rightarrow> string" where
  "ResolveToken getenv token =
     (if token \<noteq> [] then token
      else if getenv ''PROXY_TOKEN'' \<noteq> [] then getenv ''PROXY_TOKEN''
      else getenv ''PROXY_AUTH_TOKEN'')"

definition ResolveWSPath :: "(string \<Rightarrow> string) \<Rightarrow> string \<Rightarrow> string" where
  "ResolveWSPath getenv path =
     (if path \<noteq> [] then path
      else if getenv ''PROXY_SERVER_WS_PATH'' \<noteq> [] then getenv ''PROXY_SERVER_WS_PATH''
      else ''/ws'')"

definition WSURL :: "string \<Rightarrow> string \<Rightarrow> string" where
  "WSURL addr path =
     (if has_prefix addr ''ws://'' \<or> has_prefix addr ''wss://'' then addr
      else let path = (if \<not> has_prefix path ''/'' then ''/'' @ path else path)
           in ''ws'' @ ''://'' @ addr @ path)"

section \<open>Formatting\<close>

definition dash :: string where
  "dash = [CHR 0xE2, CHR 0x80, CHR 0x94]"

definition activityTypeLabel :: "ActivityType \<Rightarrow> string" where
  "activityTypeLabel t =
     (case map_of [(ActivityPlaying, ''Playing''), (ActivityStreaming, ''Streaming''),
        (ActivityListening, ''Listening''), (ActivityWatching, ''Watching''),
        (ActivityCustom, ''Custom''), (ActivityCompeting, ''Competing'')] t of
        Some label \<Rightarrow> label | None \<Rightarrow> ''Unknown'')"

text \<open>Hours, minutes and seconds of a non-negative number of seconds.\<close>

definition hms :: "int \<Rightarrow> int \<times> int \<times> int" where
  "hms s = (s div 3600, (s mod 3600) div 60, s mod 60)"

definition formatDuration :: "int64 \<Rightarrow> string" where
  "formatDuration seconds =
     (let s = (if sint seconds < 0 then 0 else sint seconds)
      in case hms s of (h, m, sec) \<Rightarrow>
           if h > 0 then itoa h @ ''h '' @ itoa m @ ''m '' @ itoa sec @ ''s''
           else if m > 0 then itoa m @ ''m '' @ itoa sec @ ''s''
           else itoa sec @ ''s'')"

record timestampValues =
  Elapsed :: int64
  HasElapsed :: bool
  Remaining :: int64
  HasRemaining :: bool
  Ended :: bool

text \<open>Differences wrap at 64 bits and division truncates, as in Go.\<close>

definition seconds_between :: "int64 \<Rightarrow> int64 \<Rightarrow> int64" where
  "seconds_between a b = word_of_int (sint (b - a) sdiv 1000)"

definition computeTimestamps :: "Timestamps option \<Rightarrow> int64 \<Rightarrow> timestampValues" where
  "computeTimestamps ts nowMs =
     (let out = \<lparr>Elapsed = 0, HasElapsed = False, Remaining = 0, HasRemaining = False, Ended = False\<rparr>
      in (case ts of
            None \<Rightarrow> out
          | Some t \<Rightarrow>
              let out = (if ts_Start t \<noteq> 0
                         then let e = seconds_between (ts_Start t) nowMs
                              in if 0 \<le> sint e then out\<lparr>Elapsed := e, HasElapsed := True\<rparr> else out
                         else out)
              in if ts_End t \<noteq> 0
                 then let r = seconds_between nowMs (ts_End t)
                      in if sint r \<le> 0 then out\<lparr>Ended := True\<rparr>
                         else out\<lparr>Remaining := r, HasRemaining := True\<rparr>
                 else out))"

definition formatTimestamps :: "Timestamps option \<Rightarrow> int64 \<Rightarrow> string \<times> string" where
  "formatTimestamps ts nowMs =
     (let v = computeTimestamps ts nowMs
      in (if HasElapsed v then formatDuration (Elapsed v) else dash,
          if Ended v then ''Ended'' else if HasRemaining v then formatDuration (Remaining v) else dash))"

definition formatParty :: "Party option \<Rightarrow> string" where
  "formatParty p =
     (case p of
        None \<Rightarrow> dash
      | Some q \<Rightarrow> (if party_ID q = [] then dash else party_ID q) @ '' ('' @
          itoa (sint (fst (party_Size q))) @ ''/'' @ itoa (sint (snd (party_Size q))) @ '')'')"

definition pick_asset :: "string \<Rightarrow> string \<Rightarrow> string" where
  "pick_asset txt img = (if txt \<noteq> [] \<or> img \<noteq> [] then (if txt = [] then img else txt) else dash)"

definition formatAssets :: "Assets option \<Rightarrow> string \<times> string" where
  "formatAssets as =
     (case as of
        None \<Rightarrow> (dash, dash)
      | Some s \<Rightarrow> (pick_asset (LargeText s) (LargeImage s), pick_asset (SmallText s) (SmallImage s)))"

definition formatButtons :: "Button list \<Rightarrow> string" where
  "formatButtons bs =
     (if length bs = 0 then dash
      else join (map (\<lambda>b. Label b @ '' ('' @ URL b @ '')'') bs) '', '')"

definition valueOrDash :: "string \<Rightarrow> string" where
  "valueOrDash v = (if v = [] then dash else v)"

section \<open>The model\<close>

datatype wsStatus = statusConnecting | statusConnected | statusReconnecting

record wsMsg =
  wm_msg :: "ServerMessage option"
  wm_err :: "string option"
  wm_fatal :: bool

datatype cmd = Cmd_connect | Cmd_read | Cmd_reconnect int64 | Cmd_tick | Cmd_quit

datatype tea_msg =
    WindowSizeMsg int int | KeyMsg string | ConnectedMsg | ConnectFailedMsg string
  | WsEventMsg wsMsg | ReconnectMsg | TickMsg int64 | Other_msg

record Model =
  m_url :: string
  m_ws :: wsStatus
  m_ipc :: ConnectionState
  m_clientID :: string
  m_snapshot :: PresenceSnapshot
  m_lastErr :: string
  m_backoff :: int64
  m_now :: int64
  m_width :: int
  m_height :: int
  m_quitting :: bool
  m_done_closed :: bool  \<comment> \<open>the shared channel \<open>done\<close>\<close>

definition newModel :: "string \<Rightarrow> int64 \<Rightarrow> Model" where
  "newModel url t =
     \<lparr>m_url = url, m_ws = statusConnecting, m_ipc = StateDisconnected, m_clientID = [],
      m_snapshot = \<lparr>Source = [], snap_Activity = None\<rparr>, m_lastErr = [], m_backoff = 0, m_now = t,
      m_width = 0, m_height = 0, m_quitting = False, m_done_closed = False\<rparr>"

definition reconnectBase :: int64 where "reconnectBase = 1000000000"
definition reconnectMax :: int64 where "reconnectMax = 30000000000"

definition needsTick :: "Model \<Rightarrow> bool" where
  "needsTick m =
     (case Option.bind (snap_Activity (m_snapshot m)) a_Timestamps of
        None \<Rightarrow> False
      | Some ts \<Rightarrow> ts_Start ts \<noteq> 0 \<or> ts_End ts \<noteq> 0)"

definition error_payload_of_json :: "json \<Rightarrow> (string \<times> string) option" where
  "error_payload_of_json j = decode_struct [''code'', ''message''] (\<lambda>n v p.
     if n = ''code'' then map_option (\<lambda>x. (x, snd p)) (decode_string v (fst p))
     else map_option (\<lambda>x. (fst p, x)) (decode_string v (snd p))) j ([], [])"

text \<open>\<open>errtxt\<close> is the text of a decoding error.  A failed decoding returns early.\<close>

definition note_clientID :: "ServerMessage \<Rightarrow> Model \<Rightarrow> Model" where
  "note_clientID msg m = (if sm_ClientID msg \<noteq> [] then m\<lparr>m_clientID := sm_ClientID msg\<rparr> else m)"

definition applyServerMessage :: "(json \<Rightarrow> string) \<Rightarrow> ServerMessage option \<Rightarrow> Model \<Rightarrow> Model" where
  "applyServerMessage errtxt msg0 m =
     (case msg0 of
        None \<Rightarrow> m
      | Some msg \<Rightarrow>
          if sm_Type msg = MsgTypePresence \<or> sm_Type msg = MsgTypeCurrent then
            (case Payload msg of
               None \<Rightarrow> note_clientID msg (m\<lparr>m_snapshot := zero_snapshot, m_lastErr := []\<rparr>)
             | Some j \<Rightarrow>
                 (case snapshot_of_json j zero_snapshot of
                    None \<Rightarrow> m\<lparr>m_lastErr := ''invalid presence payload: '' @ errtxt j\<rparr>
                  | Some snap \<Rightarrow> note_clientID msg (m\<lparr>m_snapshot := snap, m_lastErr := []\<rparr>)))
          else if sm_Type msg = MsgTypeState then
            note_clientID msg (m\<lparr>m_ipc := Status msg, m_lastErr := []\<rparr>)
          else if sm_Type msg = MsgTypeError then
            (case Option.bind (Payload msg) error_payload_of_json of
               None \<Rightarrow> m\<lparr>m_lastErr := ''server error''\<rparr>
             | Some (code, txt) \<Rightarrow>
                 note_clientID msg (m\<lparr>m_lastErr := ''server error '' @ code @ '': '' @ txt\<rparr>))
          else note_clientID msg m)"

definition scheduleReconnect :: "string \<Rightarrow> Model \<Rightarrow> Model \<times> cmd list" where
  "scheduleReconnect e m =
     (let m1 = m\<lparr>m_ws := statusReconnecting, m_lastErr := e,
                 m_backoff := nextBackoff (m_backoff m) reconnectBase reconnectMax\<rparr>
      in (m1, [Cmd_reconnect (m_backoff m1)]))"

definition handleWsEvent :: "(json \<Rightarrow> string) \<Rightarrow> wsMsg \<Rightarrow> Model \<Rightarrow> Model \<times> cmd list" where
  "handleWsEvent errtxt ev m =
     (case wm_err ev of
        Some e \<Rightarrow>
          let m1 = m\<lparr>m_lastErr := e\<rparr>
          in if wm_fatal ev then scheduleReconnect e m1 else (m1, [Cmd_read])
      | None \<Rightarrow>
          let m1 = applyServerMessage errtxt (wm_msg ev) m
          in (m1, Cmd_read # (if needsTick m1 then [Cmd_tick] else [])))"

text \<open>\<open>quit\<close> closes the channel \<open>done\<close>, which panics (\<open>None\<close>) the second time; \<open>clerr\<close> is \<open>Close\<close>'s error.\<close>

definition quit :: "string option \<Rightarrow> Model \<Rightarrow> (Model \<times> cmd list) option" where
  "quit clerr m =
     (if m_done_closed m then None
      else let m1 = m\<lparr>m_quitting := True, m_done_closed := True\<rparr>
           in Some (case clerr of None \<Rightarrow> m1 | Some e \<Rightarrow> m1\<lparr>m_lastErr := e\<rparr>, [Cmd_quit]))"

definition Update_model ::
  "(json \<Rightarrow> string) \<Rightarrow> string option \<Rightarrow> tea_msg \<Rightarrow> Model \<Rightarrow> (Model \<times> cmd list) option" where
  "Update_model errtxt clerr msg m =
     (case msg of
        WindowSizeMsg w h \<Rightarrow> Some (m\<lparr>m_width := w, m_height := h\<rparr>, [])
      | KeyMsg k \<Rightarrow> if k \<in> {''q'', ''esc'', ''ctrl+c''} then quit clerr m else Some (m, [])
      | ConnectedMsg \<Rightarrow> Some (m\<lparr>m_ws := statusConnected, m_backoff := 0, m_lastErr := []\<rparr>, [Cmd_read])
      | ConnectFailedMsg e \<Rightarrow> Some (scheduleReconnect e m)
      | ReconnectMsg \<Rightarrow> Some (m, [Cmd_connect])
      | WsEventMsg ev \<Rightarrow> Some (handleWsEvent errtxt ev m)
      | TickMsg t \<Rightarrow> let m1 = m\<lparr>m_now := t\<rparr> in Some (m1, if needsTick m1 then [Cmd_tick] else [])
      | Other_msg \<Rightarrow> Some (m, []))"

section \<open>The running program\<close>

text \<open>
  The runtime keeps the commands in flight.  A finished command delivers its message to \<open>Update_model\<close>,
  whose commands join the others; keys and window sizes come from outside.  After \<open>quit\<close> a pending read
  ends without a message.
\<close>

fun produces :: "cmd \<Rightarrow> tea_msg \<Rightarrow> bool" where
  "produces Cmd_connect msg \<longleftrightarrow> msg = ConnectedMsg \<or> (\<exists>e. msg = ConnectFailedMsg e)"
| "produces Cmd_read msg \<longleftrightarrow> (\<exists>ev. msg = WsEventMsg ev)"
| "produces (Cmd_reconnect d) msg \<longleftrightarrow> msg = ReconnectMsg"
| "produces Cmd_tick msg \<longleftrightarrow> (\<exists>t. msg = TickMsg t)"
| "produces Cmd_quit msg \<longleftrightarrow> False"

definition external :: "tea_msg \<Rightarrow> bool" where
  "external msg \<longleftrightarrow> (\<exists>w h. msg = WindowSizeMsg w h) \<or> (\<exists>k. msg = KeyMsg k) \<or> msg = Other_msg"

datatype tea_state = Running Model "cmd list" | Panicked

inductive tstep :: "(json \<Rightarrow> string) \<Rightarrow> tea_msg \<Rightarrow> tea_state \<Rightarrow> tea_state \<Rightarrow> bool"
  for errtxt :: "json \<Rightarrow> string" where
  finish: "produces c msg \<Longrightarrow> Update_model errtxt clerr msg m = Some (m', cs') \<Longrightarrow>
     tstep errtxt msg (Running m (cs @ c # ds)) (Running m' (cs @ ds @ cs'))"
| outside: "external msg \<Longrightarrow> Update_model errtxt clerr msg m = Some (m', cs') \<Longrightarrow>
     tstep errtxt msg (Running m cs) (Running m' (cs @ cs'))"
| read_stops: "m_done_closed m \<Longrightarrow>
     tstep errtxt Other_msg (Running m (cs @ Cmd_read # ds)) (Running m (cs @ ds))"
| panic: "external msg \<Longrightarrow> Update_model errtxt clerr msg m = None \<Longrightarrow>
     tstep errtxt msg (Running m cs) Panicked"

definition treachable :: "(json \<Rightarrow> string) \<Rightarrow> string \<Rightarrow> int64 \<Rightarrow> tea_state \<Rightarrow> bool" where
  "treachable errtxt url t s \<longleftrightarrow> (\<exists>ls. run_of (tstep errtxt) ls (Running (newModel url t) [Cmd_connect]) s)"

section \<open>One driver command, but any number of ticks\<close>

fun drives :: "cmd \<Rightarrow> bool" where
  "drives Cmd_connect = True" | "drives Cmd_read = True" | "drives (Cmd_reconnect d) = True"
| "drives Cmd_tick = False" | "drives Cmd_quit = False"

text \<open>
  While the program is not quitting, exactly one command that keeps the connection going is in
  flight: it connects, waits to reconnect, or reads.
\<close>

definition one_driver :: "tea_state \<Rightarrow> bool" where
  "one_driver s = (case s of Panicked \<Rightarrow> True
     | Running m cs \<Rightarrow> length (filter drives cs) \<le> 1 \<and> (\<not> m_quitting m \<longrightarrow> length (filter drives cs) = 1) \<and>
         m_done_closed m = m_quitting m \<and>
         (0 \<le> sint (m_backoff m) \<and> sint (m_backoff m) \<le> sint reconnectMax))"

lemma backoff_consts [simp]: "sint reconnectBase = 1000000000" "sint reconnectMax = 30000000000"
  by (simp_all add: reconnectBase_def reconnectMax_def)

lemma nextBackoff_range:
  assumes "0 \<le> sint b" and "sint b \<le> sint reconnectMax"
  shows "0 \<le> sint (nextBackoff b reconnectBase reconnectMax) \<and>
    sint (nextBackoff b reconnectBase reconnectMax) \<le> sint reconnectMax"
proof (cases "sint b = 0")
  case True
  then have "b = 0" by (intro sint_eqI) simp
  then show ?thesis by simp
next
  case False
  with assms have "0 < sint b" "sint b < 2 ^ 62" by simp_all
  from nextBackoff_double [OF this, of reconnectBase reconnectMax] assms show ?thesis by simp
qed

lemma apply_frame [simp]:
  "m_done_closed (applyServerMessage errtxt msg m) = m_done_closed m"
  "m_quitting (applyServerMessage errtxt msg m) = m_quitting m"
  "m_backoff (applyServerMessage errtxt msg m) = m_backoff m"
  by (simp_all add: applyServerMessage_def note_clientID_def split: option.split prod.split)

lemma update_driver:
  assumes "Update_model errtxt clerr msg m = Some (m', cs')"
    and "m_done_closed m = m_quitting m" "0 \<le> sint (m_backoff m)" "sint (m_backoff m) \<le> sint reconnectMax"
  shows "m_done_closed m' = m_quitting m'" and "0 \<le> sint (m_backoff m')"
    and "sint (m_backoff m') \<le> sint reconnectMax"
    and "length (filter drives cs') = (if external msg \<or> (\<exists>t. msg = TickMsg t) then 0 else 1)"
    and "m_quitting m \<Longrightarrow> m_quitting m'"
  using assms nextBackoff_range [OF assms(3,4)]
  by (auto simp: Update_model_def external_def quit_def handleWsEvent_def scheduleReconnect_def Let_def
      split: tea_msg.splits if_splits option.splits)

lemma produces_driver: "produces c msg \<Longrightarrow> drives c = (\<not> external msg \<and> (\<forall>t. msg \<noteq> TickMsg t))"
  by (cases c) (auto simp: external_def)

interpretation tui_driver: step_invariant_all "tstep errtxt" one_driver for errtxt
proof unfold_locales
  fix l s t
  assume "tstep errtxt l s t" and "one_driver s"
  then show "one_driver t"
  proof cases
    case (finish c clerr m m' cs' cs ds)
    with \<open>one_driver s\<close> update_driver [OF finish(4)] produces_driver [OF finish(3)] show ?thesis
      by (auto simp: one_driver_def)
  next
    case (outside clerr m m' cs' cs)
    with \<open>one_driver s\<close> update_driver [OF outside(4)] show ?thesis by (auto simp: one_driver_def)
  next
    case (read_stops m cs ds)
    with \<open>one_driver s\<close> show ?thesis by (simp add: one_driver_def)
  next
    case panic
    then show ?thesis by (simp add: one_driver_def)
  qed
qed

lemma treachable_init: "treachable errtxt url t (Running (newModel url t) [Cmd_connect])"
  unfolding treachable_def by blast

lemma treachable_step: "treachable errtxt url t s \<Longrightarrow> tstep errtxt l s u \<Longrightarrow> treachable errtxt url t u"
  unfolding treachable_def by (blast intro: run_snoc)

lemma treachable_driver: "treachable errtxt url t s \<Longrightarrow> one_driver s"
proof -
  assume "treachable errtxt url t s"
  moreover have "one_driver (Running (newModel url t) [Cmd_connect])"
    by (simp add: one_driver_def newModel_def)
  ultimately show ?thesis unfolding treachable_def using tui_driver.run_keeps_all by blast
qed

section \<open>The connection behind the model\<close>

text \<open>
  \<open>internal/tui/client.go\<close>: the request header and the two opening messages of \<open>Dial\<close>, how \<open>readPump\<close>
  classifies what it reads, and the connections that \<open>Dial\<close> and \<open>Close\<close> leave open.  Reads and writes
  are the library's: \<open>wr\<close> says how many of the opening messages can be written.
\<close>

record wsBackend =
  b_token :: string
  b_conn :: "nat option"
  b_open :: "nat set"
  b_next :: nat

definition dial_header :: "string \<Rightarrow> (string \<times> string list) list" where
  "dial_header token = (if token \<noteq> [] then [(''Authorization'', [''Bearer '' @ token])] else [])"

definition dial_messages :: "ClientMessage list" where
  "dial_messages =
     [\<lparr>cm_Type = MsgTypeSubscribe, SubscribeEvents = Some [MsgTypePresence, MsgTypeState]\<rparr>,
      NewGetCurrentMessage]"

definition Dial :: "bool \<Rightarrow> nat \<Rightarrow> wsBackend \<Rightarrow> bool \<times> wsBackend" where
  "Dial ok wr b =
     (if \<not> ok then (False, b)
      else if wr < length dial_messages then (False, b\<lparr>b_next := Suc (b_next b)\<rparr>)
      else (True, b\<lparr>b_conn := Some (b_next b), b_open := insert (b_next b) (b_open b),
                    b_next := Suc (b_next b)\<rparr>))"

definition Close_backend :: "wsBackend \<Rightarrow> wsBackend" where
  "Close_backend b =
     (case b_conn b of None \<Rightarrow> b | Some n \<Rightarrow> b\<lparr>b_conn := None, b_open := b_open b - {n}\<rparr>)"

text \<open>One read: an error (its text), or a document.\<close>

definition readPump_event ::
  "(message_error \<Rightarrow> string) \<Rightarrow> string + json option \<Rightarrow> wsMsg" where
  "readPump_event errtxt rd =
     (case rd of
        Inl e \<Rightarrow> \<lparr>wm_msg = None, wm_err = Some (''connection lost: '' @ e), wm_fatal = True\<rparr>
      | Inr doc \<Rightarrow>
          (case ParseServerMessage doc of
             Inl e \<Rightarrow> \<lparr>wm_msg = None, wm_err = Some (''invalid server message: '' @ errtxt e), wm_fatal = False\<rparr>
           | Inr m \<Rightarrow> \<lparr>wm_msg = Some m, wm_err = None, wm_fatal = False\<rparr>))"

text \<open>Nothing but \<open>Close\<close> closes a connection that \<open>Dial\<close> made, so reconnecting piles them up.\<close>

lemma dials_pile_up:
  assumes "\<forall>n\<in>b_open b. n < b_next b" and "finite (b_open b)"
  shows "card (b_open (((\<lambda>b. snd (Dial True 2 b)) ^^ k) b)) = card (b_open b) + k \<and>
    (\<forall>n\<in>b_open (((\<lambda>b. snd (Dial True 2 b)) ^^ k) b). n < b_next (((\<lambda>b. snd (Dial True 2 b)) ^^ k) b)) \<and>
    finite (b_open (((\<lambda>b. snd (Dial True 2 b)) ^^ k) b))"
proof (induction k)
  case 0
  with assms show ?case by simp
next
  case (Suc k)
  let ?b = "((\<lambda>b. snd (Dial True 2 b)) ^^ k) b"
  have "b_next ?b \<notin> b_open ?b" using Suc by blast
  with Suc show ?case by (auto simp: Dial_def dial_messages_def)
qed

section \<open>Particular runs\<close>

definition timed_snapshot :: PresenceSnapshot where
  "timed_snapshot = \<lparr>Source = SourceIPC,
     snap_Activity = Some (zero_activity\<lparr>a_Timestamps := Some \<lparr>ts_Start = 1, ts_End = 0\<rparr>\<rparr>)\<rparr>"

lemma timed_message:
  "handleWsEvent errtxt \<lparr>wm_msg = Some (NewPresenceMessage timed_snapshot), wm_err = None, wm_fatal = False\<rparr> m =
    (m\<lparr>m_snapshot := timed_snapshot, m_lastErr := []\<rparr>, [Cmd_read, Cmd_tick])"
  using snapshot_round_trip [of timed_snapshot]
  by (simp add: handleWsEvent_def applyServerMessage_def NewPresenceMessage_def zero_server_message_def
      note_clientID_def needsTick_def timed_snapshot_def zero_activity_def Let_def)

lemma many_ticks:
  "\<exists>m a b. treachable errtxt url t (Running m (replicate a Cmd_tick @ Cmd_read # replicate b Cmd_tick)) \<and> a + b = n"
proof (induction n)
  case 0
  have "tstep errtxt ConnectedMsg (Running (newModel url t) ([] @ Cmd_connect # []))
      (Running ((newModel url t)\<lparr>m_ws := statusConnected, m_backoff := 0, m_lastErr := []\<rparr>) ([] @ [] @ [Cmd_read]))"
    by (rule tstep.finish [of _ _ _ None]) (simp_all add: Update_model_def)
  from treachable_step [OF treachable_init this [simplified]] show ?case
    by (intro exI [of _ "(newModel url t)\<lparr>m_ws := statusConnected, m_backoff := 0, m_lastErr := []\<rparr>"]
        exI [of _ 0]) simp
next
  case (Suc n)
  then obtain m a b where r:
    "treachable errtxt url t (Running m (replicate a Cmd_tick @ Cmd_read # replicate b Cmd_tick))" and n: "a + b = n"
    by blast
  let ?ev = "\<lparr>wm_msg = Some (NewPresenceMessage timed_snapshot), wm_err = None, wm_fatal = False\<rparr>"
  let ?m = "m\<lparr>m_snapshot := timed_snapshot, m_lastErr := []\<rparr>"
  have "tstep errtxt (WsEventMsg ?ev) (Running m (replicate a Cmd_tick @ Cmd_read # replicate b Cmd_tick))
      (Running ?m (replicate a Cmd_tick @ replicate b Cmd_tick @ [Cmd_read, Cmd_tick]))"
    by (rule tstep.finish [of _ _ _ None]) (simp_all add: Update_model_def timed_message)
  from treachable_step [OF r this] have
    "treachable errtxt url t (Running ?m (replicate (a + b) Cmd_tick @ Cmd_read # replicate 1 Cmd_tick))"
    by (simp add: replicate_add)
  moreover have "(a + b) + 1 = Suc n" using n by simp
  ultimately show ?case by blast
qed

lemma dial_messages_accepted:
  "map (\<lambda>m. ParseClientMessage (Some (json_of_client_message m))) dial_messages = map Inr dial_messages"
proof -
  have "valid_client m" and "canon_client m = m" if "m \<in> set dial_messages" for m
    using that by (auto simp: dial_messages_def valid_client_def events_of_def NewGetCurrentMessage_def
        canon_client_def drop_if_def)
  then show ?thesis by (simp add: client_wire.parse_encode)
qed

text \<open>Two quit keys in a row: the second closes \<open>done\<close> again.\<close>

lemma second_quit_panics: "treachable errtxt url t Panicked"
proof -
  let ?m = "(newModel url t)\<lparr>m_quitting := True, m_done_closed := True\<rparr>"
  have key: "external (KeyMsg ''q'')" by (simp add: external_def)
  have "tstep errtxt (KeyMsg ''q'') (Running (newModel url t) [Cmd_connect]) (Running ?m ([Cmd_connect] @ [Cmd_quit]))"
    by (rule tstep.outside [OF key, where clerr = None]) (simp add: Update_model_def quit_def newModel_def Let_def)
  from treachable_step [OF treachable_init this]
  have 1: "treachable errtxt url t (Running ?m ([Cmd_connect] @ [Cmd_quit]))" .
  have "tstep errtxt (KeyMsg ''q'') (Running ?m ([Cmd_connect] @ [Cmd_quit])) Panicked"
    by (rule tstep.panic [OF key, where clerr = None]) (simp add: Update_model_def quit_def)
  from treachable_step [OF 1 this] show ?thesis .
qed

end
