(* ===== verification/Tui_View.thy ===== *)
theory Tui_View
  imports Tui
begin

text \<open>
  What the terminal client shows, \<open>View\<close> of \<open>internal/tui/model.go\<close>.  The styling library is a
  parameter: \<open>render st s\<close> is the text \<open>s\<close> in the style \<open>st\<close>.
\<close>

datatype style =
    titleStyle | sectionHead | labelStyle | footStyle | noticeStyle | errStyle
  | Ws_style wsStatus | Ipc_style ConnectionState | Plain_style

definition newline :: string where
  "newline = [CHR 0x0A]"

definition bullet :: string where
  "bullet = [CHR 0xE2, CHR 0x97, CHR 0x8F, CHR '' '']"

fun wsStatus_string :: "wsStatus \<Rightarrow> string" where
  "wsStatus_string statusConnecting = ''connecting''"
| "wsStatus_string statusConnected = ''connected''"
| "wsStatus_string statusReconnecting = ''reconnecting''"

text \<open>
  \<open>strings.ToUpper(s[:1]) + s[1:]\<close>.  The slice is one byte; one that is not ASCII is no rune by
  itself, and \<open>ToUpper\<close> turns it into the replacement character.  \<open>None\<close> is the panic of slicing the
  empty string.
\<close>

definition upper_byte :: "char \<Rightarrow> string" where
  "upper_byte c =
     (let n = (of_char c :: nat)
      in if n < 0x80 then [if 0x61 \<le> n \<and> n \<le> 0x7A then char_of (n - 32) else c]
         else [CHR 0xEF, CHR 0xBF, CHR 0xBD])"

definition capitalize :: "string \<Rightarrow> string option" where
  "capitalize s = (case s of [] \<Rightarrow> None | c # cs \<Rightarrow> Some (upper_byte c @ cs))"

definition field :: "(style \<Rightarrow> string \<Rightarrow> string) \<Rightarrow> string \<Rightarrow> string \<Rightarrow> string" where
  "field render label v = render labelStyle label @ v"

definition renderWSStatus :: "(style \<Rightarrow> string \<Rightarrow> string) \<Rightarrow> Model \<Rightarrow> string option" where
  "renderWSStatus render m =
     map_option (\<lambda>s. render (Ws_style (m_ws m)) (bullet @ s)) (capitalize (wsStatus_string (m_ws m)))"

definition renderIPCStatus :: "(style \<Rightarrow> string \<Rightarrow> string) \<Rightarrow> Model \<Rightarrow> string option" where
  "renderIPCStatus render m =
     (let txt = (if m_ipc m = [] then StateDisconnected else m_ipc m);
          st = (if m_ipc m \<in> {StateConnected, StateDisconnected, StateReconnecting}
                then Ipc_style (m_ipc m) else Plain_style)
      in map_option (\<lambda>s. render st (bullet @ s) @
             (if m_clientID m \<noteq> [] then '' (client '' @ m_clientID m @ '')'' else []))
           (capitalize txt))"

definition renderActivity :: "(style \<Rightarrow> string \<Rightarrow> string) \<Rightarrow> Activity \<Rightarrow> int64 \<Rightarrow> string" where
  "renderActivity render a nowMs =
     (case formatTimestamps (a_Timestamps a) nowMs of (elapsed, remaining) \<Rightarrow>
      case formatAssets (a_Assets a) of (large, small) \<Rightarrow>
        field render ''Type'' (activityTypeLabel (a_Type a)) @ newline @
        field render ''Details'' (valueOrDash (a_Details a)) @ newline @
        field render ''State'' (valueOrDash (a_State a)) @ newline @
        field render ''Elapsed'' elapsed @ newline @
        field render ''Remaining'' remaining @ newline @
        field render ''Large asset'' large @ newline @
        field render ''Small asset'' small @ newline @
        field render ''Party'' (formatParty (a_Party a)) @ newline @
        field render ''Buttons'' (formatButtons (button_list (a_Buttons a))))"

definition sourceNotice :: "Model \<Rightarrow> string" where
  "sourceNotice m =
     (if Source (m_snapshot m) = SourceIPC then ''No activity reported by the source right now.''
      else ''No activity source: Discord IPC exposes no command to read another app'' @
        [CHR 0xE2, CHR 0x80, CHR 0x99] @
        ''s Rich Presence, so this proxy cannot observe activity yet.'')"

definition View :: "(style \<Rightarrow> string \<Rightarrow> string) \<Rightarrow> Model \<Rightarrow> string option" where
  "View render m =
     (if m_quitting m then Some []
      else (case (renderWSStatus render m, renderIPCStatus render m) of
              (Some ws, Some ipc) \<Rightarrow> Some
                (render titleStyle ''discord-proxy-rpc'' @ newline @ newline @
                 field render ''Proxy'' (m_url m) @ newline @
                 field render ''WebSocket'' ws @ newline @
                 field render ''Discord IPC'' ipc @ newline @ newline @
                 render sectionHead ''Activity'' @ newline @
                 (case snap_Activity (m_snapshot m) of
                    None \<Rightarrow> render noticeStyle (sourceNotice m) @ newline
                  | Some a \<Rightarrow>
                      if IsEmpty a then render noticeStyle (sourceNotice m) @ newline
                      else field render ''Source'' (Source (m_snapshot m)) @ newline @
                           renderActivity render a (m_now m) @ newline) @
                 (if m_lastErr m \<noteq> [] then newline @ render errStyle (''Error: '' @ m_lastErr m) @ newline
                  else []) @
                 newline @ render footStyle ''q / ctrl+c to quit'')
            | _ \<Rightarrow> None))"

text \<open>The two slices are of strings that are never empty, so drawing never panics.\<close>

lemma View_total: "View render m \<noteq> None"
proof -
  have "capitalize (wsStatus_string s) \<noteq> None" for s by (cases s) (simp_all add: capitalize_def)
  then obtain ws where ws: "renderWSStatus render m = Some ws"
    unfolding renderWSStatus_def by fastforce
  have "capitalize (if m_ipc m = [] then StateDisconnected else m_ipc m) \<noteq> None"
    by (simp add: capitalize_def StateDisconnected_def split: list.split)
  then obtain ipc where "renderIPCStatus render m = Some ipc"
    unfolding renderIPCStatus_def Let_def by fastforce
  with ws show ?thesis by (simp only: View_def prod.case option.case if_split option.distinct) simp
qed

section \<open>Times shown\<close>

definition no_wrap :: "int64 \<Rightarrow> int64 \<Rightarrow> bool" where
  "no_wrap a b \<longleftrightarrow> - (2 ^ 63) \<le> sint b - sint a \<and> sint b - sint a < 2 ^ 63"

lemma sdiv_1000: "x sdiv 1000 = (if 0 \<le> x then x div 1000 else - (- x div 1000))" for x :: int
  by (simp add: signed_divide_int_def sgn_if)

lemma sdiv_1000_sign:
  fixes x :: int
  shows "0 \<le> x sdiv 1000 \<longleftrightarrow> - 1000 < x" and "0 < x sdiv 1000 \<longleftrightarrow> 1000 \<le> x"
  unfolding sdiv_1000 by (cases "0 \<le> x"; simp; linarith)+

lemma sdiv_1000_max: "- 1000 < x \<Longrightarrow> x sdiv 1000 = max 0 x div 1000" for x :: int
  unfolding sdiv_1000 by (cases "0 \<le> x") simp_all

lemma sdiv_1000_bounds: "min 0 x \<le> x sdiv 1000" "x sdiv 1000 \<le> max 0 x" for x :: int
  unfolding sdiv_1000
  using zdiv_mono2 [of x 1 1000] zdiv_mono2 [of "- x" 1 1000]
    pos_imp_zdiv_nonneg_iff [of 1000 x] pos_imp_zdiv_nonneg_iff [of 1000 "- x"]
  by (cases "0 \<le> x"; simp)+

lemma seconds_between_exact:
  assumes "no_wrap a b"
  shows "sint (seconds_between a b) = (sint b - sint a) sdiv 1000"
proof -
  have d: "sint (b - a) = sint b - sint a"
    using assms by (simp add: no_wrap_def sint_word_ariths(2) signed_take_bit_int_eq_self)
  have "- (2 ^ 63) \<le> (sint b - sint a) sdiv 1000" "(sint b - sint a) sdiv 1000 < 2 ^ 63"
    using assms sdiv_1000_bounds [of "sint b - sint a"] unfolding no_wrap_def by linarith+
  then show ?thesis by (simp add: seconds_between_def d sint_sbintrunc' signed_take_bit_int_eq_self)
qed

text \<open>
  Away from overflow: the elapsed time is shown from less than a second before the start on, in whole
  seconds; the end counts as reached in its last second.
\<close>

lemma computeTimestamps_shown:
  assumes "no_wrap (ts_Start t) nowMs" and "no_wrap nowMs (ts_End t)"
  defines "v \<equiv> computeTimestamps (Some t) nowMs"
  shows "HasElapsed v \<longleftrightarrow> ts_Start t \<noteq> 0 \<and> sint (ts_Start t) < sint nowMs + 1000"
    and "HasElapsed v \<Longrightarrow> sint (Elapsed v) = max 0 (sint nowMs - sint (ts_Start t)) div 1000"
    and "Ended v \<longleftrightarrow> ts_End t \<noteq> 0 \<and> sint (ts_End t) < sint nowMs + 1000"
    and "HasRemaining v \<longleftrightarrow> ts_End t \<noteq> 0 \<and> \<not> Ended v"
    and "HasRemaining v \<Longrightarrow> sint (Remaining v) = (sint (ts_End t) - sint nowMs) div 1000"
proof -
  note q = sdiv_1000_sign sdiv_1000_max
  note e = seconds_between_exact [OF assms(1)] and r = seconds_between_exact [OF assms(2)]
  have he: "HasElapsed v \<longleftrightarrow> ts_Start t \<noteq> 0 \<and> 0 \<le> sint (seconds_between (ts_Start t) nowMs)"
    and ee: "HasElapsed v \<Longrightarrow> Elapsed v = seconds_between (ts_Start t) nowMs"
    and en: "Ended v \<longleftrightarrow> ts_End t \<noteq> 0 \<and> \<not> 0 < sint (seconds_between nowMs (ts_End t))"
    and hr: "HasRemaining v \<longleftrightarrow> ts_End t \<noteq> 0 \<and> 0 < sint (seconds_between nowMs (ts_End t))"
    and rr: "HasRemaining v \<Longrightarrow> Remaining v = seconds_between nowMs (ts_End t)"
    by (simp_all add: v_def computeTimestamps_def Let_def split: if_splits)
  show "HasElapsed v \<longleftrightarrow> ts_Start t \<noteq> 0 \<and> sint (ts_Start t) < sint nowMs + 1000"
    unfolding he e q by linarith
  show "sint (Elapsed v) = max 0 (sint nowMs - sint (ts_Start t)) div 1000" if "HasElapsed v"
    using that q(3) unfolding ee [OF that] e he q by simp
  show "Ended v \<longleftrightarrow> ts_End t \<noteq> 0 \<and> sint (ts_End t) < sint nowMs + 1000"
    unfolding en r q by linarith
  show "HasRemaining v \<longleftrightarrow> ts_End t \<noteq> 0 \<and> \<not> Ended v" unfolding hr en by blast
  show "sint (Remaining v) = (sint (ts_End t) - sint nowMs) div 1000" if "HasRemaining v"
    using that unfolding rr [OF that] r hr q by (simp add: sdiv_1000)
qed

end
