(* ===== verification/Proxy.thy ===== *)
theory Proxy
  imports Ipc_System_Inv Presence_Sched Http Platform Mdns Tui_View
begin

text \<open>
  The main program of the proxy, \<open>cmd/proxy/main.go\<close>: how the components are built from the
  configuration, connected, and shut down again.  The concurrent behaviour of the parts is in their
  own theories; \<open>runIPCEventLoop\<close> is the loop of \<open>Ipc_System\<close>.
\<close>

section \<open>Wiring\<close>

text \<open>The callback subscribed to the presence machine.\<close>

definition update_message :: "PresenceUpdate \<Rightarrow> ServerMessage" where
  "update_message u = NewPresenceMessage \<lparr>Source = SourceIPC, snap_Activity = Some (upd_Activity u)\<rparr>"

definition on_update :: "PresenceUpdate \<Rightarrow> nat option \<times> Hub \<Rightarrow> nat option \<times> Hub" where
  "on_update u mh = (map_option RecordPresenceSend (fst mh), Broadcast (update_message u) (snd mh))"

text \<open>The options that are state of the server; the two getters are read from \<open>env\<close> at each request.\<close>

definition server_options :: "Config \<Rightarrow> ServerOption list" where
  "server_options c =
     [WithWSPath (sc_WsPath (cfg_Server c)),
      WithRateLimiter (NewRateLimiter (RateLimitPerIP (cfg_Server c)) (RateLimitWindow (cfg_Server c))),
      WithConnectionTracker (NewConnectionTracker (MaxWSConnections (cfg_Server c)))] @
     (if auth_Enabled (Auth c) then [WithAuth (BearerAuthFunc (Auth c))] else []) @
     (if metrics_Enabled (cfg_Metrics c) then [WithMetrics] else [])"

definition listen_addr :: "Config \<Rightarrow> string" where
  "listen_addr c = sc_Host (cfg_Server c) @ '':'' @ itoa (sc_Port (cfg_Server c))"

record proxy =
  px_sys :: sys
  px_presence :: psys
  px_hub :: Hub
  px_server :: Server
  px_sends :: "nat option"
  px_addr :: string
  px_adv :: "(Advertiser \<times> network) option"

datatype main_result = Load_failed load_error | Routes_panic | Mdns_fatal mdns_error | Serving proxy

text \<open>
  \<open>main\<close> from the loaded configuration to the point where the server listens.  \<open>ps\<close> are the socket
  paths, \<open>env\<close> what they do at the first attempt, \<open>net\<close> the network, \<open>mdns_ok\<close> and \<open>hostname\<close> the
  results of the mDNS registration and of the host name; the subscribed callback has number 0.
\<close>

definition start_proxy ::
  "string list \<Rightarrow> (string \<Rightarrow> path_result) \<Rightarrow> network \<Rightarrow> bool \<Rightarrow> string option \<Rightarrow> Config \<Rightarrow> main_result" where
  "start_proxy ps env net mdns_ok hostname c =
     (let s = sys_init (Discord c) ps env;
          p0 = Start (psys_init (CoalesceInterval (Discord c)));
          p = p0\<lparr>pres := fst (Subscribe 0 (pres p0))\<rparr>;
          h = NewHub (dc_ClientID (Discord c));
          sends = (if metrics_Enabled (cfg_Metrics c) then Some 0 else None)
      in (case NewServer (server_options c) of
            None \<Rightarrow> Routes_panic
          | Some srv \<Rightarrow>
              let px = \<lparr>px_sys = s, px_presence = p, px_hub = h, px_server = srv, px_sends = sends,
                        px_addr = listen_addr c, px_adv = None\<rparr>
              in if \<not> mdns_Enabled (Mdns c) then Serving px
                 else (case NewAdvertiser (Mdns c) (sc_Port (cfg_Server c)) of
                         Inl e \<Rightarrow> Mdns_fatal e
                       | Inr a \<Rightarrow>
                           (case Advertise mdns_ok hostname (a, net) of
                              (Some e, an) \<Rightarrow> Mdns_fatal e
                            | (None, an) \<Rightarrow> Serving (px\<lparr>px_adv := Some an\<rparr>)))))"

definition main_program ::
  "string option \<Rightarrow> (string list \<Rightarrow> 'f config_file)
    \<Rightarrow> ('f config_file \<Rightarrow> (string \<times> setting) list \<Rightarrow> (string \<times> string) list \<Rightarrow> Config option)
    \<Rightarrow> string \<Rightarrow> (string \<Rightarrow> string) \<Rightarrow> (string \<Rightarrow> path_result) \<Rightarrow> network \<Rightarrow> bool \<Rightarrow> string option \<Rightarrow> main_result" where
  "main_program home read_in unmarshal goos getenv env net mdns_ok hostname =
     (case LoadConfig home read_in unmarshal of
        Inl e \<Rightarrow> Load_failed e
      | Inr c \<Rightarrow> start_proxy (IPCPaths goos getenv) env net mdns_ok hostname c)"

text \<open>After the context is done: the hub is closed, then the client, then the deferred calls in reverse.\<close>

definition stop_proxy :: "proxy \<Rightarrow> proxy" where
  "stop_proxy px =
     px\<lparr>px_hub := Close_hub (px_hub px),
        px_sys := (px_sys px)\<lparr>cli := Close (cli (px_sys px))\<rparr>,
        px_adv := map_option Mdns_Shutdown (px_adv px),
        px_server := Close_server (px_server px),
        px_presence := Stop (px_presence px)\<rparr>"

section \<open>When the proxy starts\<close>

definition ws_path :: "Config \<Rightarrow> string" where
  "ws_path c = (if sc_WsPath (cfg_Server c) = [] then ''/ws'' else sc_WsPath (cfg_Server c))"

definition reserved_paths :: "Config \<Rightarrow> string set" where
  "reserved_paths c = fixed_paths \<union> (if metrics_Enabled (cfg_Metrics c) then {''/metrics''} else {})"

definition started_server :: "Config \<Rightarrow> Server" where
  "started_server c =
     \<lparr>srv_auth = (if auth_Enabled (Auth c) then Some (BearerAuthFunc (Auth c)) else None),
      ws_auth = (if auth_Enabled (Auth c) then Some (BearerAuthFunc (Auth c)) else None),
      srv_wsPath = ws_path c,
      rateLimiter = Some (NewRateLimiter (RateLimitPerIP (cfg_Server c)) (RateLimitWindow (cfg_Server c))),
      connTracker = Some (NewConnectionTracker (MaxWSConnections (cfg_Server c))),
      mux = (if metrics_Enabled (cfg_Metrics c) then [(''/metrics'', Metrics_page)] else []) @ routes_of (ws_path c)\<rparr>"

lemma options_applied:
  "apply_options (server_options c)
      \<lparr>srv_auth = None, ws_auth = None, srv_wsPath = ''/ws'', rateLimiter = None, connTracker = None, mux = []\<rparr> =
    Some ((started_server c)\<lparr>mux := if metrics_Enabled (cfg_Metrics c) then [(''/metrics'', Metrics_page)] else []\<rparr>)"
  by (simp add: server_options_def apply_option_def started_server_def ws_path_def Handle_def)

lemma NewServer_iff:
  "NewServer (server_options c) = Some srv \<longleftrightarrow>
     take 1 (ws_path c) = ''/'' \<and> ws_path c \<notin> reserved_paths c \<and> srv = started_server c"
  unfolding NewServer_def options_applied
  by (auto simp: registerRoutes_def handle_all_append routes_of_def fixed_paths_def reserved_paths_def
      started_server_def simp del: handle_all.simps)

lemma start_proxy_Serving:
  assumes "start_proxy ps env net mdns_ok hostname c = Serving px"
  shows "px_server px = started_server c" and "px_sys px = sys_init (Discord c) ps env"
    and "px_hub px = NewHub (dc_ClientID (Discord c))"
    and "take 1 (ws_path c) = ''/''" and "ws_path c \<notin> reserved_paths c"
  using assms
  by (auto simp: start_proxy_def Let_def NewServer_iff split: option.splits if_splits sum.splits prod.splits)

lemma start_proxy_iff:
  "(\<exists>px. start_proxy ps env net mdns_ok hostname c = Serving px) \<longleftrightarrow>
     take 1 (ws_path c) = ''/'' \<and> ws_path c \<notin> reserved_paths c \<and>
     (mdns_Enabled (Mdns c) \<longrightarrow> 0 < sc_Port (cfg_Server c) \<and> sc_Port (cfg_Server c) \<le> 65535 \<and> mdns_ok)"
proof (cases "NewServer (server_options c)")
  case None
  then have "\<not> (take 1 (ws_path c) = ''/'' \<and> ws_path c \<notin> reserved_paths c)"
    using NewServer_iff [of c "started_server c"] by simp
  with None show ?thesis by (auto simp: start_proxy_def Let_def)
next
  case (Some srv)
  then have "take 1 (ws_path c) = ''/'' \<and> ws_path c \<notin> reserved_paths c" by (simp add: NewServer_iff)
  with Some show ?thesis
    by (auto simp: start_proxy_def Let_def NewAdvertiser_def Advertise_def)
qed

section \<open>Requests without a token\<close>

definition refusal :: "Response \<Rightarrow> bool" where
  "refusal resp \<longleftrightarrow> rs_status resp \<in> {401, 413, 429} \<or> (\<exists>p. rs_body resp = B_redirect p)"

definition open_routes :: "handler set" where
  "open_routes = {Health, Healthz, Readyz, Metrics_page}"

lemma mux_match_started: "take 1 p = ''/'' \<Longrightarrow> mux_match (mux (started_server c)) p \<noteq> None"
  by (rule mux_match_total [of Dashboard]) (simp_all add: started_server_def routes_of_def)

lemma unauthorized_response:
  assumes "srv_auth s = Some auth" and "ws_auth s = Some auth" and "\<not> auth r"
    and "mux_match (mux s) (Path r) = Some h" and "h \<notin> open_routes"
  shows "refusal (fst (ServeHTTP e r s))" and "rs_cookie (fst (ServeHTTP e r s)) = None"
  using assms
  by (auto simp: ServeHTTP_def run_handler_def requireAuth_def refusal_def RecoveryMiddleware_def open_routes_def
      rateLimitWS_response authorized_def respond_def split: handler.splits prod.splits)

section \<open>From a frame to the screen\<close>

text \<open>A client that receives the message of an update shows exactly the activity.\<close>

lemma shown_update:
  assumes "well_formed (upd_Activity u)"
  shows "ParseServerMessage (Some (json_of_server_message (update_message u))) = Inr (update_message u)"
    and "applyServerMessage errtxt (Some (update_message u)) m =
      m\<lparr>m_snapshot := \<lparr>Source = SourceIPC, snap_Activity = Some (upd_Activity u)\<rparr>, m_lastErr := []\<rparr>"
proof -
  show "ParseServerMessage (Some (json_of_server_message (update_message u))) = Inr (update_message u)"
    unfolding update_message_def by (rule server_wire.parse_encode [OF constructors_valid(1)])
  show "applyServerMessage errtxt (Some (update_message u)) m =
      m\<lparr>m_snapshot := \<lparr>Source = SourceIPC, snap_Activity = Some (upd_Activity u)\<rparr>, m_lastErr := []\<rparr>"
    using well_formed_buttons [OF assms]
    by (simp add: applyServerMessage_def update_message_def NewPresenceMessage_def zero_server_message_def
        snapshot_round_trip note_clientID_def)
qed

lemma start_proxy_panics:
  "start_proxy ps env net mdns_ok hostname c = Routes_panic \<longleftrightarrow>
     take 1 (ws_path c) \<noteq> ''/'' \<or> ws_path c \<in> reserved_paths c"
proof (cases "NewServer (server_options c)")
  case None
  then have "\<not> (take 1 (ws_path c) = ''/'' \<and> ws_path c \<notin> reserved_paths c)"
    using NewServer_iff [of c "started_server c"] by simp
  with None show ?thesis by (auto simp: start_proxy_def Let_def)
next
  case (Some srv)
  then have "take 1 (ws_path c) = ''/'' \<and> ws_path c \<notin> reserved_paths c" by (simp add: NewServer_iff)
  with Some show ?thesis
    by (auto simp: start_proxy_def Let_def split: sum.splits prod.splits option.splits)
qed

definition demo_config :: Config where
  "demo_config =
     \<lparr>Discord = quiet_config,
      cfg_Server = \<lparr>sc_Host = ''0.0.0.0'', sc_Port = 8765, sc_WsPath = ''/ws'', ReadTimeout = 0, WriteTimeout = 0,
        MaxWSConnections = 100, RateLimitPerIP = 10, RateLimitWindow = 60000000000\<rparr>,
      Auth = \<lparr>auth_Enabled = True, auth_Token = ''s3''\<rparr>,
      Mdns = \<lparr>mdns_Enabled = False, InstanceName = [], ServiceType = []\<rparr>,
      Logging = \<lparr>log_Level = ''info'', log_Format = ''json''\<rparr>, cfg_Metrics = \<lparr>metrics_Enabled = False\<rparr>\<rparr>"

definition demo_request :: "string \<Rightarrow> Request" where
  "demo_request p = \<lparr>Path = p, RemoteAddr = [], Headers = [], Cookies = [], Query = [], ContentLength = 0, TLS = False\<rparr>"

definition demo_env :: env where
  "demo_env =
     \<lparr>t_since = 0, t_now = 0, cur_presence = \<lparr>Source = SourceNone, snap_Activity = None\<rparr>, cur_ipc = ''connected'',
      upgraded = Upgrade_ok, subprotos = [], index_page = None, static_file = \<lambda>_. (404, [])\<rparr>"

definition demo_proxy :: "string list \<Rightarrow> (string \<Rightarrow> path_result) \<Rightarrow> proxy" where
  "demo_proxy ps env =
     \<lparr>px_sys = sys_init quiet_config ps env,
      px_presence = (let p0 = Start (psys_init 0) in p0\<lparr>pres := fst (Subscribe 0 (pres p0))\<rparr>),
      px_hub = NewHub ''1'', px_server = started_server demo_config, px_sends = None,
      px_addr = listen_addr demo_config, px_adv = None\<rparr>"

lemma demo_serving: "start_proxy ps env net True None demo_config = Serving (demo_proxy ps env)"
proof -
  have "NewServer (server_options demo_config) = Some (started_server demo_config)"
    by (simp add: NewServer_iff ws_path_def reserved_paths_def fixed_paths_def demo_config_def)
  then show ?thesis by (simp add: start_proxy_def Let_def demo_proxy_def) (simp add: demo_config_def quiet_config_def)
qed

lemma demo_unauthorized: "\<not> BearerAuthFunc (Auth demo_config) (demo_request p)"
  by (simp add: BearerAuthFunc_iff demo_config_def demo_request_def extractToken_def extractBearerToken_def
      extractSubprotocolToken_def extractCookieToken_def extractQueryToken_def Header_Get_def first_value_def
      TrimSpace_graphic)

lemma demo_auth: "auth_Enabled (Auth demo_config)"
  by (simp add: demo_config_def)

lemma demo_route: "mux_match (mux (started_server demo_config)) (Path (demo_request ''/api/presence'')) = Some Api_presence"
  by (simp add: started_server_def ws_path_def demo_config_def routes_of_def mux_match_def demo_request_def)

text \<open>Connection slots are exact.  On a proxy that serves, after any history of requests (upgraded,
  refused, failed or panicking in the upgrade) and disconnections, the connection tracker counts
  exactly the live connections, and they never exceed the configured limit.\<close>

lemma server_slots_exact:
  assumes "start_proxy ps env net mdns_ok hostname c = Serving px"
  shows "\<exists>ct. connTracker (fst (fold conn_step hist (px_server px, 0))) = Some ct \<and>
    Count ct = int (snd (fold conn_step hist (px_server px, 0))) \<and>
    Count ct \<le> max 0 (MaxWSConnections (cfg_Server c))"
proof -
  have "slots_match (MaxWSConnections (cfg_Server c)) (px_server px, 0)"
    using start_proxy_Serving(1) [OF assms]
    by (simp add: slots_match_def started_server_def NewConnectionTracker_def Count_def)
  from slots_match_run [OF this, of hist] show ?thesis by (auto simp: slots_match_def)
qed

end
