(* ===== verification/Hub_Inv.thy ===== *)
theory Hub_Inv
  imports Hub
begin

text \<open>
  Every step of the hub keeps its invariant: no section of the hub panics, and a message handler
  can panic only after the hub has begun to close its clients.  Also the fan-out as a whole: what a
  client's queue holds after a sequence of broadcasts.
\<close>

section \<open>Operations on one client\<close>

lemma client_ok_new [simp]: "client_ok NewClient"
  by (simp add: client_ok_def NewClient_def)

lemma new_client_fields [simp]:
  "\<not> done_closed NewClient" "read_pump NewClient = Not_started"
  by (simp_all add: NewClient_def)

lemma start_pumps_fields [simp]:
  "client_ok (start_pumps c) = client_ok c" "done_closed (start_pumps c) = done_closed c"
  "read_pump (start_pumps c) = Reading" "send (start_pumps c) = send c"
  "events (start_pumps c) = events c"
  by (simp_all add: start_pumps_def client_ok_def)

lemma client_ok_update [simp]:
  "client_ok (c\<lparr>conn_open := b\<rparr>) = client_ok c" "client_ok (c\<lparr>read_pump := r\<rparr>) = client_ok c"
  "client_ok (c\<lparr>write_pump := w\<rparr>) = client_ok c" "client_ok (c\<lparr>out := os\<rparr>) = client_ok c"
  "client_ok (c\<lparr>events := es\<rparr>) = client_ok c"
  by (simp_all add: client_ok_def)

lemma close_client_open: "client_ok c \<Longrightarrow> \<not> done_closed c \<Longrightarrow>
    \<exists>c'. close_client c = Some c' \<and> client_ok c' \<and> done_closed c' \<and> read_pump c' = read_pump c"
  by (auto simp: close_client_def closeChan_def client_ok_def chan_ok_def)

lemma send_update:
  assumes "client_ok c" and "\<not> done_closed c"
  shows "\<exists>ch. send_or_drop (send c) m = Some ch \<and> client_ok (c\<lparr>send := ch\<rparr>)"
  using assms by (auto simp: send_or_drop_open client_ok_def chan_ok_def)

lemma SendMessage_open:
  "client_ok c \<Longrightarrow> \<not> done_closed c \<Longrightarrow> \<exists>c'. SendMessage m c = Some c'"
  using send_update by (fastforce simp: SendMessage_def)

lemma SendMessage_frame:
  assumes "client_ok c" and "SendMessage m c = Some c'"
  shows "client_ok c' \<and> done_closed c' = done_closed c \<and> read_pump c' = read_pump c"
proof -
  from assms(2) have "\<not> done_closed c"
    using assms(1) by (auto simp: SendMessage_def client_ok_def send_or_drop_def trySend_def)
  from send_update [OF assms(1) this, of m] assms(2) show ?thesis
    by (auto simp: SendMessage_def)
qed

lemma offer_open: "client_ok c \<Longrightarrow> \<not> done_closed c \<Longrightarrow> \<exists>c'. offer m c = Some c'"
  using send_update by (fastforce simp: offer_def)

lemma offer_SendMessage: "offer m c = (if sm_Type m \<in> events c then SendMessage m c else Some c)"
  by (simp add: offer_def SendMessage_def)

lemma offer_frame: "client_ok c \<Longrightarrow> offer m c = Some c' \<Longrightarrow>
    client_ok c' \<and> done_closed c' = done_closed c \<and> read_pump c' = read_pump c"
  by (auto simp: offer_SendMessage SendMessage_frame split: if_splits)

lemma handle_frame:
  assumes "client_ok c" and "handle_message get errtxt cid doc c = Some c'"
  shows "client_ok c' \<and> done_closed c' = done_closed c"
  using assms
  by (auto simp: handle_message_def subscribe_def dest: SendMessage_frame
      split: sum.splits if_splits option.splits)

lemma handle_open:
  assumes "client_ok c" and "\<not> done_closed c"
  shows "\<exists>c'. handle_message get errtxt cid doc c = Some c'"
  using SendMessage_open [OF assms]
  by (auto simp: handle_message_def split: sum.splits option.splits)

lemma write_frame:
  assumes "client_ok c" and "WritePump_step ok c = Some c'"
  shows "client_ok c' \<and> done_closed c' = done_closed c \<and> read_pump c' = read_pump c"
  using assms
  by (auto simp: WritePump_step_def tryRecv_def client_ok_def chan_ok_def
      split: list.splits if_splits)

section \<open>Reading the invariant\<close>

lemma hub_inv_client: "hub_inv h \<Longrightarrow> objs h i = Some c \<Longrightarrow> client_ok c"
  by (simp add: hub_inv_def)

lemma hub_inv_registered:
  assumes "hub_inv h" and "i \<in> clients h"
  obtains c where "objs h i = Some c" "client_ok c" "\<not> done_closed c" "read_pump c \<noteq> Not_started"
  using assms unfolding hub_inv_def by blast

lemma hub_inv_waiting:
  assumes "hub_inv h" and "i \<in> registering h"
  obtains c where "objs h i = Some c" "client_ok c" "\<not> done_closed c" "read_pump c = Not_started"
    "i \<notin> clients h"
  using assms unfolding hub_inv_def by blast

text \<open>Replacing one client by one that differs in neither channel state nor pump state.\<close>

lemma hub_inv_update:
  assumes inv: "hub_inv h" and c: "objs h i = Some c"
    and ok: "client_ok c'" and same: "done_closed c' = done_closed c"
    and pump: "read_pump c' = read_pump c \<or>
      read_pump c \<notin> {Not_started, Reader_gone} \<and> read_pump c' \<notin> {Not_started, Reader_gone}"
  shows "hub_inv (h\<lparr>objs := (objs h)(i \<mapsto> c')\<rparr>)"
  using assms unfolding hub_inv_def by (auto split: if_splits)

section \<open>Every section keeps it\<close>

lemma inv_connect: "hub_inv h \<Longrightarrow> objs h i = None \<Longrightarrow>
    hub_inv (h\<lparr>objs := (objs h)(i \<mapsto> NewClient), registering := insert i (registering h)\<rparr>)"
  unfolding hub_inv_def by (auto split: if_splits)

lemma inv_register:
  assumes inv: "hub_inv h" and i: "i \<in> registering h"
  shows "hub_inv (Run_register i h)"
proof -
  obtain c where "objs h i = Some c" "client_ok c" "\<not> done_closed c" "read_pump c = Not_started"
    using hub_inv_waiting [OF assms] by blast
  with inv show ?thesis
    unfolding hub_inv_def Run_register_def by (auto split: if_splits)
qed

lemma inv_register_abort:
  assumes inv: "hub_inv h" and i: "i \<in> registering h" and fin: "hub_done h"
  shows "hub_inv (h\<lparr>registering := registering h - {i},
    objs := (objs h)(i := map_option start_pumps (objs h i))\<rparr>)"
proof -
  obtain c where "objs h i = Some c" "client_ok c" "\<not> done_closed c" "read_pump c = Not_started"
      "i \<notin> clients h"
    using hub_inv_waiting [OF inv i] by blast
  with inv fin show ?thesis
    unfolding hub_inv_def by (auto split: if_splits)
qed

lemma inv_unregister:
  assumes inv: "hub_inv h" and c: "objs h i = Some c" and r: "read_pump c = Unregistering"
  shows "hub_inv (Run_unregister i h)"
proof (cases "i \<in> clients h")
  case True
  from hub_inv_registered [OF inv True] c have "client_ok c" "\<not> done_closed c" by auto
  from close_client_open [OF this] obtain c' where
    "close_client c = Some c'" "client_ok c'" "done_closed c'" by blast
  with inv c r True show ?thesis
    unfolding hub_inv_def Run_unregister_def by (auto split: if_splits)
next
  case False
  with inv c r show ?thesis
    unfolding hub_inv_def Run_unregister_def by (auto split: if_splits)
qed

lemma inv_unregister_abort:
  assumes "hub_inv h" and "objs h i = Some c" and "read_pump c = Unregistering" and "hub_done h"
  shows "hub_inv (h\<lparr>objs := (objs h)(i \<mapsto> c\<lparr>conn_open := False, read_pump := Reader_gone\<rparr>)\<rparr>)"
  using assms unfolding hub_inv_def by (auto split: if_splits)

lemma inv_Broadcast: "hub_inv h \<Longrightarrow> hub_inv (Broadcast m h)"
  unfolding hub_inv_def Broadcast_def trySend_def chan_ok_def by auto

text \<open>Changing every client without touching channel and pump state.\<close>

definition same_state :: "Client \<Rightarrow> Client \<Rightarrow> bool" where
  "same_state c c' \<longleftrightarrow> client_ok c' \<and> done_closed c' = done_closed c \<and> read_pump c' = read_pump c"

lemma hub_inv_pointwise:
  assumes inv: "hub_inv h" and same: "\<And>i. rel_option same_state (objs h i) (o' i)"
  shows "hub_inv (h\<lparr>objs := o'\<rparr>)"
proof -
  have backw: "\<exists>c. objs h i = Some c \<and> same_state c c'" if "o' i = Some c'" for i c'
    using same [of i] that by (cases "objs h i") auto
  have forth: "\<exists>c'. o' i = Some c' \<and> same_state c c'" if "objs h i = Some c" for i c
    using same [of i] that by (cases "o' i") auto
  have 1: "client_ok c'" if "o' i = Some c'" for i c'
    using backw [OF that] by (auto simp: same_state_def)
  have 2: "\<exists>c. o' i = Some c \<and> \<not> done_closed c \<and> read_pump c \<noteq> Not_started" if i: "i \<in> clients h" for i
    by (rule hub_inv_registered [OF inv i]) (drule forth, auto simp: same_state_def)
  have 3: "i \<notin> clients h \<and> (\<exists>c. o' i = Some c \<and> \<not> done_closed c \<and> read_pump c = Not_started)"
    if i: "i \<in> registering h" for i
    by (rule hub_inv_waiting [OF inv i]) (drule forth, auto simp: same_state_def)
  have 4: "i \<in> clients h" if "\<not> closing h" "o' i = Some c'" "read_pump c' \<noteq> Not_started"
      "read_pump c' \<noteq> Reader_gone" for i c'
    using backw [OF that(2)] that inv unfolding hub_inv_def same_state_def by metis
  have 5: "i \<in> registering h" if "o' i = Some c'" "read_pump c' = Not_started" for i c'
    using backw [OF that(1)] that inv unfolding hub_inv_def same_state_def by metis
  from inv 1 2 3 4 5 show ?thesis
    unfolding hub_inv_def by simp
qed

lemma offer_registered:
  assumes "hub_inv h" and "i \<in> clients h"
  shows "\<exists>c c'. objs h i = Some c \<and> offer m c = Some c' \<and> same_state c c'"
proof (rule hub_inv_registered [OF assms])
  fix c
  assume c: "objs h i = Some c" "client_ok c" "\<not> done_closed c"
  then obtain c' where "offer m c = Some c'" using offer_open by blast
  with c offer_frame show ?thesis by (auto simp: same_state_def)
qed

lemma dispatch_eq:
  assumes inv: "hub_inv h"
  shows "dispatch m h =
    h\<lparr>objs := (\<lambda>i. if i \<in> clients h then Option.bind (objs h i) (offer (stamp h m)) else objs h i)\<rparr>"
proof -
  have "Option.bind (objs h i) (offer (stamp h m)) \<noteq> None" if "i \<in> clients h" for i
    using offer_registered [OF inv that, of "stamp h m"] by auto
  then have no: "\<not> (\<exists>i\<in>clients h. Option.bind (objs h i) (offer (stamp h m)) = None)"
    by blast
  show ?thesis
    unfolding dispatch_def Let_def by (simp only: no if_False)
qed

lemma inv_dispatch:
  assumes inv: "hub_inv h"
  shows "hub_inv (dispatch m h)"
  unfolding dispatch_eq [OF inv]
proof (rule hub_inv_pointwise [OF inv])
  fix i
  show "rel_option same_state (objs h i)
    (if i \<in> clients h then Option.bind (objs h i) (offer (stamp h m)) else objs h i)"
  proof (cases "i \<in> clients h")
    case True
    with offer_registered [OF inv True, of "stamp h m"] show ?thesis by auto
  next
    case False
    with hub_inv_client [OF inv] show ?thesis
      by (cases "objs h i") (auto simp: same_state_def)
  qed
qed

lemma inv_Run_broadcast:
  assumes inv: "hub_inv h"
  shows "hub_inv (Run_broadcast h)"
proof -
  have "hub_inv (h\<lparr>broadcast := ch\<rparr>)" if "tryRecv (broadcast h) = Received m ch" for m ch
    using inv that unfolding hub_inv_def tryRecv_def chan_ok_def
    by (auto split: list.splits if_splits)
  with inv show ?thesis
    by (auto simp: Run_broadcast_def intro: inv_dispatch split: recv_result.splits)
qed

lemma close_registered:
  assumes "hub_inv h" and "i \<in> clients h"
  shows "\<exists>c c'. objs h i = Some c \<and> close_client c = Some c' \<and> client_ok c' \<and> done_closed c' \<and>
    read_pump c' = read_pump c \<and> read_pump c \<noteq> Not_started"
proof (rule hub_inv_registered [OF assms])
  fix c
  assume c: "objs h i = Some c" "client_ok c" "\<not> done_closed c" "read_pump c \<noteq> Not_started"
  with close_client_open [OF c(2,3)] show ?thesis by auto
qed

lemma closeAllClients_eq:
  assumes inv: "hub_inv h"
  shows "closeAllClients h = h\<lparr>clients := {}, closing := True,
    objs := (\<lambda>i. if i \<in> clients h
      then map_option (\<lambda>c. c\<lparr>conn_open := False\<rparr>) (Option.bind (objs h i) close_client)
      else objs h i)\<rparr>"
proof -
  have "Option.bind (objs h i) close_client \<noteq> None" if "i \<in> clients h" for i
    using close_registered [OF inv that] by auto
  then have no: "\<not> (\<exists>i\<in>clients h. Option.bind (objs h i) close_client = None)"
    by blast
  show ?thesis
    unfolding closeAllClients_def by (simp only: no if_False)
qed

text \<open>Closing: the client objects may change, but none of the waiting ones does.\<close>

lemma hub_inv_closing:
  assumes inv: "hub_inv h"
    and ok: "\<And>i c. o' i = Some c \<Longrightarrow> client_ok c"
    and other: "\<And>i. i \<notin> clients h \<Longrightarrow> o' i = objs h i"
    and started: "\<And>i c. i \<in> clients h \<Longrightarrow> o' i = Some c \<Longrightarrow> read_pump c \<noteq> Not_started"
  shows "hub_inv (h\<lparr>clients := {}, closing := True, objs := o'\<rparr>)"
proof -
  have 3: "\<exists>c. o' i = Some c \<and> \<not> done_closed c \<and> read_pump c = Not_started"
    if "i \<in> registering h" for i
    by (rule hub_inv_waiting [OF inv that]) (use other in auto)
  have 5: "i \<in> registering h" if "o' i = Some c" "read_pump c = Not_started" for i c
  proof -
    have "i \<notin> clients h" using started that by blast
    then show ?thesis using other that inv unfolding hub_inv_def by simp
  qed
  show ?thesis
    using inv ok 3 5 unfolding hub_inv_def by simp
qed

lemma inv_closeAllClients:
  assumes inv: "hub_inv h"
  shows "hub_inv (closeAllClients h)"
  unfolding closeAllClients_eq [OF inv]
proof (rule hub_inv_closing [OF inv])
  fix i c
  assume c: "(if i \<in> clients h
      then map_option (\<lambda>c. c\<lparr>conn_open := False\<rparr>) (Option.bind (objs h i) close_client)
      else objs h i) = Some c"
  show "client_ok c"
  proof (cases "i \<in> clients h")
    case True
    with close_registered [OF inv True] c show ?thesis by auto
  next
    case False
    with c hub_inv_client [OF inv] show ?thesis by simp
  qed
  assume i: "i \<in> clients h"
  with close_registered [OF inv i] c show "read_pump c \<noteq> Not_started" by auto
qed simp

lemma inv_closeDone: "hub_inv h \<Longrightarrow> closing h \<Longrightarrow> hub_inv (closeDone h)"
  unfolding hub_inv_def closeDone_def by simp

lemma closing_after_close: "hub_inv h \<Longrightarrow> closing (closeAllClients h)"
  by (simp add: closeAllClients_eq)

lemma inv_running: "hub_inv h \<Longrightarrow> hub_inv (h\<lparr>running := b\<rparr>)"
  unfolding hub_inv_def by simp

lemma inv_ctx: "hub_inv h \<Longrightarrow> hub_inv (h\<lparr>ctx_done := b\<rparr>)"
  unfolding hub_inv_def by simp

lemma hub_done_closing: "hub_inv h \<Longrightarrow> hub_done h \<Longrightarrow> closing h"
  unfolding hub_inv_def by blast

text \<open>A handler finds its channel open unless the hub is closing.\<close>

lemma inv_handle_panic:
  assumes inv: "hub_inv h" and c: "objs h i = Some c" and r: "read_pump c = Handling doc"
    and none: "handle_message get errtxt cid doc c = None"
  shows "hub_inv (h\<lparr>reader_panic := True\<rparr>)"
proof -
  have "done_closed c"
  proof (rule ccontr)
    assume "\<not> done_closed c"
    from handle_open [OF hub_inv_client [OF inv c] this, of get errtxt cid doc] none
    show False by simp
  qed
  then have "i \<notin> clients h" using hub_inv_registered [OF inv, of i] c by auto
  with inv c r have "closing h" unfolding hub_inv_def by force
  with inv show ?thesis unfolding hub_inv_def by simp
qed

interpretation hub_safe: step_invariant_all "hstep errtxt" hub_inv for errtxt
proof unfold_locales
  fix l h h'
  assume step: "hstep errtxt l h h'" and inv: "hub_inv h"
  from step show "hub_inv h'"
  proof cases
    case (run_ctx)
    have "hub_inv ((closeAllClients h)\<lparr>running := False\<rparr>)"
      by (intro inv_running inv_closeAllClients inv)
    then show ?thesis
      unfolding run_ctx by (rule inv_closeDone) (simp add: closing_after_close inv)
  next
    case (run_done)
    then show ?thesis
      using inv_closeDone [OF inv_running [OF inv]] hub_done_closing [OF inv] by simp
  next
    case (handle i c doc c')
    with handle_frame [OF hub_inv_client [OF inv]] show ?thesis
      by (auto intro!: hub_inv_update [OF inv])
  next
    case (write_out i c ok c')
    with write_frame [OF hub_inv_client [OF inv]] show ?thesis
      by (auto intro!: hub_inv_update [OF inv])
  next
    case (recv i c doc)
    with hub_inv_client [OF inv] show ?thesis
      by (auto intro!: hub_inv_update [OF inv])
  next
    case (read_err i c)
    with hub_inv_client [OF inv] show ?thesis
      by (auto intro!: hub_inv_update [OF inv])
  next
    case (ping_fail i c)
    with hub_inv_client [OF inv] show ?thesis
      by (auto intro!: hub_inv_update [OF inv])
  qed (auto intro: inv inv_connect inv_register inv_register_abort inv_unregister
      inv_unregister_abort inv_Broadcast inv_Run_broadcast inv_closeAllClients inv_closeDone
      inv_ctx inv_handle_panic)
qed

lemma hub_inv_init: "hub_inv (NewHub cid)"
  by (simp add: hub_inv_def NewHub_def)

lemma hreachable_inv: "hreachable errtxt cid h \<Longrightarrow> hub_inv h"
  unfolding hreachable_def using hub_safe.run_keeps_all hub_inv_init by blast

lemma hreachable_init: "hreachable errtxt cid (NewHub cid)"
  unfolding hreachable_def by blast

lemma hreachable_step: "hreachable errtxt cid h \<Longrightarrow> hstep errtxt l h h' \<Longrightarrow> hreachable errtxt cid h'"
  unfolding hreachable_def by (blast intro: run_snoc)

text \<open>The hub after its first client has connected and registered.\<close>

definition one_client :: "string \<Rightarrow> Hub" where
  "one_client cid =
     (NewHub cid)\<lparr>clients := {''c''}, objs := [''c'' \<mapsto> start_pumps NewClient]\<rparr>"

lemma one_client_reachable: "hreachable errtxt cid (one_client cid)"
proof -
  let ?h = "(NewHub cid)\<lparr>objs := [''c'' \<mapsto> NewClient], registering := {''c''}\<rparr>"
  have "hstep errtxt (H_Connect ''c'') (NewHub cid) ?h"
    using hstep.connect [of "NewHub cid" "''c''" errtxt] by (simp add: NewHub_def)
  then have reach: "hreachable errtxt cid ?h"
    by (rule hreachable_step [OF hreachable_init])
  have reg: "hstep errtxt (H_Register ''c'') ?h (Run_register ''c'' ?h)"
    by (rule hstep.register) (simp_all add: NewHub_def)
  have "Run_register ''c'' ?h = one_client cid"
    by (simp add: Run_register_def one_client_def NewHub_def)
  with hreachable_step [OF reach reg] show ?thesis by simp
qed

text \<open>The same hub while its client's read pump handles a document.\<close>

lemma one_client_handling:
  "hreachable errtxt cid ((one_client cid)\<lparr>objs := [''c'' \<mapsto> (start_pumps NewClient)\<lparr>read_pump := Handling doc\<rparr>]\<rparr>)"
  (is "hreachable errtxt cid ?h")
proof -
  have "hstep errtxt (H_Recv ''c'' doc) (one_client cid) ?h"
    using hstep.recv [of "one_client cid" "''c''" "start_pumps NewClient" errtxt doc]
    by (simp add: one_client_def start_pumps_def NewClient_def)
  then show ?thesis by (rule hreachable_step [OF one_client_reachable])
qed

section \<open>Fan-out\<close>

lemma dispatch_frame:
  assumes "hub_inv h"
  shows "clients (dispatch m h) = clients h" and "hub_ClientID (dispatch m h) = hub_ClientID h"
  by (simp_all add: dispatch_eq [OF assms])

lemma stamp_frame: "hub_ClientID h = hub_ClientID h' \<Longrightarrow> stamp h = stamp h'"
  by (simp add: stamp_def fun_eq_iff)

lemma stamp_type [simp]: "sm_Type (stamp h m) = sm_Type m"
  by (simp add: stamp_def)

lemma dispatch_client:
  assumes inv: "hub_inv h" and i: "i \<in> clients h" and c: "objs h i = Some c"
  shows "\<exists>c'. objs (dispatch m h) i = Some c' \<and> events c' = events c \<and>
    push_all send_or_drop (send c) (filter (\<lambda>m. sm_Type m \<in> events c) [stamp h m]) = Some (send c')"
proof -
  obtain c' where "offer (stamp h m) c = Some c'"
    using offer_registered [OF inv i, of "stamp h m"] c by auto
  then show ?thesis
    using c i by (auto simp: dispatch_eq [OF inv] offer_def split: if_splits)
qed

lemma push_all_append: "push_all push q (xs @ ys) =
    (case push_all push q xs of None \<Rightarrow> None | Some q' \<Rightarrow> push_all push q' ys)"
  by (induction push q xs rule: push_all.induct) (auto split: option.splits)

lemma dispatches_client:
  assumes "hub_inv h" and "i \<in> clients h" and "objs h i = Some c"
  shows "\<exists>c'. objs (fold dispatch ms h) i = Some c' \<and>
    push_all send_or_drop (send c)
      (filter (\<lambda>m. sm_Type m \<in> events c) (map (stamp h) ms)) = Some (send c')"
  using assms
proof (induction ms arbitrary: h c)
  case Nil
  then show ?case by simp
next
  case (Cons m ms)
  obtain c1 where c1: "objs (dispatch m h) i = Some c1" "events c1 = events c"
    "push_all send_or_drop (send c) (filter (\<lambda>m. sm_Type m \<in> events c) [stamp h m]) = Some (send c1)"
    using dispatch_client [OF Cons.prems] by blast
  have "i \<in> clients (dispatch m h)" using Cons.prems dispatch_frame(1) by simp
  from Cons.IH [OF inv_dispatch [OF Cons.prems(1)] this c1(1)] obtain c2 where
    "objs (fold dispatch ms (dispatch m h)) i = Some c2"
    "push_all send_or_drop (send c1)
      (filter (\<lambda>m. sm_Type m \<in> events c) (map (stamp h) ms)) = Some (send c2)"
    using stamp_frame [OF dispatch_frame(2) [OF Cons.prems(1)]] c1(2) by auto
  then show ?case
    using c1(3) push_all_append [of send_or_drop "send c"
        "filter (\<lambda>m. sm_Type m \<in> events c) [stamp h m]"
        "filter (\<lambda>m. sm_Type m \<in> events c) (map (stamp h) ms)"]
    by (auto split: if_splits)
qed

lemma dispatches_queue:
  assumes inv: "hub_inv h" and "i \<in> clients h" and c: "objs h i = Some c"
  shows "\<exists>c'. objs (fold dispatch ms h) i = Some c' \<and>
    ch_buf (send c') = ch_buf (send c) @ take (256 - length (ch_buf (send c)))
      (filter (\<lambda>m. sm_Type m \<in> events c) (map (stamp h) ms))"
proof -
  have c0: "client_ok c" "\<not> done_closed c" using hub_inv_registered [OF inv assms(2)] c by auto
  then have "\<not> ch_closed (send c)" "length (ch_buf (send c)) \<le> ch_cap (send c)" "ch_cap (send c) = 256"
    by (auto simp: client_ok_def chan_ok_def)
  with chan_queue.push_all_items [OF this(1,2), of
      "filter (\<lambda>m. sm_Type m \<in> events c) (map (stamp h) ms)"] dispatches_client [OF assms]
  show ?thesis by fastforce
qed

section \<open>What a client is ever sent\<close>

text \<open>
  Every message queued for or written to a client is a reply to one of its own requests or has a
  type it has subscribed to; a state message carries an id whenever the hub has one.
\<close>

definition deliverable :: "string \<Rightarrow> string set \<Rightarrow> ServerMessage \<Rightarrow> bool" where
  "deliverable cid evs m \<longleftrightarrow> sm_Type m \<in> evs \<union> {MsgTypeCurrent, MsgTypeError} \<and>
     (sm_Type m = MsgTypeState \<longrightarrow> cid \<noteq> [] \<longrightarrow> sm_ClientID m \<noteq> [])"

definition client_delivery :: "string \<Rightarrow> Client \<Rightarrow> bool" where
  "client_delivery cid c \<longleftrightarrow> (\<forall>m\<in>set (ch_buf (send c)). deliverable cid (events c) m) \<and>
     (\<forall>j\<in>set (out c). \<exists>m. j = json_of_server_message m \<and> deliverable cid (events c) m)"

definition delivery_inv :: "string \<Rightarrow> Hub \<Rightarrow> bool" where
  "delivery_inv cid h \<longleftrightarrow> hub_ClientID h = cid \<and> (\<forall>i c. objs h i = Some c \<longrightarrow> client_delivery cid c)"

lemma deliverable_mono: "deliverable cid evs m \<Longrightarrow> evs \<subseteq> evs' \<Longrightarrow> deliverable cid evs' m"
  by (auto simp: deliverable_def)

lemma delivery_same [simp]:
  "client_delivery cid (c\<lparr>read_pump := r\<rparr>) = client_delivery cid c"
  "client_delivery cid (c\<lparr>write_pump := b\<rparr>) = client_delivery cid c"
  "client_delivery cid (c\<lparr>conn_open := b\<rparr>) = client_delivery cid c"
  "client_delivery cid (c\<lparr>done_closed := b\<rparr>) = client_delivery cid c"
  "client_delivery cid (start_pumps c) = client_delivery cid c"
  by (simp_all add: client_delivery_def start_pumps_def)

lemma delivery_new: "client_delivery cid NewClient"
  by (simp add: client_delivery_def NewClient_def)

lemma delivery_close: "client_delivery cid c \<Longrightarrow> close_client c = Some c' \<Longrightarrow> client_delivery cid c'"
  by (auto simp: close_client_def closeChan_def client_delivery_def split: if_splits option.splits)

lemma delivery_send:
  assumes "client_delivery cid c" and "SendMessage m c = Some c'" and "deliverable cid (events c) m"
  shows "client_delivery cid c'"
proof -
  obtain ch where ch: "send_or_drop (send c) m = Some ch" "c' = c\<lparr>send := ch\<rparr>"
    using assms(2) by (auto simp: SendMessage_def)
  obtain ys where "ch_buf ch = ch_buf (send c) @ ys" "set ys \<subseteq> {m}"
    using send_or_drop_Some(5) [OF ch(1)] by blast
  with assms(1,3) show ?thesis by (auto simp: ch(2) client_delivery_def)
qed

lemma delivery_offer:
  assumes "client_delivery cid c" and "offer (stamp h m) c = Some c'" and "hub_ClientID h = cid"
  shows "client_delivery cid c'"
proof (cases "sm_Type m \<in> events c")
  case True
  then have "deliverable cid (events c) (stamp h m)"
    using assms(3) by (auto simp: deliverable_def stamp_def)
  with assms True show ?thesis by (auto simp: offer_SendMessage intro: delivery_send)
next
  case False
  with assms show ?thesis by (simp add: offer_SendMessage)
qed

lemma replies_deliverable:
  "deliverable cid evs (NewErrorMessage code t)" "deliverable cid evs (NewCurrentMessage s ids)"
  by (auto simp: deliverable_def NewErrorMessage_def NewCurrentMessage_def zero_server_message_def
      msg_type_defs Let_def split: list.splits)

lemma delivery_handle:
  assumes "client_delivery cid c" and "handle_message get errtxt ident doc c = Some c'"
  shows "client_delivery cid c'"
proof -
  have "client_delivery cid (subscribe es c)" for es
    using assms(1) deliverable_mono [of cid "events c" _ "events c \<union> set es"]
    unfolding client_delivery_def subscribe_def by fastforce
  with assms replies_deliverable show ?thesis
    by (auto simp: handle_message_def intro: delivery_send
        split: sum.splits if_splits option.splits)
qed

lemma delivery_write:
  "client_delivery cid c \<Longrightarrow> WritePump_step ok c = Some c' \<Longrightarrow> client_delivery cid c'"
  by (auto simp: WritePump_step_def tryRecv_def client_delivery_def
      split: list.splits if_splits)

lemma delivery_update: "delivery_inv cid h \<Longrightarrow> client_delivery cid c \<Longrightarrow>
    delivery_inv cid (h\<lparr>objs := (objs h)(i \<mapsto> c)\<rparr>)"
  by (simp add: delivery_inv_def)

lemma delivery_dispatch: "delivery_inv cid h \<Longrightarrow> delivery_inv cid (dispatch m h)"
  by (auto simp: delivery_inv_def dispatch_def Let_def bind_eq_Some_conv intro: delivery_offer
      split: if_splits)

lemma delivery_closeAll: "delivery_inv cid h \<Longrightarrow> delivery_inv cid (closeAllClients h)"
  using delivery_close
  by (auto simp: delivery_inv_def closeAllClients_def bind_eq_Some_conv split: if_splits) blast

lemma delivery_frame [simp]:
  "delivery_inv cid (h\<lparr>broadcast := b\<rparr>) = delivery_inv cid h"
  "delivery_inv cid (h\<lparr>hub_panic := p\<rparr>) = delivery_inv cid h"
  "delivery_inv cid (h\<lparr>reader_panic := p\<rparr>) = delivery_inv cid h"
  "delivery_inv cid (h\<lparr>ctx_done := p\<rparr>) = delivery_inv cid h"
  "delivery_inv cid (h\<lparr>running := p\<rparr>) = delivery_inv cid h"
  "delivery_inv cid (closeDone h) = delivery_inv cid h"
  by (simp_all add: delivery_inv_def closeDone_def)

lemma delivery_register: "delivery_inv cid h \<Longrightarrow> delivery_inv cid (Run_register i h)"
  by (auto simp: delivery_inv_def Run_register_def)

lemma delivery_unregister: "delivery_inv cid h \<Longrightarrow> delivery_inv cid (Run_unregister i h)"
  by (auto simp: delivery_inv_def Run_unregister_def bind_eq_Some_conv
      intro: delivery_close [rotated] split: option.splits)

lemma delivery_broadcasts:
  assumes "delivery_inv cid h"
  shows "delivery_inv cid (Broadcast m h)" and "delivery_inv cid (Run_broadcast h)"
  using assms
  by (auto simp: Broadcast_def Run_broadcast_def intro!: delivery_dispatch
      split: send_result.splits recv_result.splits)

interpretation delivery: step_invariant_all "hstep errtxt" "delivery_inv cid" for errtxt cid
proof unfold_locales
  fix l h h'
  assume step: "hstep errtxt l h h'" and inv: "delivery_inv cid h"
  have obj: "client_delivery cid c" if "objs h i = Some c" for i c
    using inv that by (simp add: delivery_inv_def)
  from step show "delivery_inv cid h'"
  proof cases
    case (connect i)
    with inv show ?thesis by (auto simp: delivery_inv_def delivery_new)
  next
    case (register_abort i)
    with inv show ?thesis by (auto simp: delivery_inv_def)
  next
    case (handle i c doc c')
    with delivery_handle [OF obj] show ?thesis by (auto intro: delivery_update [OF inv])
  next
    case (write_out i c ok c')
    with delivery_write [OF obj] show ?thesis by (auto intro: delivery_update [OF inv])
  qed (auto simp: inv obj intro: delivery_update delivery_register delivery_unregister
      delivery_broadcasts delivery_closeAll)
qed

lemma hreachable_delivery: "hreachable errtxt cid h \<Longrightarrow> delivery_inv cid h"
proof -
  assume "hreachable errtxt cid h"
  moreover have "delivery_inv cid (NewHub cid)" by (simp add: delivery_inv_def NewHub_def)
  ultimately show ?thesis unfolding hreachable_def using delivery.run_keeps_all by blast
qed

end
