(* ===== verification/Hub_Content.thy ===== *)
theory Hub_Content
  imports Hub_Inv
begin

text \<open>
  What the hub carries.  A property of messages that the hub's stamp keeps and that error replies
  have, and which the callers of \<open>Broadcast\<close> and \<open>GetCurrentPresence\<close> see to, holds of every message in
  the broadcast queue, in the send queues and on the connections.
\<close>

definition client_carries :: "(ServerMessage \<Rightarrow> bool) \<Rightarrow> Client \<Rightarrow> bool" where
  "client_carries P c \<longleftrightarrow> (\<forall>m\<in>set (ch_buf (send c)). P m) \<and>
     (\<forall>j\<in>set (out c). \<exists>m. j = json_of_server_message m \<and> P m)"

definition carries :: "(ServerMessage \<Rightarrow> bool) \<Rightarrow> Hub \<Rightarrow> bool" where
  "carries P h \<longleftrightarrow> (\<forall>m\<in>set (ch_buf (broadcast h)). P m) \<and>
     (\<forall>i c. objs h i = Some c \<longrightarrow> client_carries P c)"

text \<open>What the callers owe: their messages have the property.\<close>

definition supplies :: "(ServerMessage \<Rightarrow> bool) \<Rightarrow> hlabel \<Rightarrow> bool" where
  "supplies P l \<longleftrightarrow>
     (case l of H_Broadcast m \<Rightarrow> P m
      | H_Handle i get \<Rightarrow> (\<forall>snap ids. get = Some snap \<longrightarrow> P (NewCurrentMessage snap ids)) | _ \<Rightarrow> True)"

lemma carries_mono:
  assumes "carries P h" and "\<And>m. P m \<Longrightarrow> Q m"
  shows "carries Q h"
  using assms unfolding carries_def client_carries_def by metis

lemma carries_new: "carries P (NewHub cid)" "client_carries P NewClient"
  by (simp_all add: carries_def client_carries_def NewHub_def NewClient_def)

lemma client_carries_same [simp]:
  "client_carries P (c\<lparr>read_pump := r\<rparr>) = client_carries P c"
  "client_carries P (c\<lparr>write_pump := b\<rparr>) = client_carries P c"
  "client_carries P (c\<lparr>conn_open := b\<rparr>) = client_carries P c"
  "client_carries P (c\<lparr>done_closed := b\<rparr>) = client_carries P c"
  "client_carries P (subscribe es c) = client_carries P c"
  "client_carries P (start_pumps c) = client_carries P c"
  by (simp_all add: client_carries_def start_pumps_def subscribe_def)

lemma client_carries_close: "client_carries P c \<Longrightarrow> close_client c = Some c' \<Longrightarrow> client_carries P c'"
  by (auto simp: close_client_def closeChan_def client_carries_def split: if_splits option.splits)

lemma client_carries_send:
  assumes "client_carries P c" and "SendMessage m c = Some c'" and "P m"
  shows "client_carries P c'"
proof -
  obtain ch where ch: "send_or_drop (send c) m = Some ch" "c' = c\<lparr>send := ch\<rparr>"
    using assms(2) by (auto simp: SendMessage_def)
  obtain ys where "ch_buf ch = ch_buf (send c) @ ys" "set ys \<subseteq> {m}"
    using send_or_drop_Some(5) [OF ch(1)] by blast
  with assms(1,3) show ?thesis by (auto simp: ch(2) client_carries_def)
qed

lemma client_carries_offer:
  "client_carries P c \<Longrightarrow> offer m c = Some c' \<Longrightarrow> P m \<Longrightarrow> client_carries P c'"
  by (auto simp: offer_SendMessage intro: client_carries_send split: if_splits)

lemma client_carries_write:
  "client_carries P c \<Longrightarrow> WritePump_step ok c = Some c' \<Longrightarrow> client_carries P c'"
  by (auto simp: WritePump_step_def tryRecv_def client_carries_def split: list.splits if_splits)

lemma carries_update: "carries P h \<Longrightarrow> client_carries P c \<Longrightarrow> carries P (h\<lparr>objs := (objs h)(i \<mapsto> c)\<rparr>)"
  by (simp add: carries_def)

lemma carries_frame [simp]:
  "carries P (h\<lparr>hub_panic := p\<rparr>) = carries P h" "carries P (h\<lparr>reader_panic := p\<rparr>) = carries P h"
  "carries P (h\<lparr>ctx_done := p\<rparr>) = carries P h" "carries P (h\<lparr>running := p\<rparr>) = carries P h"
  "carries P (closeDone h) = carries P h" "carries P (h\<lparr>registering := r\<rparr>) = carries P h"
  "carries P (h\<lparr>clients := cs\<rparr>) = carries P h"
  by (simp_all add: carries_def closeDone_def)

lemma carries_sections:
  assumes "carries P h"
  shows "carries P (Run_register i h)" and "carries P (Run_unregister i h)" and "carries P (closeAllClients h)"
  using assms client_carries_close
  by (auto simp: carries_def Run_register_def Run_unregister_def closeAllClients_def bind_eq_Some_conv
      split: option.splits if_splits) (blast+)

lemma carries_Broadcast: "carries P h \<Longrightarrow> P m \<Longrightarrow> carries P (Broadcast m h)"
  by (auto simp: carries_def Broadcast_def trySend_def split: send_result.splits if_splits)

locale hub_content =
  fixes P :: "ServerMessage \<Rightarrow> bool"
  assumes stamped: "P m \<Longrightarrow> P (stamp h m)"
    and error_reply: "P (NewErrorMessage code t)"
begin

lemma carries_dispatch: "carries P h \<Longrightarrow> P m \<Longrightarrow> carries P (dispatch m h)"
  by (auto simp: carries_def dispatch_def Let_def bind_eq_Some_conv
      intro: client_carries_offer stamped split: if_splits)

lemma carries_Run_broadcast:
  assumes "carries P h"
  shows "carries P (Run_broadcast h)"
proof (cases "tryRecv (broadcast h)")
  case (Received m ch)
  then have "P m" "carries P (h\<lparr>broadcast := ch\<rparr>)"
    using assms by (auto simp: carries_def tryRecv_def split: list.splits if_splits)
  with carries_dispatch show ?thesis by (simp add: Run_broadcast_def Received)
qed (simp_all add: Run_broadcast_def assms)

lemma carries_handle:
  assumes "client_carries P c" and "handle_message get errtxt cid doc c = Some c'"
    and "\<And>snap ids. get = Some snap \<Longrightarrow> P (NewCurrentMessage snap ids)"
  shows "client_carries P c'"
  using assms error_reply
  by (auto simp: handle_message_def intro: client_carries_send split: sum.splits if_splits option.splits)

end

sublocale hub_content \<subseteq> content: step_invariant "hstep errtxt" "supplies P" "carries P" for errtxt
proof unfold_locales
  fix l h h'
  assume ok: "supplies P l" and step: "hstep errtxt l h h'" and inv: "carries P h"
  have obj: "client_carries P c" if "objs h i = Some c" for i c
    using inv that by (simp add: carries_def)
  from step show "carries P h'"
  proof cases
    case (connect i)
    with inv show ?thesis by (auto simp: carries_def carries_new)
  next
    case (register_abort i)
    with inv show ?thesis by (auto simp: carries_def)
  next
    case (handle i c doc get c')
    with carries_handle [OF obj] ok show ?thesis by (auto intro!: carries_update [OF inv] simp: supplies_def)
  next
    case (write_out i c ok c')
    with client_carries_write [OF obj] show ?thesis by (auto intro: carries_update [OF inv])
  qed (use ok in \<open>auto simp: inv obj supplies_def intro: carries_update carries_sections carries_Broadcast
      carries_Run_broadcast\<close>)
qed

end
