(* ===== verification/Whole_Proxy.thy ===== *)
theory Whole_Proxy
  imports Proxy Hub_Content "HOL-Library.Sublist"
begin

text \<open>
  The whole proxy at run time: the IPC side, the presence machine, the hub and the HTTP server as
  \<open>cmd/proxy/main.go\<close> connects them.  A step of \<open>wstep\<close> is a step of one part, or one of the calls by
  which the parts meet:
  \<^item> \<open>runIPCEventLoop\<close> calls \<open>hub.Broadcast\<close> and \<open>presence.Update\<close>; until the call has been made the loop
    does not go on (\<open>w_pending\<close>);
  \<^item> a callback of the presence machine counts the send and broadcasts the update;
  \<^item> the hub's message handler and the HTTP handlers read the snapshot and the IPC state of that moment;
  \<^item> an upgraded request creates a client of the hub, and the end of that client gives its slot back;
  \<^item> the clean-up goroutine of the rate limiter evicts expired addresses;
  \<^item> the signal cancels the one context of all goroutines, and \<open>main\<close> then shuts the parts down in order.

  The parts keep clocks of their own, which pass independently, so every relative speed is covered.
  Requests are allowed until \<open>main\<close> returns, which includes those that \<open>http.Server.Shutdown\<close> lets finish.
  The withdrawal of the mDNS announcement is not repeated here.
\<close>

section \<open>The state\<close>

datatype loop_call = Call_broadcast ServerMessage | Call_update Activity

datatype main_pc =
    Main_serving | Main_hub_closing | Main_hub_closed | Main_client_closed | Main_server_closed
  | Main_stopping | Main_returned

record world =
  w_ipc :: sys
  w_pres :: psys
  w_hub :: Hub
  w_srv :: Server
  w_sends :: "nat option"
  w_tracked :: "string set"
  w_pending :: "loop_call option"
  w_main :: main_pc

definition world_of :: "proxy \<Rightarrow> world" where
  "world_of px =
     \<lparr>w_ipc = px_sys px, w_pres = px_presence px, w_hub = px_hub px, w_srv = px_server px,
      w_sends = px_sends px, w_tracked = {}, w_pending = None, w_main = Main_serving\<rparr>"

section \<open>Where the parts meet\<close>

text \<open>The labels of \<open>runIPCEventLoop\<close>, and the call its last step has arrived at.\<close>

definition loop_label :: "ilabel \<Rightarrow> bool" where
  "loop_label l \<longleftrightarrow> l \<in> {I_Fetch, I_Wake, I_Quit, I_Event}"

definition new_call :: "sys \<Rightarrow> sys \<Rightarrow> loop_call option" where
  "new_call s t =
     (if length (bcasts s) < length (bcasts t) then Some (Call_broadcast (last (bcasts t)))
      else if length (updates s) < length (updates t) then Some (Call_update (last (updates t)))
      else None)"

definition inner_presence :: "plabel \<Rightarrow> bool" where
  "inner_presence l \<longleftrightarrow>
     (case l of L_RunExit n \<Rightarrow> True | L_Tick d \<Rightarrow> True | L_Fire g \<Rightarrow> True | L_Flush g \<Rightarrow> True
      | L_ReadSubs \<Rightarrow> True | L_Spawn \<Rightarrow> True | L_NotifyEnd \<Rightarrow> True | _ \<Rightarrow> False)"

text \<open>The hub's own steps; \<open>GetCurrentPresence\<close> is the snapshot of the presence machine.\<close>

definition inner_hub :: "PresenceSnapshot \<Rightarrow> hlabel \<Rightarrow> bool" where
  "inner_hub snap l \<longleftrightarrow>
     (case l of H_Connect i \<Rightarrow> False | H_Broadcast m \<Rightarrow> False | H_Cancel \<Rightarrow> False
      | H_CloseClients \<Rightarrow> False | H_CloseDone \<Rightarrow> False | H_Handle i get \<Rightarrow> get = Some snap | _ \<Rightarrow> True)"

text \<open>What the handlers of a request find; the rest of the environment is the request's own.\<close>

definition env_in :: "world \<Rightarrow> env \<Rightarrow> env" where
  "env_in w e = e\<lparr>cur_presence := Snapshot (pres (w_pres w)), cur_ipc := State_String (ipc_state (cli (w_ipc w)))\<rparr>"

section \<open>The steps\<close>

datatype wlabel =
    W_ipc ilabel | W_call | W_presence plabel | W_callback subscriber PresenceUpdate | W_hub hlabel
  | W_request env Request | W_upgrade env Request string | W_disconnected string
  | W_evict instant | W_cancel | W_main

inductive wstep ::
  "(string \<Rightarrow> ResponseFrame option) \<Rightarrow> (json \<Rightarrow> presence_Activity option) \<Rightarrow> (message_error \<Rightarrow> string)
    \<Rightarrow> wlabel \<Rightarrow> world \<Rightarrow> world \<Rightarrow> bool"
  for parseFrame :: "string \<Rightarrow> ResponseFrame option" and decode :: "json \<Rightarrow> presence_Activity option"
    and errtxt :: "message_error \<Rightarrow> string" where
  ipc: "istep parseFrame decode l (w_ipc w) s \<Longrightarrow> \<not> loop_label l \<Longrightarrow> l \<notin> {I_Cancel, I_MainClose} \<Longrightarrow>
     wstep parseFrame decode errtxt (W_ipc l) w (w\<lparr>w_ipc := s\<rparr>)"
| loop: "istep parseFrame decode l (w_ipc w) s \<Longrightarrow> loop_label l \<Longrightarrow> w_pending w = None \<Longrightarrow>
     wstep parseFrame decode errtxt (W_ipc l) w (w\<lparr>w_ipc := s, w_pending := new_call (w_ipc w) s\<rparr>)"
| call_broadcast: "w_pending w = Some (Call_broadcast m) \<Longrightarrow>
     wstep parseFrame decode errtxt W_call w (w\<lparr>w_hub := Broadcast m (w_hub w), w_pending := None\<rparr>)"
| call_update: "w_pending w = Some (Call_update a) \<Longrightarrow>
     wstep parseFrame decode errtxt W_call w (w\<lparr>w_pres := Update a (w_pres w), w_pending := None\<rparr>)"
| presence: "pstep l (w_pres w) p \<Longrightarrow> inner_presence l \<Longrightarrow>
     wstep parseFrame decode errtxt (W_presence l) w (w\<lparr>w_pres := p\<rparr>)"
| callback: "pstep (L_Callback (c, u)) (w_pres w) p \<Longrightarrow> on_update u (w_sends w, w_hub w) = (n, h) \<Longrightarrow>
     wstep parseFrame decode errtxt (W_callback c u) w (w\<lparr>w_pres := p, w_sends := n, w_hub := h\<rparr>)"
| hub: "hstep errtxt l (w_hub w) h \<Longrightarrow> inner_hub (Snapshot (pres (w_pres w))) l \<Longrightarrow>
     wstep parseFrame decode errtxt (W_hub l) w (w\<lparr>w_hub := h\<rparr>)"
| request: "w_main w \<noteq> Main_returned \<Longrightarrow> ServeHTTP (env_in w e) r (w_srv w) = (resp, srv) \<Longrightarrow>
     rs_body resp \<noteq> B_upgraded \<Longrightarrow> wstep parseFrame decode errtxt (W_request e r) w (w\<lparr>w_srv := srv\<rparr>)"
| upgrade: "w_main w \<noteq> Main_returned \<Longrightarrow> ServeHTTP (env_in w e) r (w_srv w) = (resp, srv) \<Longrightarrow>
     rs_body resp = B_upgraded \<Longrightarrow> hstep errtxt (H_Connect i) (w_hub w) h \<Longrightarrow>
     wstep parseFrame decode errtxt (W_upgrade e r i) w
       (w\<lparr>w_srv := srv, w_hub := h, w_tracked := insert i (w_tracked w)\<rparr>)"
| disconnected: "i \<in> w_tracked w \<Longrightarrow> objs (w_hub w) i = Some c \<Longrightarrow> done_closed c \<Longrightarrow>
     wstep parseFrame decode errtxt (W_disconnected i) w
       (w\<lparr>w_srv := trackDisconnect (w_srv w), w_tracked := w_tracked w - {i}\<rparr>)"
| evict: "rateLimiter (w_srv w) = Some rl \<Longrightarrow>
     wstep parseFrame decode errtxt (W_evict t) w (w\<lparr>w_srv := (w_srv w)\<lparr>rateLimiter := Some (evictExpired t rl)\<rparr>\<rparr>)"
| cancel: "istep parseFrame decode I_Cancel (w_ipc w) s \<Longrightarrow> pstep (L_Cancel 0) (w_pres w) p \<Longrightarrow>
     hstep errtxt H_Cancel (w_hub w) h \<Longrightarrow>
     wstep parseFrame decode errtxt W_cancel w (w\<lparr>w_ipc := s, w_pres := p, w_hub := h\<rparr>)"
| main_clients: "w_main w = Main_serving \<Longrightarrow> Hub.ctx_done (w_hub w) \<Longrightarrow> hstep errtxt H_CloseClients (w_hub w) h \<Longrightarrow>
     wstep parseFrame decode errtxt W_main w (w\<lparr>w_hub := h, w_main := Main_hub_closing\<rparr>)"
| main_done: "w_main w = Main_hub_closing \<Longrightarrow> hstep errtxt H_CloseDone (w_hub w) h \<Longrightarrow>
     wstep parseFrame decode errtxt W_main w (w\<lparr>w_hub := h, w_main := Main_hub_closed\<rparr>)"
| main_client: "w_main w = Main_hub_closed \<Longrightarrow> istep parseFrame decode I_MainClose (w_ipc w) s \<Longrightarrow>
     wstep parseFrame decode errtxt W_main w (w\<lparr>w_ipc := s, w_main := Main_client_closed\<rparr>)"
| main_server: "w_main w = Main_client_closed \<Longrightarrow>
     wstep parseFrame decode errtxt W_main w (w\<lparr>w_srv := Close_server (w_srv w), w_main := Main_server_closed\<rparr>)"
| main_stop: "w_main w = Main_server_closed \<Longrightarrow>
     wstep parseFrame decode errtxt W_main w (w\<lparr>w_pres := Stop (w_pres w), w_main := Main_stopping\<rparr>)"
| main_return: "w_main w = Main_stopping \<Longrightarrow> stop_returns (w_pres w) \<Longrightarrow>
     wstep parseFrame decode errtxt W_main w (w\<lparr>w_main := Main_returned\<rparr>)"

definition wreachable ::
  "(string \<Rightarrow> ResponseFrame option) \<Rightarrow> (json \<Rightarrow> presence_Activity option) \<Rightarrow> (message_error \<Rightarrow> string)
    \<Rightarrow> proxy \<Rightarrow> world \<Rightarrow> bool" where
  "wreachable parseFrame decode errtxt px w \<longleftrightarrow> (\<exists>ls. run_of (wstep parseFrame decode errtxt) ls (world_of px) w)"

section \<open>The parts as they run in the whole\<close>

interpretation to_ipc: step_projection "wstep parseFrame decode errtxt" "istep parseFrame decode" w_ipc
  for parseFrame decode errtxt
  by unfold_locales (erule wstep.cases; auto)

interpretation to_presence: step_projection "wstep parseFrame decode errtxt" pstep w_pres
  for parseFrame decode errtxt
  by unfold_locales (erule wstep.cases; auto intro: pstep.update pstep.stop)

lemma on_update_hub: "on_update u (n, h) = (n', h') \<Longrightarrow> h' = Broadcast (update_message u) h"
  by (simp add: on_update_def)

interpretation to_hub: step_projection "wstep parseFrame decode errtxt" "hstep errtxt" w_hub
  for parseFrame decode errtxt
  by unfold_locales (erule wstep.cases; auto dest!: on_update_hub intro: hstep.broadcast)

interpretation hub_in_whole: step_projection_inv "wstep parseFrame decode errtxt" "hstep errtxt" w_hub hub_inv
  for parseFrame decode errtxt
  by unfold_locales (rule hub_safe.step_keeps [OF TrueI])

lemma start_proxy_presence:
  "start_proxy ps env net mdns_ok hostname c = Serving px \<Longrightarrow>
     px_presence px = (Start (psys_init (CoalesceInterval (Discord c))))
       \<lparr>pres := fst (Subscribe 0 (pres (Start (psys_init (CoalesceInterval (Discord c))))))\<rparr>"
  by (auto simp: start_proxy_def Let_def split: option.splits if_splits sum.splits prod.splits)

lemma start_presence_reachable:
  "preachable d ((Start (psys_init d))\<lparr>pres := fst (Subscribe fn (pres (Start (psys_init d))))\<rparr>)"
  by (rule preachable_step [OF preachable_step [OF preachable_init pstep.start] pstep.subscribe])

lemma parts_reachable:
  assumes "start_proxy ps env net mdns_ok hostname c = Serving px"
    and "wreachable parseFrame decode errtxt px w"
  shows "ireachable parseFrame decode (Discord c) ps (w_ipc w)"
    and "preachable (CoalesceInterval (Discord c)) (w_pres w)"
    and "hreachable errtxt (dc_ClientID (Discord c)) (w_hub w)"
proof -
  obtain ls where run: "run_of (wstep parseFrame decode errtxt) ls (world_of px) w"
    using assms(2) by (auto simp: wreachable_def)
  note px = start_proxy_Serving [OF assms(1)] start_proxy_presence [OF assms(1)]
  show "ireachable parseFrame decode (Discord c) ps (w_ipc w)"
    using to_ipc.run_projects [OF run] by (auto simp: ireachable_def world_of_def px)
  show "preachable (CoalesceInterval (Discord c)) (w_pres w)"
    using to_presence.run_projects [OF run] start_presence_reachable run_append
    unfolding preachable_def by (fastforce simp: world_of_def px)
  show "hreachable errtxt (dc_ClientID (Discord c)) (w_hub w)"
    using to_hub.run_projects [OF run] by (auto simp: hreachable_def world_of_def px)
qed

section \<open>The calls of the event loop\<close>

lemma loop_step:
  assumes "istep parseFrame decode l s t" and "loop_label l"
  shows "updates t = updates s \<and> bcasts t = bcasts s \<or>
    updates t = updates s \<and>
      (\<exists>st. bcasts t = bcasts s @ [NewStateMessage st []] \<and> st \<in> {StateConnected, StateReconnecting}) \<or>
    bcasts t = bcasts s \<and> (\<exists>a. updates t = updates s @ [a])"
  using assms
  by (cases rule: istep.cases)
    (auto simp: loop_label_def loop_fetch_def loop_event_def loop_leave_def Let_def
      split: option.split recv_result.split)

lemma inner_step:
  assumes "istep parseFrame decode l s t" and "\<not> loop_label l"
  shows "updates t = updates s \<and> bcasts t = bcasts s"
  using assms
  by (cases rule: istep.cases)
    (auto simp: loop_label_def emit_def sup_begin_def sup_continue_def sup_retry_def sup_timer_def
      run_read_def run_close_def Let_def split: option.split sum.split prod.split run_next.split)

text \<open>
  The activities handed to the presence machine so far: all of the loop's updates but the one it is
  about to hand over.
\<close>

definition handed_over :: "world \<Rightarrow> Activity list" where
  "handed_over w =
     (case w_pending w of Some (Call_update a) \<Rightarrow> butlast (updates (w_ipc w)) | _ \<Rightarrow> updates (w_ipc w))"

definition pending_inv :: "world \<Rightarrow> bool" where
  "pending_inv w \<longleftrightarrow>
     (\<forall>a. w_pending w = Some (Call_update a) \<longrightarrow> updates (w_ipc w) = butlast (updates (w_ipc w)) @ [a]) \<and>
     (\<forall>m. w_pending w = Some (Call_broadcast m) \<longrightarrow> (\<exists>st. m = NewStateMessage st [] \<and> st \<in> {StateConnected, StateReconnecting}))"

lemma handed_over_frame:
  "w_pending w' = w_pending w \<Longrightarrow> updates (w_ipc w') = updates (w_ipc w) \<Longrightarrow> handed_over w' = handed_over w"
  by (simp add: handed_over_def split: option.split loop_call.split)

lemma pending_frame:
  "w_pending w' = w_pending w \<Longrightarrow> updates (w_ipc w') = updates (w_ipc w) \<Longrightarrow> pending_inv w' = pending_inv w"
  by (simp add: pending_inv_def)

lemma loop_calls:
  assumes "istep parseFrame decode l (w_ipc w) s" and "loop_label l" and "w_pending w = None"
  shows "handed_over (w\<lparr>w_ipc := s, w_pending := new_call (w_ipc w) s\<rparr>) = handed_over w"
    and "pending_inv (w\<lparr>w_ipc := s, w_pending := new_call (w_ipc w) s\<rparr>)"
    and "set (updates (w_ipc w)) \<subseteq> set (updates s)"
  using loop_step [OF assms(1,2)] assms(3) by (auto simp: handed_over_def pending_inv_def new_call_def)

lemma handed_over_subset: "set (handed_over w) \<subseteq> set (updates (w_ipc w))"
  by (auto simp: handed_over_def dest: in_set_butlastD split: option.splits loop_call.splits)

lemma handed_over_call: "pending_inv w \<Longrightarrow> w_pending w = Some (Call_update a) \<Longrightarrow>
    updates (w_ipc w) = handed_over w @ [a]"
  by (simp add: handed_over_def pending_inv_def)

section \<open>What the presence machine makes of the activities handed over\<close>

definition snapshot_from :: "Activity list \<Rightarrow> psys \<Rightarrow> bool" where
  "snapshot_from us p \<longleftrightarrow>
     (hasSource (pres p) \<longrightarrow> cached (pres p) \<in> set us) \<and>
     (\<not> stopped (pres p) \<longrightarrow> hasSource (pres p) = (us \<noteq> []) \<and> (us \<noteq> [] \<longrightarrow> cached (pres p) = last us))"

definition notified_from :: "Activity list \<Rightarrow> psys \<Rightarrow> bool" where
  "notified_from us p \<longleftrightarrow>
     subseq (notified p) us \<and>
     (\<not> Equals (cached (pres p)) (lastNotified (pres p)) \<longrightarrow> subseq (notified p @ [cached (pres p)]) us) \<and>
     (\<forall>x\<in>set (notifying p). upd_Activity (fst x) \<in> set (notified p)) \<and>
     (\<forall>x\<in>set (callbacks p). upd_Activity (snd x) \<in> set (notified p))"

definition presence_from :: "Activity list \<Rightarrow> psys \<Rightarrow> bool" where
  "presence_from us p \<longleftrightarrow> snapshot_from us p \<and> notified_from us p"

interpretation inner: step_invariant pstep
  "\<lambda>l. inner_presence l \<or> (\<exists>n. l = L_Cancel n) \<or> (\<exists>c. l = L_Callback c)" "presence_from us" for us
proof unfold_locales
  fix l p q
  assume l: "inner_presence l \<or> (\<exists>n. l = L_Cancel n) \<or> (\<exists>c. l = L_Callback c)"
    and step: "pstep l p q" and "presence_from us p"
  then have snap: "snapshot_from us p" and notif: "notified_from us p" by (simp_all add: presence_from_def)
  have "snapshot_from us q"
    using step l snap
    by (cases rule: pstep.cases)
      (auto simp: inner_presence_def snapshot_from_def presence_defs split: option.splits)
  moreover have "notified_from us q"
    using step l notif
    by (cases rule: pstep.cases)
      (auto simp: inner_presence_def notified_from_def presence_defs activity_eq.eq_refl split: option.splits)
  ultimately show "presence_from us q" by (simp add: presence_from_def)
qed

lemma presence_from_Update:
  assumes "presence_from us p"
  shows "presence_from (us @ [a]) (Update a p)"
proof (cases "stopped (pres p)")
  case True
  with assms show ?thesis
    by (auto simp: presence_from_def snapshot_from_def notified_from_def Update_def Let_def intro: subseq_rev_drop_many)
next
  case False
  with assms show ?thesis
    by (auto simp: presence_from_def snapshot_from_def notified_from_def Update_def Let_def intro: subseq_rev_drop_many)
qed

lemma presence_from_Stop: "presence_from us p \<Longrightarrow> presence_from us (Stop p)"
  by (auto simp: presence_from_def snapshot_from_def notified_from_def Stop_def Let_def split: option.split)

lemma presence_from_start:
  "presence_from [] ((Start (psys_init d))\<lparr>pres := fst (Subscribe fn (pres (Start (psys_init d))))\<rparr>)"
  by (simp add: presence_from_def snapshot_from_def notified_from_def Start_def psys_init_def NewPresence_def
      Subscribe_def Let_def activity_eq.eq_refl)

section \<open>What the clients can be told\<close>

text \<open>
  The messages that tell of nothing but the activities \<open>us\<close>: an update of one of them, a snapshot that
  is empty or holds one of them, a state of the connection, or an error reply.
\<close>

definition genuine :: "Activity list \<Rightarrow> ServerMessage \<Rightarrow> bool" where
  "genuine us m \<longleftrightarrow>
     (\<exists>a\<in>set us. \<exists>t. m = update_message \<lparr>upd_Activity = a, upd_Timestamp = t\<rparr>) \<or>
     (\<exists>ids. m = NewCurrentMessage \<lparr>Source = SourceNone, snap_Activity = None\<rparr> ids) \<or>
     (\<exists>a\<in>set us. \<exists>ids. m = NewCurrentMessage \<lparr>Source = SourceIPC, snap_Activity = Some a\<rparr> ids) \<or>
     (\<exists>st ids. m = NewStateMessage st ids \<and> st \<in> {StateConnected, StateReconnecting}) \<or>
     (\<exists>code t. m = NewErrorMessage code t)"

lemma genuine_mono: "genuine us m \<Longrightarrow> set us \<subseteq> set vs \<Longrightarrow> genuine vs m"
  unfolding genuine_def by blast

lemma genuine_update: "upd_Activity u \<in> set us \<Longrightarrow> genuine us (update_message u)"
  by (cases u) (auto simp: genuine_def)

lemma stamp_constructors:
  "stamp h (update_message u) = update_message u" "stamp h (NewCurrentMessage snap ids) = NewCurrentMessage snap ids"
  "stamp h (NewErrorMessage code t) = NewErrorMessage code t"
  "\<exists>ids'. stamp h (NewStateMessage st ids) = NewStateMessage st ids'"
proof -
  show "stamp h (update_message u) = update_message u" "stamp h (NewCurrentMessage snap ids) = NewCurrentMessage snap ids"
    "stamp h (NewErrorMessage code t) = NewErrorMessage code t"
    by (simp_all add: stamp_def update_message_def NewPresenceMessage_def NewCurrentMessage_def NewErrorMessage_def
        zero_server_message_def msg_type_defs Let_def split: list.split)
  have "stamp h (NewStateMessage st ids) = NewStateMessage st ids \<or>
      stamp h (NewStateMessage st ids) = NewStateMessage st [hub_ClientID h]"
    by (cases ids) (simp_all add: stamp_def NewStateMessage_def zero_server_message_def Let_def)
  then show "\<exists>ids'. stamp h (NewStateMessage st ids) = NewStateMessage st ids'" by blast
qed

interpretation genuine: hub_content "genuine us" for us
proof unfold_locales
  fix m h code t
  show "genuine us (NewErrorMessage code t)" by (auto simp: genuine_def)
  assume "genuine us m"
  then show "genuine us (stamp h m)"
    using stamp_constructors [of h] unfolding genuine_def by metis
qed

text \<open>The snapshot of the machine makes a genuine reply.\<close>

lemma genuine_snapshot: "snapshot_from us p \<Longrightarrow> genuine us (NewCurrentMessage (Snapshot (pres p)) ids)"
  by (auto simp: snapshot_from_def Snapshot_def genuine_def)

section \<open>The connection slots and the hub\<close>

definition slots_inv :: "int \<Rightarrow> world \<Rightarrow> bool" where
  "slots_inv m w \<longleftrightarrow> slots_match m (w_srv w, card (w_tracked w)) \<and> finite (w_tracked w) \<and>
     (\<forall>i c. objs (w_hub w) i = Some c \<longrightarrow> \<not> done_closed c \<longrightarrow> i \<in> w_tracked w) \<and>
     (\<forall>i\<in>w_tracked w. objs (w_hub w) i \<noteq> None)"

text \<open>No step of the hub but \<open>H_Connect\<close> brings a client to life, and none forgets one.\<close>

lemma close_client_done: "close_client c = Some c' \<Longrightarrow> done_closed c'"
  by (auto simp: close_client_def split: option.splits if_splits)

lemma handle_done: "handle_message get errtxt cid doc c = Some c' \<Longrightarrow> done_closed c' = done_closed c"
  by (auto simp: handle_message_def SendMessage_def subscribe_def split: sum.splits if_splits option.splits)

lemma write_done: "WritePump_step ok c = Some c' \<Longrightarrow> done_closed c' = done_closed c"
  by (auto simp: WritePump_step_def split: recv_result.splits if_splits)

lemma offer_done: "offer m c = Some c' \<Longrightarrow> done_closed c' = done_closed c"
  by (auto simp: offer_def split: if_splits)

lemma hub_step_objs:
  assumes "hstep errtxt l h h'" and "\<forall>i. l \<noteq> H_Connect i"
  shows "(\<forall>i. objs h' i = None \<longleftrightarrow> objs h i = None) \<and>
    (\<forall>i c'. objs h' i = Some c' \<longrightarrow> \<not> done_closed c' \<longrightarrow> (\<exists>c. objs h i = Some c \<and> \<not> done_closed c))"
  using assms
  by (cases rule: hstep.cases)
    (auto simp: hub_section_defs bind_eq_Some_conv dest: close_client_done handle_done write_done offer_done
      split: option.splits if_splits recv_result.splits send_result.splits)

section \<open>The invariants of the whole\<close>

definition flow_inv :: "world \<Rightarrow> bool" where
  "flow_inv w \<longleftrightarrow> pending_inv w \<and> presence_from (handed_over w) (w_pres w) \<and>
     carries (genuine (updates (w_ipc w))) (w_hub w)"

lemma flow_ipc:
  assumes "flow_inv w" and "w_pending w' = w_pending w" and "updates (w_ipc w') = updates (w_ipc w)"
    and "presence_from (handed_over w) (w_pres w')" and "carries (genuine (updates (w_ipc w))) (w_hub w')"
  shows "flow_inv w'"
  using assms pending_frame [OF assms(2,3)] handed_over_frame [OF assms(2,3)] by (simp add: flow_inv_def)

lemma flow_hub_step:
  assumes "flow_inv w" and "hstep errtxt l (w_hub w) h" and "supplies (genuine (updates (w_ipc w))) l"
  shows "carries (genuine (updates (w_ipc w))) h"
  using genuine.content.step_keeps [OF assms(3,2)] assms(1) by (simp add: flow_inv_def)

lemma flow_supplies:
  assumes "flow_inv w" and "inner_hub (Snapshot (pres (w_pres w))) l"
  shows "supplies (genuine (updates (w_ipc w))) l"
proof -
  have "snapshot_from (handed_over w) (w_pres w)" using assms(1) by (simp add: flow_inv_def presence_from_def)
  then have "genuine (updates (w_ipc w)) (NewCurrentMessage (Snapshot (pres (w_pres w))) ids)" for ids
    using genuine_snapshot genuine_mono [OF _ handed_over_subset] by blast
  with assms(2) show ?thesis by (auto simp: supplies_def inner_hub_def split: hlabel.splits)
qed

text \<open>An update in a callback is one of those notified, hence one of those handed over.\<close>

lemma flow_callback:
  assumes "flow_inv w" and "pstep (L_Callback (c, u)) (w_pres w) p"
  shows "genuine (updates (w_ipc w)) (update_message u)"
proof -
  have notif: "notified_from (handed_over w) (w_pres w)" using assms(1) by (simp add: flow_inv_def presence_from_def)
  have "(c, u) \<in> set (callbacks (w_pres w))" using assms(2) by (cases rule: pstep.cases) auto
  with notif have "upd_Activity u \<in> set (notified (w_pres w))" by (fastforce simp: notified_from_def)
  with notif have "upd_Activity u \<in> set (handed_over w)"
    by (auto simp: notified_from_def dest: list_emb_set)
  then have "upd_Activity u \<in> set (updates (w_ipc w))" using handed_over_subset by blast
  then show ?thesis by (rule genuine_update)
qed

interpretation flow: step_invariant_all "wstep parseFrame decode errtxt" flow_inv for parseFrame decode errtxt
proof unfold_locales
  fix l w w'
  assume step: "wstep parseFrame decode errtxt l w w'" and inv: "flow_inv w"
  note parts = inv [unfolded flow_inv_def]
  from step show "flow_inv w'"
  proof cases
    case (ipc l s)
    with inner_step [OF ipc(3,4)] parts show ?thesis by (auto intro!: flow_ipc [OF inv])
  next
    case (loop l s)
    have "carries (genuine (updates s)) (w_hub w)"
      using parts carries_mono genuine_mono [OF _ loop_calls(3) [OF loop(3,4,5)]] by blast
    with loop_calls(1,2) [OF loop(3,4,5)] parts show ?thesis by (simp add: flow_inv_def loop)
  next
    case (call_broadcast m)
    with parts have "genuine (updates (w_ipc w)) m" by (auto simp: pending_inv_def genuine_def)
    with parts call_broadcast show ?thesis
      by (simp add: flow_inv_def pending_inv_def handed_over_def carries_Broadcast)
  next
    case (call_update a)
    with parts have "updates (w_ipc w) = handed_over w @ [a]" by (simp add: handed_over_call)
    with presence_from_Update [of "handed_over w" "w_pres w" a] parts
    have "presence_from (updates (w_ipc w)) (Update a (w_pres w))" by simp
    moreover have "handed_over w' = updates (w_ipc w)" "pending_inv w'"
      using call_update by (simp_all add: handed_over_def pending_inv_def)
    ultimately show ?thesis using parts call_update by (simp add: flow_inv_def)
  next
    case (presence l p)
    with parts inner.step_keeps [OF _ presence(3)] show ?thesis by (auto intro!: flow_ipc [OF inv])
  next
    case (callback c u p n h)
    have "presence_from (handed_over w) p" using parts inner.step_keeps [OF _ callback(3)] by auto
    moreover have "carries (genuine (updates (w_ipc w))) h"
      using on_update_hub [OF callback(4)] flow_callback [OF inv callback(3)] parts by (simp add: carries_Broadcast)
    ultimately show ?thesis using callback by (auto intro!: flow_ipc [OF inv])
  next
    case (hub l h)
    with parts flow_hub_step [OF inv hub(3) flow_supplies [OF inv hub(4)]] show ?thesis
      by (auto intro!: flow_ipc [OF inv])
  next
    case (upgrade e r resp srv i h)
    with parts flow_hub_step [OF inv upgrade(6)] show ?thesis
      by (auto intro!: flow_ipc [OF inv] simp: supplies_def)
  next
    case (cancel s p h)
    have "updates s = updates (w_ipc w)" using inner_step [OF cancel(3)] by (simp add: loop_label_def)
    with parts cancel inner.step_keeps [OF _ cancel(4)] flow_hub_step [OF inv cancel(5)] show ?thesis
      by (auto intro!: flow_ipc [OF inv] simp: supplies_def)
  next
    case (main_clients h)
    with parts flow_hub_step [OF inv main_clients(5)] show ?thesis
      by (auto intro!: flow_ipc [OF inv] simp: supplies_def)
  next
    case (main_done h)
    with parts flow_hub_step [OF inv main_done(4)] show ?thesis
      by (auto intro!: flow_ipc [OF inv] simp: supplies_def)
  next
    case (main_client s)
    have "updates s = updates (w_ipc w)" using inner_step [OF main_client(4)] by (simp add: loop_label_def)
    with parts main_client show ?thesis by (auto intro!: flow_ipc [OF inv])
  next
    case main_stop
    with parts show ?thesis by (auto intro!: flow_ipc [OF inv] presence_from_Stop)
  qed (use parts in \<open>auto intro!: flow_ipc [OF inv]\<close>)
qed

lemma Broadcast_objs [simp]: "objs (Broadcast m h) = objs h"
  by (simp add: Broadcast_def split: send_result.split)

lemma slots_hub_step:
  assumes "slots_inv m w" and "hstep errtxt l (w_hub w) h" and "\<forall>i. l \<noteq> H_Connect i"
    and "w_srv w' = w_srv w" and "w_tracked w' = w_tracked w" and "w_hub w' = h"
  shows "slots_inv m w'"
  using assms(1,4-6) hub_step_objs [OF assms(2,3)] unfolding slots_inv_def by (metis (no_types))

lemma slots_frame:
  assumes "slots_inv m w" and "w_srv w' = w_srv w" and "w_tracked w' = w_tracked w"
    and "objs (w_hub w') = objs (w_hub w)"
  shows "slots_inv m w'"
  using assms by (simp add: slots_inv_def)

text \<open>A request moves the tracker as the number of connections moves.\<close>

lemma slots_request:
  assumes "slots_match m (s, n)" and "ServeHTTP e r s = (resp, s')"
  shows "slots_match m (s', if rs_body resp = B_upgraded then Suc n else n)"
  using slots_match_request [OF assms(1), of e r] assms(2) by simp

lemma slots_disconnect:
  assumes "slots_match m (s, Suc n)"
  shows "slots_match m (trackDisconnect s, n)"
  using slots_match_run [OF assms, of "[Connection_gone]"] by simp

lemma slots_Close: "slots_match m (Close_server s, n) = slots_match m (s, n)"
  by (simp add: slots_match_def Close_server_def)

interpretation slots: step_invariant_all "wstep parseFrame decode errtxt" "slots_inv m" for parseFrame decode errtxt m
proof unfold_locales
  fix l w w'
  assume step: "wstep parseFrame decode errtxt l w w'" and inv: "slots_inv m w"
  note parts = inv [unfolded slots_inv_def]
  from step show "slots_inv m w'"
  proof cases
    case (callback c u p n h)
    with on_update_hub [OF callback(4)] show ?thesis by (auto intro: slots_frame [OF inv])
  next
    case (hub l h)
    then show ?thesis by (auto intro!: slots_hub_step [OF inv hub(3)] simp: inner_hub_def)
  next
    case (request e r resp srv)
    with parts slots_request [OF _ request(4)] show ?thesis by (fastforce simp: slots_inv_def)
  next
    case (upgrade e r resp srv i h)
    from upgrade(6) have fresh: "objs (w_hub w) i = None" and h: "objs h = (objs (w_hub w))(i \<mapsto> NewClient)"
      by (auto elim: hstep.cases)
    with parts have "i \<notin> w_tracked w" by auto
    with parts slots_request [OF _ upgrade(4)] upgrade h show ?thesis by (fastforce simp: slots_inv_def)
  next
    case (disconnected i c)
    then have card: "card (w_tracked w) = Suc (card (w_tracked w - {i}))"
      using parts by (metis card_Suc_Diff1)
    have "slots_match m (trackDisconnect (w_srv w), card (w_tracked w - {i}))"
      by (rule slots_disconnect) (use parts card in metis)
    with parts disconnected show ?thesis by (auto simp: slots_inv_def)
  next
    case (cancel s p h)
    then show ?thesis by (auto intro!: slots_hub_step [OF inv cancel(5)])
  next
    case (main_clients h)
    then show ?thesis by (auto intro!: slots_hub_step [OF inv main_clients(5)])
  next
    case (main_done h)
    then show ?thesis by (auto intro!: slots_hub_step [OF inv main_done(4)])
  next
    case main_server
    with parts show ?thesis by (simp add: slots_inv_def slots_Close)
  next
    case (evict rl t)
    with parts show ?thesis by (simp add: slots_inv_def slots_match_def)
  qed (auto intro: slots_frame [OF inv])
qed

text \<open>The routes and the credentials stay what they were at the start.\<close>

definition gates :: "Server \<Rightarrow> (Request \<Rightarrow> bool) option \<times> (Request \<Rightarrow> bool) option \<times> (string \<times> handler) list" where
  "gates s = (srv_auth s, ws_auth s, mux s)"

interpretation gates: step_invariant_all "wstep parseFrame decode errtxt" "\<lambda>w. gates (w_srv w) = g"
  for parseFrame decode errtxt g
proof unfold_locales
  fix l w w'
  assume step: "wstep parseFrame decode errtxt l w w'" and inv: "gates (w_srv w) = g"
  have req: "gates s' = gates s" if "ServeHTTP e r s = (resp, s')" for e r s resp s'
    using ServeHTTP_frame [of e r s] that by (simp add: gates_def)
  from step show "gates (w_srv w') = g"
    by cases (use inv req in \<open>auto simp: gates_def trackDisconnect_def Close_server_def\<close>)
qed

section \<open>What holds of every state of the proxy\<close>

lemma wreachable_invs:
  assumes start: "start_proxy ps env net mdns_ok hostname c = Serving px"
    and reach: "wreachable parseFrame decode errtxt px w"
  shows "flow_inv w" and "slots_inv (MaxWSConnections (cfg_Server c)) w"
    and "gates (w_srv w) = gates (started_server c)" and "hub_inv (w_hub w)"
proof -
  obtain ls where run: "run_of (wstep parseFrame decode errtxt) ls (world_of px) w"
    using reach by (auto simp: wreachable_def)
  note px = start_proxy_Serving [OF start]
  have "presence_from [] (px_presence px)"
    by (subst start_proxy_presence [OF start]) (rule presence_from_start)
  then have "flow_inv (world_of px)"
    by (simp add: flow_inv_def pending_inv_def handed_over_def world_of_def start_proxy_Serving(2,3) [OF start]
        carries_new sys_init_def)
  then show "flow_inv w" by (rule flow.run_keeps_all [OF run])
  have "slots_inv (MaxWSConnections (cfg_Server c)) (world_of px)"
    by (simp add: slots_inv_def slots_match_def world_of_def px started_server_def NewConnectionTracker_def
        Count_def NewHub_def)
  then show "slots_inv (MaxWSConnections (cfg_Server c)) w" by (rule slots.run_keeps_all [OF run])
  show "gates (w_srv w) = gates (started_server c)"
    by (rule gates.run_keeps_all [OF run]) (simp add: world_of_def px)
  have "hub_inv (w_hub (world_of px))" by (simp add: world_of_def px hub_inv_init)
  then show "hub_inv (w_hub w)" by (rule hub_in_whole.whole.run_keeps_all [OF run])
qed

end
