(* ===== verification/Consumer.thy ===== *)
theory Consumer
  imports Messages Backoff
begin

text \<open>
  The example consumer, \<open>examples/consumer/main.go\<close> and \<open>protocol.go\<close>.  It repeats the protocol on
  purpose instead of importing it, so its message type, decoder and opening messages are modelled
  here and compared with the server's.  What the network does in a session is an argument;
  \<open>quoted\<close> is the rendering of \<open>%q\<close>.
\<close>

section \<open>Messages\<close>

record serverMessage =
  c_Type :: string
  c_Payload :: "json option"
  c_Status :: string
  c_ClientID :: string

datatype consumer_error =
    C_invalid_json | C_type_required | C_bad_payload string | C_bad_error_payload | C_unknown_type string

definition consumer_member :: "string \<Rightarrow> json \<Rightarrow> serverMessage \<Rightarrow> serverMessage option" where
  "consumer_member n v m =
     (if n = ''type'' then map_option (\<lambda>x. m\<lparr>c_Type := x\<rparr>) (decode_string v (c_Type m))
      else if n = ''payload'' then Some (m\<lparr>c_Payload := Some v\<rparr>)
      else if n = ''status'' then map_option (\<lambda>x. m\<lparr>c_Status := x\<rparr>) (decode_string v (c_Status m))
      else map_option (\<lambda>x. m\<lparr>c_ClientID := x\<rparr>) (decode_string v (c_ClientID m)))"

definition parse_message :: "json option \<Rightarrow> consumer_error + serverMessage" where
  "parse_message doc =
     (case Option.bind doc (\<lambda>j. decode_struct [''type'', ''payload'', ''status'', ''client_id''] consumer_member j
         \<lparr>c_Type = [], c_Payload = None, c_Status = [], c_ClientID = []\<rparr>) of
        None \<Rightarrow> Inl C_invalid_json
      | Some m \<Rightarrow> if c_Type m = [] then Inl C_type_required else Inr m)"

definition activityTypeName :: "ActivityType \<Rightarrow> string" where
  "activityTypeName t =
     (if t = ActivityPlaying then ''Playing''
      else if t = ActivityStreaming then ''Streaming''
      else if t = ActivityListening then ''Listening''
      else if t = ActivityWatching then ''Watching''
      else if t = ActivityCustom then ''Custom''
      else if t = ActivityCompeting then ''Competing''
      else ''Unknown('' @ itoa (sint t) @ '')'')"

fun format_button_list :: "(string \<Rightarrow> string) \<Rightarrow> Button list \<Rightarrow> string \<Rightarrow> string" where
  "format_button_list quoted [] line = line"
| "format_button_list quoted (b # bs) line =
     format_button_list quoted bs (line @ '' button '' @ quoted (Label b) @ '' -> '' @ URL b)"

definition formatActivity :: "(string \<Rightarrow> string) \<Rightarrow> Activity \<Rightarrow> string" where
  "formatActivity quoted a =
     (let parts = (if a_Details a \<noteq> [] then [a_Details a] else []);
          parts = (if a_State a \<noteq> [] then parts @ [a_State a] else parts);
          line = join parts '' | '';
          line = (if line = [] then ''(no details)'' else line);
          line = line @ '' ['' @ activityTypeName (a_Type a) @ '']'';
          line = (case a_Party a of
                    None \<Rightarrow> line
                  | Some p \<Rightarrow> if 0 < sint (snd (party_Size p))
                      then line @ '' party '' @ itoa (sint (fst (party_Size p))) @ ''/'' @
                           itoa (sint (snd (party_Size p)))
                      else line)
      in format_button_list quoted (button_list (a_Buttons a)) line)"

definition error_fields_of_json :: "json \<Rightarrow> (string \<times> string) option" where
  "error_fields_of_json j = decode_struct [''code'', ''message''] (\<lambda>n v p.
     if n = ''code'' then map_option (\<lambda>x. (x, snd p)) (decode_string v (fst p))
     else map_option (\<lambda>x. (fst p, x)) (decode_string v (snd p))) j ([], [])"

definition formatMessage :: "(string \<Rightarrow> string) \<Rightarrow> serverMessage \<Rightarrow> consumer_error + string" where
  "formatMessage quoted m =
     (if c_Type m = ''presence'' \<or> c_Type m = ''current'' then
        (case Option.bind (c_Payload m) (\<lambda>j. snapshot_of_json j zero_snapshot) of
           None \<Rightarrow> Inl (C_bad_payload (c_Type m))
         | Some s \<Rightarrow>
             (case snap_Activity s of
                None \<Rightarrow> Inr (c_Type m @ '': no activity source ('' @ Source s @ '')'')
              | Some a \<Rightarrow>
                  if IsEmpty a then Inr (c_Type m @ '': cleared ('' @ Source s @ '')'')
                  else Inr (c_Type m @ '': '' @ formatActivity quoted a @ '' (source: '' @ Source s @ '')'')))
      else if c_Type m = ''state'' then
        (let line = ''state: discord '' @ c_Status m
         in Inr (if c_ClientID m \<noteq> [] then line @ '' (client '' @ c_ClientID m @ '')'' else line))
      else if c_Type m = ''error'' then
        (case Option.bind (c_Payload m) error_fields_of_json of
           None \<Rightarrow> Inl C_bad_error_payload
         | Some (code, txt) \<Rightarrow> Inr (''error: '' @ code @ '': '' @ txt))
      else Inl (C_unknown_type (c_Type m)))"

section \<open>A session\<close>

text \<open>The two opening messages; \<open>json.Marshal\<close> writes the members of a map in the order of their keys.\<close>

definition opening_messages :: "json list" where
  "opening_messages =
     [J_obj [(''events'', J_arr (map J_str [''presence'', ''state'', ''current''])), (''type'', J_str ''subscribe'')],
      J_obj [(''type'', J_str ''get_current'')]]"

definition consumer_header :: "string \<Rightarrow> (string \<times> string list) list" where
  "consumer_header token = (if token \<noteq> [] then [(''Authorization'', [''Bearer '' @ token])] else [])"

text \<open>
  What the network does in one session: whether the dial succeeds, how many of the opening messages
  can be written, whether the read deadline can be set, and the documents read before the read error
  that ends every session.
\<close>

record session =
  dial_ok :: bool
  writes_ok :: nat
  deadline_ok :: bool
  reads :: "json option list"

fun print_lines :: "(string \<Rightarrow> string) \<Rightarrow> json option list \<Rightarrow> string list" where
  "print_lines quoted [] = []"
| "print_lines quoted (d # ds) =
     (case parse_message d of
        Inl e \<Rightarrow> print_lines quoted ds
      | Inr m \<Rightarrow>
          (case formatMessage quoted m of
             Inl e \<Rightarrow> print_lines quoted ds
           | Inr line \<Rightarrow> line # print_lines quoted ds))"

definition consume :: "(string \<Rightarrow> string) \<Rightarrow> session \<Rightarrow> bool \<times> string list" where
  "consume quoted ses =
     (if \<not> dial_ok ses then (False, [])
      else if writes_ok ses < length opening_messages then (False, [])
      else if \<not> deadline_ok ses then (False, [])
      else (reads ses \<noteq> [], print_lines quoted (reads ses)))"

section \<open>The retry loop\<close>

definition reconnectMin :: int64 where "reconnectMin = 1000000000"
definition consumerMax :: int64 where "consumerMax = 30000000000"

text \<open>
  \<open>run\<close> against the sessions the network offers one after the other.  The context may be cancelled
  while a session runs or while the loop waits; the result is the list of delays waited, the lines
  printed, and whether \<open>run\<close> has returned (it does so only on cancellation).
\<close>

record turn =
  turn_session :: session
  cancelled_in_session :: bool
  cancelled_in_wait :: bool

fun run_loop :: "(string \<Rightarrow> string) \<Rightarrow> int64 \<Rightarrow> turn list \<Rightarrow> int64 list \<times> string list \<times> bool" where
  "run_loop quoted b [] = ([], [], False)"
| "run_loop quoted b (t # ts) =
     (case consume quoted (turn_session t) of
        (received, out) \<Rightarrow>
          if cancelled_in_session t then ([], out, True)
          else
            let b1 = (if received then reconnectMin else b)
            in if cancelled_in_wait t then ([b1], out, True)
               else
                 let b2 = (let d = b1 * 2 in if sless64 consumerMax d then consumerMax else d)
                 in (case run_loop quoted b2 ts of
                       (waits, out', ended) \<Rightarrow> (b1 # waits, out @ out', ended)))"

definition run :: "(string \<Rightarrow> string) \<Rightarrow> turn list \<Rightarrow> int64 list \<times> string list \<times> bool" where
  "run quoted ts = run_loop quoted reconnectMin ts"

section \<open>The consumer understands the server\<close>

lemma parse_message_of_server:
  assumes "sm_Type m \<noteq> []"
  shows "parse_message (Some (json_of_server_message m)) =
    Inr \<lparr>c_Type = sm_Type m, c_Payload = Payload m, c_Status = Status m, c_ClientID = sm_ClientID m\<rparr>"
proof -
  let ?ns = "[''type'', ''payload'', ''status'', ''client_id'']"
  have names: "''type'' \<in> set ?ns" "''payload'' \<in> set ?ns" "''status'' \<in> set ?ns" "''client_id'' \<in> set ?ns"
    by simp_all
  have "decode_struct ?ns consumer_member (json_of_server_message m)
      \<lparr>c_Type = [], c_Payload = None, c_Status = [], c_ClientID = []\<rparr> =
    Some \<lparr>c_Type = sm_Type m, c_Payload = Payload m, c_Status = Status m, c_ClientID = sm_ClientID m\<rparr>"
    by (cases m; cases "Payload m")
      (simp_all add: json_of_server_message_def decode_members_append
        decode_member_if [OF names(3)] decode_member_if [OF names(4)] field_of_exact [OF names(1)]
        field_of_exact [OF names(2)] consumer_member_def)
  then show ?thesis using assms by (simp add: parse_message_def)
qed

lemma error_fields_round_trip:
  "error_fields_of_json (J_obj [(''code'', J_str c), (''message'', J_str t)]) = Some (c, t)"
  by (simp add: error_fields_of_json_def field_of_exact)

text \<open>Every message of the server's constructors yields a line.\<close>

lemma formats_constructed:
  "\<exists>line. formatMessage quoted \<lparr>c_Type = MsgTypePresence, c_Payload = Some (json_of_snapshot s),
     c_Status = st, c_ClientID = i\<rparr> = Inr line"
  "\<exists>line. formatMessage quoted \<lparr>c_Type = MsgTypeCurrent, c_Payload = Some (json_of_snapshot s),
     c_Status = st, c_ClientID = i\<rparr> = Inr line"
  by (auto simp: formatMessage_def msg_type_defs snapshot_round_trip split: option.split)

lemma opening_accepted:
  "map ParseClientMessage (map Some opening_messages) =
     [Inr \<lparr>cm_Type = MsgTypeSubscribe, SubscribeEvents = Some [MsgTypePresence, MsgTypeState, MsgTypeCurrent]\<rparr>,
      Inr NewGetCurrentMessage]"
  by (simp add: opening_messages_def ParseClientMessage_def UnmarshalJSON_Client_def field_of_exact
      client_message_member_def zero_client_message_def decode_slice_def events_of_def msg_type_defs
      NewGetCurrentMessage_def)

section \<open>The delays\<close>

lemma consumer_range: "safe_range reconnectMin consumerMax"
  by (simp add: safe_range_def reconnectMin_def consumerMax_def)

text \<open>The number of sessions without a message just before the end of a list of sessions.\<close>

definition received :: "(string \<Rightarrow> string) \<Rightarrow> turn \<Rightarrow> bool" where
  "received quoted t = fst (consume quoted (turn_session t))"

fun delays_after :: "nat \<Rightarrow> bool list \<Rightarrow> int64 list" where
  "delays_after k [] = []"
| "delays_after k (r # rs) =
     (let j = (if r then 0 else k)
      in consumer_delay reconnectMin consumerMax j # delays_after (Suc j) rs)"

lemma run_loop_delays:
  assumes "\<forall>t\<in>set ts. \<not> cancelled_in_session t \<and> \<not> cancelled_in_wait t"
  shows "run_loop quoted (consumer_delay reconnectMin consumerMax k) ts =
    (delays_after k (map (received quoted) ts), concat (map (\<lambda>t. snd (consume quoted (turn_session t))) ts), False)"
  using assms
proof (induction ts arbitrary: k)
  case Nil
  then show ?case by simp
next
  case (Cons t ts)
  obtain r out where c: "consume quoted (turn_session t) = (r, out)" by force
  show ?case
    using Cons.IH [of "Suc (if r then 0 else k)"] Cons.prems
    by (cases r) (simp_all add: c received_def Let_def split: if_splits)
qed

definition sum_option :: "'e + 'a \<Rightarrow> 'a option" where
  "sum_option r = (case r of Inl _ \<Rightarrow> None | Inr x \<Rightarrow> Some x)"

lemma sum_option_Inr [simp]: "sum_option (Inr x) = Some x" "sum_option (Inl e) = None"
  by (simp_all add: sum_option_def)

lemma consumer_renders:
  "\<exists>line. Option.bind (sum_option (parse_message (Some (json_of_server_message (NewPresenceMessage snap)))))
      (\<lambda>m. sum_option (formatMessage quoted m)) = Some line"
  "\<exists>line. Option.bind (sum_option (parse_message (Some (json_of_server_message (NewCurrentMessage snap ids)))))
      (\<lambda>m. sum_option (formatMessage quoted m)) = Some line"
  "\<exists>line. Option.bind (sum_option (parse_message (Some (json_of_server_message (NewStateMessage st ids)))))
      (\<lambda>m. sum_option (formatMessage quoted m)) = Some line"
  "Option.bind (sum_option (parse_message (Some (json_of_server_message (NewErrorMessage code t)))))
      (\<lambda>m. sum_option (formatMessage quoted m)) = Some (''error: '' @ error_code_string code @ '': '' @ t)"
proof -
  have types: "sm_Type (NewPresenceMessage snap) = ''presence''" "sm_Type (NewCurrentMessage snap ids) = ''current''"
    "sm_Type (NewStateMessage st ids) = ''state''" "sm_Type (NewErrorMessage code t) = ''error''"
    "Payload (NewPresenceMessage snap) = Some (json_of_snapshot snap)"
    "Payload (NewCurrentMessage snap ids) = Some (json_of_snapshot snap)"
    "Payload (NewErrorMessage code t) = Some (J_obj [(''code'', J_str (error_code_string code)), (''message'', J_str t)])"
    by (simp_all add: NewPresenceMessage_def NewCurrentMessage_def NewStateMessage_def NewErrorMessage_def
        zero_server_message_def msg_type_defs Let_def split: list.split)
  show "\<exists>line. Option.bind (sum_option (parse_message (Some (json_of_server_message (NewPresenceMessage snap)))))
      (\<lambda>m. sum_option (formatMessage quoted m)) = Some line"
    by (simp add: parse_message_of_server types formatMessage_def snapshot_round_trip split: option.split)
  show "\<exists>line. Option.bind (sum_option (parse_message (Some (json_of_server_message (NewCurrentMessage snap ids)))))
      (\<lambda>m. sum_option (formatMessage quoted m)) = Some line"
    by (simp add: parse_message_of_server types formatMessage_def snapshot_round_trip split: option.split)
  show "\<exists>line. Option.bind (sum_option (parse_message (Some (json_of_server_message (NewStateMessage st ids)))))
      (\<lambda>m. sum_option (formatMessage quoted m)) = Some line"
    by (simp add: parse_message_of_server types formatMessage_def Let_def)
  show "Option.bind (sum_option (parse_message (Some (json_of_server_message (NewErrorMessage code t)))))
      (\<lambda>m. sum_option (formatMessage quoted m)) = Some (''error: '' @ error_code_string code @ '': '' @ t)"
    by (simp add: parse_message_of_server types formatMessage_def error_fields_round_trip)
qed

lemma delays_silent:
  "i < length rs \<Longrightarrow> \<forall>l\<le>i. \<not> rs ! l \<Longrightarrow> delays_after k rs ! i = consumer_delay reconnectMin consumerMax (k + i)"
proof (induction rs arbitrary: i k)
  case (Cons r rs)
  show ?case
  proof (cases i)
    case 0
    with Cons.prems show ?thesis by (simp add: Let_def)
  next
    case (Suc n)
    have "\<forall>l\<le>n. \<not> rs ! l" using Cons.prems(2) Suc by (metis Suc_le_mono nth_Cons_Suc)
    moreover have "\<not> r" using Cons.prems(2) by (metis le0 nth_Cons_0)
    ultimately show ?thesis using Cons.IH [of n "Suc k"] Cons.prems Suc by (simp add: Let_def)
  qed
qed simp

lemma delays_since:
  "i < length rs \<Longrightarrow> j \<le> i \<Longrightarrow> rs ! j \<Longrightarrow> \<forall>l. j < l \<and> l \<le> i \<longrightarrow> \<not> rs ! l \<Longrightarrow>
   delays_after k rs ! i = consumer_delay reconnectMin consumerMax (i - j)"
proof (induction rs arbitrary: i j k)
  case (Cons r rs)
  show ?case
  proof (cases i)
    case 0
    with Cons.prems show ?thesis by (simp add: Let_def)
  next
    case (Suc n)
    show ?thesis
    proof (cases j)
      case 0
      have "\<forall>l\<le>n. \<not> rs ! l" using Cons.prems(4) Suc 0 by (metis Suc_le_mono nth_Cons_Suc zero_less_Suc)
      with delays_silent [of n rs "Suc 0"] Cons.prems Suc 0 show ?thesis by (simp add: Let_def)
    next
      case (Suc m)
      have "\<forall>l. m < l \<and> l \<le> n \<longrightarrow> \<not> rs ! l"
        using Cons.prems(4) Suc \<open>i = Suc n\<close> by (metis Suc_le_mono Suc_less_eq nth_Cons_Suc)
      with Cons.IH [of n m "Suc (if r then 0 else k)"] Cons.prems Suc \<open>i = Suc n\<close> show ?thesis
        by (simp add: Let_def)
    qed
  qed
qed simp

lemma run_delay:
  assumes "\<forall>t\<in>set ts. \<not> cancelled_in_session t \<and> \<not> cancelled_in_wait t"
    and "i < length ts" and "j \<le> i" and "j = 0 \<or> received quoted (ts ! j)"
    and "\<forall>k. j < k \<and> k \<le> i \<longrightarrow> \<not> received quoted (ts ! k)"
  shows "sint (fst (run quoted ts) ! i) = min 30000000000 (1000000000 * 2 ^ (i - j))"
proof -
  let ?rs = "map (received quoted) ts"
  have "fst (run quoted ts) = delays_after 0 ?rs"
    using run_loop_delays [OF assms(1), of quoted 0] by (simp add: run_def)
  moreover have "delays_after 0 ?rs ! i = consumer_delay reconnectMin consumerMax (i - j)"
  proof (cases "received quoted (ts ! j)")
    case True
    with delays_since [of i ?rs j 0] assms(2,3,5) show ?thesis by simp
  next
    case False
    with assms(4) have "j = 0" by simp
    with False assms(5) have "\<forall>l\<le>i. \<not> received quoted (ts ! l)" by (metis neq0_conv)
    with delays_silent [of i ?rs 0] assms(2) \<open>j = 0\<close> show ?thesis by simp
  qed
  ultimately show ?thesis
    using consumer_backoff.delay_closed [OF consumer_range, of "i - j"]
    by (simp add: reconnectMin_def consumerMax_def)
qed

text \<open>The consumer's delays.  While it is not cancelled, the delay after each session is one second
  doubled once for every session without a message since the last one that delivered a message (or
  since the start), capped at thirty seconds.\<close>

lemma consumer_delays:
  assumes "\<forall>t\<in>set ts. \<not> cancelled_in_session t \<and> \<not> cancelled_in_wait t"
    and "i < length ts" and "j \<le> i" and "j = 0 \<or> received quoted (ts ! j)"
    and "\<forall>k. j < k \<and> k \<le> i \<longrightarrow> \<not> received quoted (ts ! k)"
  shows "sint (fst (run quoted ts) ! i) = min 30000000000 (1000000000 * 2 ^ (i - j))"
  by (rule run_delay [OF assms])

end
