(* ===== verification/Whole_Runs.thy ===== *)
theory Whole_Runs
  imports Whole_Proxy Consumer
begin

text \<open>
  Facts about the whole proxy that the properties rest on: what the handlers answer in every state,
  who its clients are, how it shuts down, and the way of one activity to the clients.
\<close>

section \<open>The data routes\<close>

lemma map_of_started:
  assumes "ws_path c \<notin> reserved_paths c" and "p \<in> {''/'', ''/api/presence'', ''/api/state'', ''/health'', ''/healthz'', ''/readyz''}"
  shows "map_of (mux (started_server c)) p = map_of (routes_of []) p"
proof -
  have "p \<in> fixed_paths" using assms(2) by (simp add: fixed_paths_def)
  then have "p \<noteq> ws_path c" using assms(1) by (auto simp: reserved_paths_def)
  then show ?thesis using assms(2) by (auto simp: started_server_def routes_of_def)
qed

lemma ServeHTTP_route:
  assumes "map_of (mux s) (Path r) = Some h" and "ContentLength r \<le> maxRequestBodyBytes"
  shows "ServeHTTP e r s = run_handler e h r s"
proof -
  have "Path r \<in> set (map fst (mux s))" using assms(1) by (force dest: map_of_SomeD)
  with assms show ?thesis
    by (simp add: ServeHTTP_def needs_slash_def mux_match_def RecoveryMiddleware_def split: prod.split)
qed

lemma requireAuth_passes:
  "authorized (srv_auth s) r \<Longrightarrow> rs_status (requireAuth s b r nxt) = rs_status nxt \<and>
     rs_body (requireAuth s b r nxt) = rs_body nxt"
  by (simp add: requireAuth_def authorized_def Let_def split: option.splits)

lemma State_String_connected: "State_String st = StateConnected \<longleftrightarrow> st = IPC_Connected"
  by (cases st) (simp_all add: StateConnected_def)

section \<open>Who the clients are\<close>

text \<open>A client of the hub was created by an upgrade, of a request that every gate let pass.\<close>

lemma upgrade_authorized:
  assumes "ServeHTTP e r s = (resp, s')" and "rs_body resp = B_upgraded"
  shows "authorized (ws_auth s) r"
proof -
  from assms have "ServeHTTP e r s = rateLimitWS e r s" using ServeHTTP_cases [of e r s] by auto
  with assms show ?thesis
    using rateLimitWS_response [of e r s] by (auto split: if_splits)
qed

lemma clients_upgraded:
  assumes "run_of (wstep parseFrame decode errtxt) ls w0 w" and "objs (w_hub w0) = Map.empty"
    and "gates (w_srv w0) = (a, Some auth, ms)" and "objs (w_hub w) i \<noteq> None"
  shows "\<exists>e r. W_upgrade e r i \<in> set ls \<and> auth r"
  using assms
proof (induction rule: run_of.induct)
  case (run_snoc ls w0 w l w')
  have g: "gates (w_srv w) = (a, Some auth, ms)"
    by (rule gates.run_keeps_all [OF run_snoc.hyps(1) run_snoc.prems(2)])
  show ?case
  proof (cases "objs (w_hub w) i = None")
    case False
    with run_snoc show ?thesis by auto
  next
    case True
    from run_snoc.hyps(2) show ?thesis
    proof cases
      case (upgrade e r resp srv j h)
      have "objs h = (objs (w_hub w))(j \<mapsto> NewClient)" using upgrade(6) by (auto elim: hstep.cases)
      with True run_snoc.prems(3) upgrade have "j = i" by (auto split: if_splits)
      moreover have "auth r"
        using upgrade_authorized [OF upgrade(4,5)] g by (simp add: gates_def authorized_def)
      ultimately show ?thesis using upgrade(1) by auto
    next
      case (hub l h)
      then have "\<forall>i. l \<noteq> H_Connect i" by (auto simp: inner_hub_def)
      with hub True run_snoc.prems(3) hub_step_objs [OF hub(3)] show ?thesis by auto
    next
      case (callback c u p n h)
      then show ?thesis using True run_snoc.prems(3) on_update_hub [OF callback(4)] by auto
    next
      case (cancel s p h)
      then show ?thesis using True run_snoc.prems(3) hub_step_objs [OF cancel(5)] by auto
    next
      case (main_clients h)
      then show ?thesis using True run_snoc.prems(3) hub_step_objs [OF main_clients(5)] by auto
    next
      case (main_done h)
      then show ?thesis using True run_snoc.prems(3) hub_step_objs [OF main_done(4)] by auto
    qed (use True run_snoc.prems(3) in auto)
  qed
qed simp

text \<open>The hub's clients are among those whose slots are held.\<close>

lemma clients_hold_slots:
  assumes "hub_inv (w_hub w)" and "slots_inv m w"
  shows "clients (w_hub w) \<subseteq> w_tracked w" and "ClientCount (w_hub w) \<le> card (w_tracked w)"
proof -
  show sub: "clients (w_hub w) \<subseteq> w_tracked w"
    using assms unfolding hub_inv_def slots_inv_def by blast
  show "ClientCount (w_hub w) \<le> card (w_tracked w)"
    using card_mono [OF _ sub] assms(2) by (simp add: ClientCount_def slots_inv_def)
qed

section \<open>Shutting down\<close>

text \<open>The context of the goroutines is one.\<close>

lemma ctx_sections [simp]:
  "sys.ctx_done (emit ch ev s) = sys.ctx_done s" "sys.ctx_done (sup_begin s) = sys.ctx_done s"
  "sys.ctx_done (sup_continue res s) = sys.ctx_done s" "sys.ctx_done (sup_retry s) = sys.ctx_done s"
  "sys.ctx_done (sup_timer env s) = sys.ctx_done s" "sys.ctx_done (run_close ch res s) = sys.ctx_done s"
  "sys.ctx_done (loop_fetch s) = sys.ctx_done s" "sys.ctx_done (loop_leave s) = sys.ctx_done s"
  "sys.ctx_done (HC_timed_out h s) = sys.ctx_done s"
  by (simp_all add: emit_def sup_begin_def sup_continue_def sup_retry_def sup_timer_def run_close_def
      loop_fetch_def loop_leave_def HC_timed_out_def Let_def split: option.split sum.split prod.split)

lemma ctx_sections' [simp]:
  "sys.ctx_done (run_read parseFrame ch r s) = sys.ctx_done s"
  "sys.ctx_done (loop_event decode ch s) = sys.ctx_done s"
  by (simp_all add: run_read_def loop_event_def Let_def split: run_next.split option.split recv_result.split)

lemma ctx_ipc: "istep parseFrame decode l s t \<Longrightarrow> l \<noteq> I_Cancel \<Longrightarrow> sys.ctx_done t = sys.ctx_done s"
  by (erule istep.cases) auto

lemma ctx_hub_sections [simp]:
  "Hub.ctx_done (Run_register i h) = Hub.ctx_done h" "Hub.ctx_done (Run_unregister i h) = Hub.ctx_done h"
  "Hub.ctx_done (dispatch m h) = Hub.ctx_done h" "Hub.ctx_done (closeAllClients h) = Hub.ctx_done h"
  "Hub.ctx_done (closeDone h) = Hub.ctx_done h"
  by (simp_all add: hub_section_defs split: option.split)

lemma ctx_hub_sections' [simp]: "Hub.ctx_done (Run_broadcast h) = Hub.ctx_done h"
  by (simp add: Run_broadcast_def split: recv_result.split)

lemma Broadcast_ctx [simp]: "Hub.ctx_done (Broadcast m h) = Hub.ctx_done h"
  by (simp add: Broadcast_def split: send_result.split)

lemma ctx_hub: "hstep errtxt l h h' \<Longrightarrow> l \<noteq> H_Cancel \<Longrightarrow> Hub.ctx_done h' = Hub.ctx_done h"
  by (erule hstep.cases) auto

interpretation one_context: step_invariant_all "wstep parseFrame decode errtxt"
  "\<lambda>w. sys.ctx_done (w_ipc w) = Hub.ctx_done (w_hub w)" for parseFrame decode errtxt
proof unfold_locales
  fix l w w'
  assume step: "wstep parseFrame decode errtxt l w w'" and inv: "sys.ctx_done (w_ipc w) = Hub.ctx_done (w_hub w)"
  have cancelled: "Hub.ctx_done h" if "hstep errtxt H_Cancel k h" for h k using that by (cases rule: hstep.cases) auto
  from step show "sys.ctx_done (w_ipc w') = Hub.ctx_done (w_hub w')"
  proof cases
    case (cancel s p h)
    then have "sys.ctx_done s" by (auto elim: istep.cases)
    with cancel cancelled show ?thesis by auto
  qed (use inv in \<open>auto simp: ctx_ipc ctx_hub loop_label_def inner_hub_def
      dest!: on_update_hub dest: ctx_ipc ctx_hub\<close>)
qed

lemma stopped_step: "pstep l p q \<Longrightarrow> l \<noteq> L_Start \<Longrightarrow> l \<noteq> L_Stop \<Longrightarrow> stopped (pres q) = stopped (pres p)"
  by (erule pstep.cases) (auto simp: presence_defs split: option.splits)

lemma closing_sections [simp]:
  "closing (Run_register i h) = closing h" "closing (Run_unregister i h) = closing h"
  "closing (dispatch m h) = closing h" "closing (closeDone h) = closing h"
  "closing h \<Longrightarrow> closing (closeAllClients h)"
  by (simp_all add: hub_section_defs split: option.split)

lemma closing_broadcasts [simp]: "closing (Run_broadcast h) = closing h" "closing (Broadcast m h) = closing h"
  by (simp_all add: Run_broadcast_def Broadcast_def split: recv_result.split send_result.split)

lemma closing_step: "hstep errtxt l h h' \<Longrightarrow> closing h \<Longrightarrow> closing h'"
  by (erule hstep.cases) auto

definition main_inv :: "world \<Rightarrow> bool" where
  "main_inv w \<longleftrightarrow> hub_inv (w_hub w) \<and> (w_main w \<noteq> Main_serving \<longrightarrow> closing (w_hub w)) \<and>
     (stopped (pres (w_pres w)) \<longleftrightarrow> w_main w \<in> {Main_stopping, Main_returned})"

interpretation main_point: step_invariant_all "wstep parseFrame decode errtxt" main_inv for parseFrame decode errtxt
proof unfold_locales
  fix l w w'
  assume step: "wstep parseFrame decode errtxt l w w'" and inv: "main_inv w"
  have "hub_inv (w_hub w')"
    using hub_in_whole.whole.step_keeps [OF TrueI step] inv by (simp add: main_inv_def)
  moreover from step have "(w_main w' \<noteq> Main_serving \<longrightarrow> closing (w_hub w')) \<and>
    (stopped (pres (w_pres w')) \<longleftrightarrow> w_main w' \<in> {Main_stopping, Main_returned})"
  proof cases
    case (presence l p)
    then have "l \<noteq> L_Start" "l \<noteq> L_Stop" by (auto simp: inner_presence_def)
    with inv presence stopped_step [OF presence(3)] show ?thesis by (auto simp: main_inv_def)
  next
    case (callback c u p n h)
    with inv on_update_hub [OF callback(4)] stopped_step [OF callback(3)]
      closing_step [OF hstep.broadcast [of errtxt "update_message u" "w_hub w"]] show ?thesis
      by (auto simp: main_inv_def)
  next
    case (call_broadcast m)
    with inv closing_step [OF hstep.broadcast [of errtxt m "w_hub w"]] show ?thesis by (auto simp: main_inv_def)
  next
    case (main_clients h)
    with inv show ?thesis by (auto simp: main_inv_def closing_after_close elim: hstep.cases)
  next
    case main_stop
    with inv show ?thesis by (auto simp: main_inv_def Stop_def Let_def split: option.split)
  qed (use inv in \<open>auto simp: main_inv_def Update_def Let_def dest: stopped_step closing_step\<close>)
  ultimately show "main_inv w'" by (simp add: main_inv_def)
qed

text \<open>The hub closes its clients only after the signal.\<close>

interpretation closing_cancelled: step_invariant_all "wstep parseFrame decode errtxt"
  "\<lambda>w. closing (w_hub w) \<longrightarrow> Hub.ctx_done (w_hub w)" for parseFrame decode errtxt
proof unfold_locales
  fix l w w'
  assume step: "wstep parseFrame decode errtxt l w w'" and inv: "closing (w_hub w) \<longrightarrow> Hub.ctx_done (w_hub w)"
  have own: "closing h' \<longrightarrow> Hub.ctx_done h'"
    if "hstep errtxt l h h'" "inner_hub snap l" "closing h \<longrightarrow> Hub.ctx_done h" for l h h' snap
    using that by (cases rule: hstep.cases) (auto simp: inner_hub_def)
  have main: "Hub.ctx_done h' = Hub.ctx_done h" "closing h' \<longrightarrow> closing h \<or> l = H_CloseClients"
    if "hstep errtxt l h h'" "l \<in> {H_CloseClients, H_CloseDone, H_Connect i}" for l h h' i
    using that by (cases rule: hstep.cases; auto)+
  from step show "closing (w_hub w') \<longrightarrow> Hub.ctx_done (w_hub w')"
  proof cases
    case (callback c u p n h)
    with inv on_update_hub [OF callback(4)] show ?thesis by auto
  next
    case (hub l h)
    with own [OF hub(3,4) inv] show ?thesis by simp
  next
    case (upgrade e r resp srv i h)
    with inv main [OF upgrade(6), of i] show ?thesis by auto
  next
    case (cancel s p h)
    then show ?thesis by (auto elim: hstep.cases)
  next
    case (main_clients h)
    with main(1) [OF main_clients(5)] show ?thesis by auto
  next
    case (main_done h)
    with inv main [OF main_done(4)] show ?thesis by auto
  qed (use inv in auto)
qed

text \<open>The steps \<open>main\<close> shuts down with: its own, and the end of the run goroutine it waits for.\<close>

definition shutdown_labels :: "wlabel set" where
  "shutdown_labels = insert W_main (range (\<lambda>n. W_presence (L_RunExit n)))"

lemma can_return_stopping:
  assumes "w_main w = Main_stopping" and "stop_inv (w_pres w)" and "stopped (pres (w_pres w))"
  shows "\<exists>ls w'. run_of (wstep parseFrame decode errtxt) ls w w' \<and> set ls \<subseteq> shutdown_labels \<and> length ls \<le> 2 \<and>
    w_main w' = Main_returned"
proof (cases "stop_returns (w_pres w)")
  case True
  from run_single [where step = "wstep parseFrame decode errtxt", OF wstep.main_return [OF assms(1) True]]
  show ?thesis by (intro exI conjI) (assumption, simp_all add: shutdown_labels_def)
next
  case False
  then obtain n where n: "doneCh (pres (w_pres w)) = Some n" "n \<notin> exited (w_pres w)"
    by (auto simp: stop_returns_def split: option.splits)
  with assms(2,3) have "n \<in> runs (w_pres w)" "n \<in> closed (w_pres w)" by (auto simp: stop_inv_def)
  then have p: "pstep (L_RunExit n) (w_pres w) (run_exit n (w_pres w))" by (intro pstep.run_exit) auto
  have 1: "wstep parseFrame decode errtxt (W_presence (L_RunExit n)) w (w\<lparr>w_pres := run_exit n (w_pres w)\<rparr>)"
    by (rule wstep.presence [OF p]) (simp add: inner_presence_def)
  let ?w = "w\<lparr>w_pres := run_exit n (w_pres w)\<rparr>"
  have 2: "wstep parseFrame decode errtxt W_main ?w (?w\<lparr>w_main := Main_returned\<rparr>)"
    by (rule wstep.main_return) (simp_all add: assms(1) n stop_returns_def run_exit_def)
  from run_Cons [OF 1 run_single [where step = "wstep parseFrame decode errtxt", OF 2]] show ?thesis
    by (intro exI conjI) (assumption, simp_all add: shutdown_labels_def)
qed

text \<open>Every point of \<open>main\<close> after the signal leads to its end.\<close>

fun main_left :: "main_pc \<Rightarrow> nat" where
  "main_left Main_serving = 7" | "main_left Main_hub_closing = 6" | "main_left Main_hub_closed = 5"
| "main_left Main_client_closed = 4" | "main_left Main_server_closed = 3" | "main_left Main_stopping = 2"
| "main_left Main_returned = 0"

lemma main_progress:
  assumes inv: "hub_inv (w_hub w)" and ctx: "Hub.ctx_done (w_hub w)" "sys.ctx_done (w_ipc w)"
    and clo: "w_main w \<noteq> Main_serving \<longrightarrow> closing (w_hub w)"
    and pc: "w_main w \<notin> {Main_stopping, Main_returned}"
  shows "\<exists>w'. wstep parseFrame decode errtxt W_main w w' \<and> main_left (w_main w) = Suc (main_left (w_main w'))"
proof (cases "w_main w")
  case Main_serving
  from wstep.main_clients [OF this ctx(1) hstep.close_clients] Main_serving show ?thesis
    by fastforce
next
  case Main_hub_closing
  from wstep.main_done [OF this hstep.close_done] clo Main_hub_closing show ?thesis by fastforce
next
  case Main_hub_closed
  from wstep.main_client [OF this istep.main_close [OF ctx(2)]] Main_hub_closed show ?thesis by fastforce
next
  case Main_client_closed
  from wstep.main_server [OF this] Main_client_closed show ?thesis by fastforce
next
  case Main_server_closed
  from wstep.main_stop [OF this] Main_server_closed show ?thesis by fastforce
qed (use pc in auto)

lemma can_return_from:
  assumes "main_inv w" and "stop_inv (w_pres w)" and "Hub.ctx_done (w_hub w)" and "sys.ctx_done (w_ipc w)"
  shows "\<exists>ls w'. run_of (wstep parseFrame decode errtxt) ls w w' \<and> set ls \<subseteq> shutdown_labels \<and>
    length ls \<le> main_left (w_main w) \<and> w_main w' = Main_returned"
  using assms
proof (induction "main_left (w_main w)" arbitrary: w rule: less_induct)
  case less
  let ?step = "wstep parseFrame decode errtxt"
  show ?case
  proof (cases "w_main w \<in> {Main_stopping, Main_returned}")
    case True
    then have "stopped (pres (w_pres w))" using less.prems(1) by (simp add: main_inv_def)
    with can_return_stopping [of w parseFrame decode errtxt] less.prems(2) True
      run_nil [of ?step w] show ?thesis
      by (metis (no_types, lifting) empty_subsetI insertE le0 list.set(1) list.size(3) main_left.simps(6) singletonD)
  next
    case False
    with main_progress [of w parseFrame decode errtxt] less.prems(1,3,4) obtain w1 where
      w1: "?step W_main w w1" "main_left (w_main w) = Suc (main_left (w_main w1))"
      by (auto simp: main_inv_def)
    have "main_inv w1" by (rule main_point.step_keeps [OF TrueI w1(1) less.prems(1)])
    moreover have "stop_inv (w_pres w1)"
      using to_presence.step_projects [OF w1(1)] stop.step_keeps less.prems(2) by metis
    moreover have "sys.ctx_done (w_ipc w1) = Hub.ctx_done (w_hub w1)"
      by (rule one_context.step_keeps [OF TrueI w1(1)]) (simp add: less.prems(3,4))
    moreover have "Hub.ctx_done (w_hub w1)"
      using w1(1) less.prems(3) by (cases rule: wstep.cases) (auto dest: ctx_hub)
    ultimately obtain ls w2 where "run_of ?step ls w1 w2" "set ls \<subseteq> shutdown_labels"
        "length ls \<le> main_left (w_main w1)" "w_main w2 = Main_returned"
      using less.hyps [of w1] w1(2) by auto
    with run_Cons [where step = ?step, OF w1(1)] w1(2) show ?thesis
      by (intro exI [of _ "W_main # ls"] exI [of _ w2]) (auto simp: shutdown_labels_def)
  qed
qed

text \<open>What the four invariants of the shutdown give for a state of the running proxy.\<close>

lemma wreachable_main:
  assumes start: "start_proxy ps env net mdns_ok hostname c = Serving px"
    and reach: "wreachable parseFrame decode errtxt px w"
  shows "main_inv w" and "stop_inv (w_pres w)" and "sys.ctx_done (w_ipc w) = Hub.ctx_done (w_hub w)"
    and "closing (w_hub w) \<longrightarrow> Hub.ctx_done (w_hub w)"
proof -
  obtain ls where run: "run_of (wstep parseFrame decode errtxt) ls (world_of px) w"
    using reach by (auto simp: wreachable_def)
  note px = start_proxy_Serving [OF start]
  have "hub_inv (w_hub (world_of px))" "\<not> closing (w_hub (world_of px))"
    by (simp_all add: world_of_def px hub_inv_init) (simp add: NewHub_def)
  moreover have "\<not> stopped (pres (w_pres (world_of px)))"
    by (simp add: world_of_def start_proxy_presence [OF start] Start_def Subscribe_def Let_def)
  ultimately have "main_inv (world_of px)" by (simp add: main_inv_def) (simp add: world_of_def)
  then show "main_inv w" by (rule main_point.run_keeps_all [OF run])
  show "stop_inv (w_pres w)" by (rule reachable_stop_inv [OF parts_reachable(2) [OF assms]])
  show "sys.ctx_done (w_ipc w) = Hub.ctx_done (w_hub w)"
    by (rule one_context.run_keeps_all [OF run]) (simp add: world_of_def px sys_init_def NewHub_def)
  show "closing (w_hub w) \<longrightarrow> Hub.ctx_done (w_hub w)"
    by (rule closing_cancelled.run_keeps_all [OF run]) (simp add: world_of_def px NewHub_def)
qed

section \<open>What the clients are sent\<close>

text \<open>The parser of the clients takes every genuine message for what it is.\<close>

lemma genuine_accepted:
  assumes "genuine us m"
  shows "ParseServerMessage (Some (json_of_server_message m)) = Inr m"
proof -
  have "valid_server m"
    using assms constructors_valid by (auto simp: genuine_def update_message_def)
  then show ?thesis by (rule server_wire.parse_encode)
qed

section \<open>The way of one activity to the clients\<close>

text \<open>The machine has the one subscriber that \<open>main\<close> gave it.\<close>

interpretation one_subscriber: step_invariant_all "wstep parseFrame decode errtxt"
  "\<lambda>w. subscribers (pres (w_pres w)) = subs" for parseFrame decode errtxt subs
proof unfold_locales
  fix l w w'
  assume step: "wstep parseFrame decode errtxt l w w'" and inv: "subscribers (pres (w_pres w)) = subs"
  have keep: "subscribers (pres q) = subscribers (pres p)"
    if "pstep l p q" "inner_presence l \<or> (\<exists>n. l = L_Cancel n) \<or> (\<exists>c. l = L_Callback c)" for l p q
    using that by (cases rule: pstep.cases) (auto simp: inner_presence_def presence_defs split: option.splits)
  from step show "subscribers (pres (w_pres w')) = subs"
  proof cases
    case main_stop
    with inv show ?thesis by (simp add: Stop_def Let_def split: option.split)
  qed (use inv in \<open>auto simp: Update_def Let_def keep\<close>)
qed

text \<open>A machine at rest: nobody inside \<open>notify\<close>, no timer goroutine started, room for a callback.\<close>

definition resting :: "psys \<Rightarrow> bool" where
  "resting p \<longleftrightarrow> \<not> stopped (pres p) \<and> fired p = [] \<and> notifying p = [] \<and>
     notifySem (pres p) < DefaultMaxConcurrentCallbacks \<and> subscribers (pres p) = [1 \<mapsto> 0]"

text \<open>A due timer, run to the end of its fan-out.\<close>

lemma presence_round:
  assumes g: "armed p g = Some t" "timer_inv p" and rest: "resting p"
    and new: "\<not> Equals (cached (pres p)) (lastNotified (pres p))"
  shows "\<exists>ls q u. run_of pstep ls p q \<and> list_all inner_presence ls \<and> upd_Activity u = cached (pres p) \<and>
    callbacks q = callbacks p @ [((1, 0), u)] \<and> invoked q = invoked p \<and> fired q = [] \<and> notifying q = [] \<and>
    notified q = notified p @ [cached (pres p)] \<and>
    pres q = (pres p)\<lparr>lastNotified := cached (pres p), timer := None, notifySem := Suc (notifySem (pres p))\<rparr>"
proof -
  have gen: "g = gen (pres p)" "timer (pres p) = Some g" using g by (auto simp: timer_inv_def)
  note idle = rest [unfolded resting_def]
  let ?d = "max 0 (t - clock p)"
  let ?u = "\<lparr>upd_Activity = cached (pres p), upd_Timestamp = clock p + ?d\<rparr>"
  let ?p1 = "p\<lparr>clock := clock p + ?d\<rparr>"
  let ?p2 = "?p1\<lparr>armed := (armed p)(g := None), fired := [g]\<rparr>"
  let ?p3 = "?p2\<lparr>fired := [], pres := (pres p)\<lparr>lastNotified := cached (pres p), timer := None\<rparr>,
    notifying := [(?u, None)], notified := notified p @ [cached (pres p)]\<rparr>"
  let ?p4 = "?p3\<lparr>notifying := [(?u, Some [(1, 0)])]\<rparr>"
  let ?p5 = "?p4\<lparr>notifying := [(?u, Some [])], pres := (pres ?p4)\<lparr>notifySem := Suc (notifySem (pres p))\<rparr>,
    callbacks := callbacks p @ [((1, 0), ?u)]\<rparr>"
  let ?p6 = "?p5\<lparr>notifying := []\<rparr>"
  have 1: "pstep (L_Tick ?d) p ?p1" by (rule pstep.tick) simp
  have 2: "pstep (L_Fire g) ?p1 ?p2" using pstep.fire [of ?p1 g t] g(1) idle by simp
  have 3: "pstep (L_Flush g) ?p2 ?p3"
    using pstep.flush [of g ?p2] gen new idle by (simp add: flush_def Let_def)
  have 4: "pstep L_ReadSubs ?p3 ?p4"
  proof -
    have "set [(1, 0)] = {(i, fn). subscribers (pres ?p3) i = Some fn}" using idle by (auto split: if_splits)
    with pstep.read_subs [of ?p3 "[]" ?u "[]" "[(1, 0)]"] show ?thesis by simp
  qed
  have 5: "pstep L_Spawn ?p4 ?p5" using pstep.spawn [of ?p4 "[]" ?u "(1, 0)" "[]" "[]"] idle by simp
  have 6: "pstep L_NotifyEnd ?p5 ?p6" using pstep.notify_end [of ?p5 "[]" ?u "[]"] by simp
  let ?ls = "[L_Tick ?d, L_Fire g, L_Flush g, L_ReadSubs, L_Spawn, L_NotifyEnd]"
  have "run_of pstep ?ls p ?p6"
    by (intro run_Cons [where step = pstep, OF 1] run_Cons [where step = pstep, OF 2]
        run_Cons [where step = pstep, OF 3] run_Cons [where step = pstep, OF 4]
        run_Cons [where step = pstep, OF 5] run_single 6)
  then show ?thesis
    by (intro exI [of _ ?ls] exI [of _ ?p6] exI [of _ ?u] conjI) (simp_all add: inner_presence_def)
qed

lemma run_in_whole:
  "run_of pstep ls p q \<Longrightarrow> list_all inner_presence ls \<Longrightarrow>
   run_of (wstep parseFrame decode errtxt) (map W_presence ls) (w\<lparr>w_pres := p\<rparr>) (w\<lparr>w_pres := q\<rparr>)"
proof (induction rule: run_of.induct)
  case (run_snoc ls p q l r)
  have "wstep parseFrame decode errtxt (W_presence l) (w\<lparr>w_pres := q\<rparr>) (w\<lparr>w_pres := r\<rparr>)"
    using wstep.presence [of l "w\<lparr>w_pres := q\<rparr>" r] run_snoc by simp
  with run_snoc show ?case by (auto intro: run_of.run_snoc)
qed simp

text \<open>What one broadcast leaves with a client.\<close>

definition told :: "ServerMessage \<Rightarrow> Client \<Rightarrow> Client \<Rightarrow> bool" where
  "told m c c' \<longleftrightarrow> events c' = events c \<and>
     ch_buf (send c') = ch_buf (send c) @ (if sm_Type m \<in> events c \<and> length (ch_buf (send c)) < 256 then [m] else [])"

lemma dispatch_tells:
  assumes inv: "hub_inv h" and i: "i \<in> clients h" and c: "objs h i = Some c" and m: "stamp h m = m"
  shows "\<exists>c'. objs (dispatch m h) i = Some c' \<and> told m c c'"
proof -
  obtain c' where c': "objs (dispatch m h) i = Some c'" "events c' = events c"
    "push_all send_or_drop (send c) (filter (\<lambda>m. sm_Type m \<in> events c) [stamp h m]) = Some (send c')"
    using dispatch_client [OF inv i c] by blast
  have "\<not> ch_closed (send c)" "ch_cap (send c) = 256"
    using hub_inv_registered [OF inv i] c by (auto simp: client_ok_def)
  then have "send c' = (if sm_Type m \<in> events c \<and> length (ch_buf (send c)) < 256
      then (send c)\<lparr>ch_buf := ch_buf (send c) @ [m]\<rparr> else send c)"
    using c'(3) m by (auto simp: send_or_drop_open split: if_splits)
  with c' show ?thesis by (auto simp: told_def)
qed

lemma activity_reaches_clients:
  assumes hub: "hub_inv (w_hub w)" "running (w_hub w)" "ch_buf (broadcast (w_hub w)) = []"
    and round: "run_of pstep ls (w_pres w) q" "list_all inner_presence ls" "callbacks q = [((1, 0), u)]"
  shows "\<exists>ks w'. run_of (wstep parseFrame decode errtxt) ks w w' \<and>
    set ks \<subseteq> range W_presence \<union> {W_callback (1, 0) u, W_hub H_Dispatch} \<and>
    (\<forall>i c. i \<in> clients (w_hub w) \<longrightarrow> objs (w_hub w) i = Some c \<longrightarrow>
       (\<exists>c'. objs (w_hub w') i = Some c' \<and> told (update_message u) c c'))"
proof -
  let ?step = "wstep parseFrame decode errtxt" and ?m = "update_message u" and ?h = "w_hub w"
  let ?w1 = "w\<lparr>w_pres := q\<rparr>"
  let ?q' = "q\<lparr>callbacks := [], invoked := invoked q @ [((1, 0), u)], pres := (pres q)\<lparr>notifySem := notifySem (pres q) - 1\<rparr>\<rparr>"
  let ?n = "map_option RecordPresenceSend (w_sends w)"
  let ?w2 = "?w1\<lparr>w_pres := ?q', w_sends := ?n, w_hub := Broadcast ?m ?h\<rparr>"
  let ?w3 = "?w2\<lparr>w_hub := Run_broadcast (Broadcast ?m ?h)\<rparr>"
  have open_queue: "\<not> ch_closed (broadcast ?h)" "ch_cap (broadcast ?h) = 256" using hub(1) by (auto simp: hub_inv_def)
  have 1: "run_of ?step (map W_presence ls) w ?w1"
    using run_in_whole [OF round(1,2), of parseFrame decode errtxt w] by simp
  have "pstep (L_Callback ((1, 0), u)) (w_pres ?w1) ?q'"
    using pstep.callback [of q "[]" "((1, 0), u)" "[]"] round(3) by simp
  from wstep.callback [OF this, of ?n "Broadcast ?m ?h"]
  have 2: "?step (W_callback (1, 0) u) ?w1 ?w2" by (simp add: on_update_def)
  have queued: "broadcast (Broadcast ?m ?h) = (broadcast ?h)\<lparr>ch_buf := [?m]\<rparr>" "running (Broadcast ?m ?h)"
    using open_queue hub(2,3) by (simp_all add: Broadcast_def trySend_def)
  then have "hstep errtxt H_Dispatch (w_hub ?w2) (Run_broadcast (Broadcast ?m ?h))"
    using hstep.dispatch [of "Broadcast ?m ?h" errtxt] by simp
  from wstep.hub [OF this, of parseFrame decode]
  have 3: "?step (W_hub H_Dispatch) ?w2 ?w3" by (simp add: inner_hub_def)
  have same: "?h\<lparr>broadcast := (broadcast ?h)\<lparr>ch_buf := []\<rparr>\<rparr> = ?h"
    using hub(3) by (cases ?h; cases "broadcast ?h") simp
  have "Run_broadcast (Broadcast ?m ?h) = dispatch ?m (?h\<lparr>broadcast := (broadcast ?h)\<lparr>ch_buf := []\<rparr>\<rparr>)"
    using open_queue hub(3) by (simp add: Run_broadcast_def Broadcast_def trySend_def tryRecv_def)
  also have "\<dots> = dispatch ?m ?h" by (simp only: same)
  finally have "Run_broadcast (Broadcast ?m ?h) = dispatch ?m ?h" .
  then have "\<exists>c'. objs (w_hub ?w3) i = Some c' \<and> told ?m c c'" if "i \<in> clients ?h" "objs ?h i = Some c" for i c
    using dispatch_tells [OF hub(1) that] stamp_constructors(1) by simp
  moreover have "run_of ?step ((map W_presence ls @ [W_callback (1, 0) u]) @ [W_hub H_Dispatch]) w ?w3"
    by (rule run_snoc [where step = ?step, OF run_snoc [where step = ?step, OF 1 2] 3])
  ultimately show ?thesis
    by (intro exI [of _ "(map W_presence ls @ [W_callback (1, 0) u]) @ [W_hub H_Dispatch]"] exI [of _ ?w3]) auto
qed

section \<open>Callbacks may overtake one another\<close>

lemma resting_Update: "resting p \<Longrightarrow> resting (Update a p)"
  by (simp add: resting_def Update_def Let_def)

lemma armed_Update: "\<not> stopped (pres p) \<Longrightarrow> \<exists>g t. armed (Update a p) g = Some t"
  by (auto simp: Update_def Let_def)

text \<open>
  Two activities far enough apart are notified in order, each by a goroutine of its own; the second
  goroutine may run first, and the clients then hear of the older activity last.
\<close>

lemma callbacks_overtake:
  assumes ab: "\<not> Equals a zero_activity" "\<not> Equals b a"
  shows "\<exists>s u v. preachable d s \<and> notified s = [a, b] \<and> cached (pres s) = b \<and> upd_Activity u = a \<and> upd_Activity v = b \<and>
    invoked s = [((1, 0), v), ((1, 0), u)]"
proof -
  let ?p0 = "(Start (psys_init d))\<lparr>pres := fst (Subscribe 0 (pres (Start (psys_init d))))\<rparr>"
  have r0: "preachable d ?p0" by (rule start_presence_reachable)
  have rest0: "resting ?p0"
    by (simp add: resting_def Start_def psys_init_def NewPresence_def Subscribe_def Let_def
        DefaultMaxConcurrentCallbacks_def)
  have init: "lastNotified (pres ?p0) = zero_activity" "callbacks ?p0 = []" "invoked ?p0 = []" "notified ?p0 = []"
      "notifySem (pres ?p0) = 0"
    by (simp_all add: Start_def psys_init_def NewPresence_def Subscribe_def Let_def)
  let ?p1 = "Update a ?p0"
  have r1: "preachable d ?p1" by (rule preachable_step [OF r0 pstep.update])
  have live: "\<not> stopped (pres ?p0)" using rest0 by (simp add: resting_def)
  have up1: "cached (pres ?p1) = a" "lastNotified (pres ?p1) = zero_activity" "callbacks ?p1 = []" "invoked ?p1 = []"
      "notified ?p1 = []" "notifySem (pres ?p1) = 0"
    using live init by (simp_all add: Update_def Let_def)
  obtain g t where "armed ?p1 g = Some t" using armed_Update [OF live, of a] by blast
  from presence_round [OF this reachable_timer_inv [OF r1] resting_Update [OF rest0]] up1 ab(1)
  obtain ls q u where q: "run_of pstep ls ?p1 q" "upd_Activity u = a" "callbacks q = [((1, 0), u)]" "invoked q = []"
      "fired q = []" "notifying q = []" "notified q = [a]"
      "pres q = (pres ?p1)\<lparr>lastNotified := a, timer := None, notifySem := 1\<rparr>"
    by auto
  have rq: "preachable d q" using r1 run_append [OF _ q(1)] unfolding preachable_def by blast
  have restq: "resting q"
    using resting_Update [OF rest0, of a] q(5,6,8) by (simp add: resting_def DefaultMaxConcurrentCallbacks_def)
  let ?q1 = "Update b q"
  have rq1: "preachable d ?q1" by (rule preachable_step [OF rq pstep.update])
  have liveq: "\<not> stopped (pres q)" using restq by (simp add: resting_def)
  have upq: "cached (pres ?q1) = b" "lastNotified (pres ?q1) = a" "callbacks ?q1 = [((1, 0), u)]" "invoked ?q1 = []"
      "notified ?q1 = [a]"
    using liveq q by (simp_all add: Update_def Let_def)
  obtain g t where "armed ?q1 g = Some t" using armed_Update [OF liveq, of b] by blast
  from presence_round [OF this reachable_timer_inv [OF rq1] resting_Update [OF restq]] upq ab(2)
  obtain ks r v where r: "run_of pstep ks ?q1 r" "upd_Activity v = b" "callbacks r = [((1, 0), u), ((1, 0), v)]"
      "invoked r = []" "notified r = [a, b]" "cached (pres r) = b"
    by auto
  have rr: "preachable d r" using rq1 run_append [OF _ r(1)] unfolding preachable_def by blast
  let ?r1 = "r\<lparr>callbacks := [((1, 0), u)], invoked := [((1, 0), v)],
    pres := (pres r)\<lparr>notifySem := notifySem (pres r) - 1\<rparr>\<rparr>"
  let ?r2 = "?r1\<lparr>callbacks := [], invoked := [((1, 0), v), ((1, 0), u)],
    pres := (pres ?r1)\<lparr>notifySem := notifySem (pres ?r1) - 1\<rparr>\<rparr>"
  have "pstep (L_Callback ((1, 0), v)) r ?r1"
    using pstep.callback [of r "[((1, 0), u)]" "((1, 0), v)" "[]"] r(3,4) by simp
  then have r1': "preachable d ?r1" by (rule preachable_step [OF rr])
  have "pstep (L_Callback ((1, 0), u)) ?r1 ?r2"
    using pstep.callback [of ?r1 "[]" "((1, 0), u)" "[]"] by simp
  then have "preachable d ?r2" by (rule preachable_step [OF r1'])
  with q(2) r(2,5,6) show ?thesis by (intro exI [of _ ?r2] exI [of _ u] exI [of _ v]) simp
qed

text \<open>What the hub queues for these two callbacks.\<close>

lemma overtaking_queue:
  "ch_buf (broadcast (snd (fold (\<lambda>x. on_update (snd x)) [(c, v), (c', u)] (n, NewHub cid)))) =
     [update_message v, update_message u]"
  by (simp add: on_update_def Broadcast_def trySend_def NewHub_def make_chan_def)

text \<open>From Discord to the screen.  An activity that the IPC side hands to the presence machine, once
  notified, is broadcast in a message that the hub does not alter and the client library accepts; the
  terminal client then holds exactly that activity, with its source and no error, and the example
  consumer prints its line.\<close>

lemma activity_end_to_end:
  assumes "ireachable parseFrame decode conf ps s" and "a \<in> set (updates s)"
    and "msg = update_message \<lparr>upd_Activity = a, upd_Timestamp = t\<rparr>"
  shows "stamp h msg = msg \<and>
    ParseServerMessage (Some (json_of_server_message msg)) = Inr msg \<and>
    applyServerMessage errtxt (Some msg) m =
      m\<lparr>m_snapshot := \<lparr>Source = SourceIPC, snap_Activity = Some a\<rparr>, m_lastErr := []\<rparr> \<and>
    parse_message (Some (json_of_server_message msg)) = Inr \<lparr>c_Type = ''presence'',
        c_Payload = Payload msg, c_Status = [], c_ClientID = []\<rparr> \<and>
    formatMessage quoted \<lparr>c_Type = ''presence'', c_Payload = Payload msg, c_Status = [], c_ClientID = []\<rparr> =
      Inr (if IsEmpty a then ''presence: cleared (ipc)''
           else ''presence: '' @ formatActivity quoted a @ '' (source: ipc)'')"
proof (intro conjI)
  have wf: "well_formed (upd_Activity \<lparr>upd_Activity = a, upd_Timestamp = t\<rparr>)"
    using updates_well_formed [OF assms(1,2)] by simp
  show "stamp h msg = msg"
    by (simp add: assms(3) update_message_def NewPresenceMessage_def stamp_def msg_type_defs zero_server_message_def)
  show "ParseServerMessage (Some (json_of_server_message msg)) = Inr msg"
    unfolding assms(3) by (rule shown_update(1) [OF wf])
  show "applyServerMessage errtxt (Some msg) m =
      m\<lparr>m_snapshot := \<lparr>Source = SourceIPC, snap_Activity = Some a\<rparr>, m_lastErr := []\<rparr>"
    using shown_update(2) [OF wf, of errtxt m] by (simp add: assms(3))
  show "parse_message (Some (json_of_server_message msg)) = Inr \<lparr>c_Type = ''presence'',
        c_Payload = Payload msg, c_Status = [], c_ClientID = []\<rparr>"
    using parse_message_of_server [of msg]
    by (simp add: assms(3) update_message_def NewPresenceMessage_def zero_server_message_def msg_type_defs)
  show "formatMessage quoted \<lparr>c_Type = ''presence'', c_Payload = Payload msg, c_Status = [], c_ClientID = []\<rparr> =
      Inr (if IsEmpty a then ''presence: cleared (ipc)''
           else ''presence: '' @ formatActivity quoted a @ '' (source: ipc)'')"
    using well_formed_buttons [OF wf]
    by (simp add: assms(3) update_message_def NewPresenceMessage_def zero_server_message_def formatMessage_def
        snapshot_round_trip SourceIPC_def)
qed

end
