(* ===== verification/Whole_Demo.thy ===== *)
theory Whole_Demo
  imports Whole_Runs
begin

text \<open>
  One run of the whole proxy: a session starts, a frame with an activity is read, the proxy announces
  that it is connected, a client with the token upgrades and subscribes, and the activity is handed to
  the presence machine.  The state it leads to, and two that follow it, show that the hypotheses of the
  properties of the whole can hold.
\<close>

definition demo_paths :: "string \<Rightarrow> path_result" where
  "demo_paths = (\<lambda>_. Ready None)"

definition demo_started :: proxy where
  "demo_started = demo_proxy [''p''] demo_paths"

lemma demo_started_serving:
  "start_proxy [''p''] demo_paths \<lparr>net_live = [], net_next = 0\<rparr> True None demo_config = Serving demo_started"
  unfolding demo_started_def by (rule demo_serving)

definition ws_request :: Request where
  "ws_request = (demo_request ''/ws'')\<lparr>Headers := [(''Authorization'', [''Bearer s3''])]\<rparr>"

lemma token_authorized: "BearerAuthFunc (Auth demo_config) (ws_request\<lparr>Path := p\<rparr>)"
proof -
  have "equal_fold_lower ''Bearer'' ''bearer''" by code_simp
  then show ?thesis
    by (simp add: BearerAuthFunc_iff demo_config_def ws_request_def demo_request_def extractToken_def
        extractBearerToken_def Header_Get_def first_value_def TrimSpace_graphic graphic_def)
qed

lemma ws_request_authorized: "BearerAuthFunc (Auth demo_config) ws_request"
  using token_authorized [of "''/ws''"] by (simp add: ws_request_def demo_request_def)

lemma ws_route: "map_of (mux (started_server demo_config)) (Path ws_request) = Some WebSocket"
  by (simp add: started_server_def ws_path_def demo_config_def routes_of_def ws_request_def demo_request_def)

lemma ws_upgraded:
  assumes "upgraded e = Upgrade_ok"
  shows "rs_body (fst (ServeHTTP e ws_request (started_server demo_config))) = B_upgraded"
proof -
  let ?s = "started_server demo_config"
  have "ServeHTTP e ws_request ?s = rateLimitWS e ws_request ?s"
    by (subst ServeHTTP_route [OF ws_route])
      (simp_all add: run_handler_def ws_request_def demo_request_def maxRequestBodyBytes_def)
  moreover have "admitted_by_limiter e ws_request ?s"
    by (simp add: admitted_by_limiter_def started_server_def NewRateLimiter_def Allow_def Let_def)
  moreover have "authorized (ws_auth ?s) ws_request"
    using ws_request_authorized by (simp add: authorized_def started_server_def demo_auth)
  moreover have "slot_free ?s"
    by (simp add: slot_free_def started_server_def NewConnectionTracker_def Count_def demo_config_def)
  ultimately show ?thesis by (simp add: rateLimitWS_response assms)
qed

section \<open>The run\<close>

text \<open>The two sides of the run: the IPC side before and after the frame is taken, and the hub with the
  client subscribed.\<close>

definition demo_ipc :: sys where
  "demo_ipc = loop_fetch (run_read text_frame 0 (Read_ok OpFrame []) (first_session quiet_config ''p''))"

definition demo_client :: Client where
  "demo_client = subscribe [MsgTypePresence, MsgTypeState, MsgTypeCurrent] (start_pumps NewClient)"

definition demo_hub :: Hub where
  "demo_hub = (NewHub ''1'')\<lparr>clients := {''c''}, objs := [''c'' \<mapsto> demo_client]\<rparr>"

definition demo_world :: world where
  "demo_world =
     (world_of demo_started)
       \<lparr>w_ipc := loop_event (\<lambda>_. Some plain_source) 0 demo_ipc,
        w_pres := Update plain_activity (px_presence demo_started), w_hub := demo_hub,
        w_srv := snd (ServeHTTP demo_env ws_request (started_server demo_config)), w_tracked := {''c''}\<rparr>"

lemma demo_ipc_steps:
  shows "istep text_frame decode I_Top (sys_init quiet_config [''p''] demo_paths) (first_session quiet_config ''p'')"
    and "istep text_frame decode (I_Read (Read_ok OpFrame [])) (first_session quiet_config ''p'')
      (run_read text_frame 0 (Read_ok OpFrame []) (first_session quiet_config ''p''))"
    and "istep text_frame decode I_Fetch
      (run_read text_frame 0 (Read_ok OpFrame []) (first_session quiet_config ''p'')) demo_ipc"
    and "istep text_frame (\<lambda>_. Some plain_source) I_Event demo_ipc (loop_event (\<lambda>_. Some plain_source) 0 demo_ipc)"
    and "bcasts (run_read text_frame 0 (Read_ok OpFrame []) (first_session quiet_config ''p'')) = []"
    and "bcasts demo_ipc = [NewStateMessage StateConnected []]" and "updates demo_ipc = []"
    and "bcasts (loop_event (\<lambda>_. Some plain_source) 0 demo_ipc) = bcasts demo_ipc"
    and "updates (loop_event (\<lambda>_. Some plain_source) 0 demo_ipc) = [plain_activity]"
    and "updates (run_read text_frame 0 (Read_ok OpFrame []) (first_session quiet_config ''p'')) = []"
proof -
  note defs = demo_ipc_def first_session_def run_read_def Run_read_def opcode_defs emit_def emitEvent_def text_frame_def
    send_or_drop_open has_room_def loop_fetch_def loop_event_def tryRecv_def Let_def
    event_activity_def ParseActivityFrame_def ParseActivityData_def plain_parses
  show "istep text_frame decode I_Top (sys_init quiet_config [''p''] demo_paths) (first_session quiet_config ''p'')"
    using istep.top [of "sys_init quiet_config [''p''] demo_paths" text_frame decode]
    by (simp add: sup_begin_def sys_init_def Connect_def New_ipc_def setState_def start_session_def
        displayName_def eventBufferSize_def first_session_def demo_paths_def)
  show "istep text_frame decode (I_Read (Read_ok OpFrame [])) (first_session quiet_config ''p'')
      (run_read text_frame 0 (Read_ok OpFrame []) (first_session quiet_config ''p''))"
    by (rule istep.read) (simp add: first_session_def)
  show "istep text_frame decode I_Fetch
      (run_read text_frame 0 (Read_ok OpFrame []) (first_session quiet_config ''p'')) demo_ipc"
    unfolding demo_ipc_def by (rule istep.fetch) (simp add: defs)
  show "istep text_frame (\<lambda>_. Some plain_source) I_Event demo_ipc (loop_event (\<lambda>_. Some plain_source) 0 demo_ipc)"
    by (rule istep.event) (simp add: defs)
qed (simp_all add: demo_ipc_def first_session_def run_read_def Run_read_def opcode_defs emit_def emitEvent_def
    text_frame_def send_or_drop_open has_room_def loop_fetch_def loop_event_def tryRecv_def Let_def
    event_activity_def ParseActivityFrame_def ParseActivityData_def plain_parses)

lemma demo_hub_steps:
  shows "Run_broadcast (Broadcast (NewStateMessage StateConnected []) (NewHub ''1'')) = NewHub ''1''"
    and "hstep errtxt H_Dispatch (Broadcast (NewStateMessage StateConnected []) (NewHub ''1'')) (NewHub ''1'')"
    and "hstep errtxt (H_Connect ''c'') (NewHub ''1'')
      ((NewHub ''1'')\<lparr>objs := [''c'' \<mapsto> NewClient], registering := {''c''}\<rparr>)"
    and "hstep errtxt (H_Register ''c'') ((NewHub ''1'')\<lparr>objs := [''c'' \<mapsto> NewClient], registering := {''c''}\<rparr>)
      ((NewHub ''1'')\<lparr>clients := {''c''}, objs := [''c'' \<mapsto> start_pumps NewClient]\<rparr>)"
    and "hstep errtxt (H_Recv ''c'' (Some (hd opening_messages)))
      ((NewHub ''1'')\<lparr>clients := {''c''}, objs := [''c'' \<mapsto> start_pumps NewClient]\<rparr>)
      ((NewHub ''1'')\<lparr>clients := {''c''},
        objs := [''c'' \<mapsto> (start_pumps NewClient)\<lparr>read_pump := Handling (Some (hd opening_messages))\<rparr>]\<rparr>)"
    and "hstep errtxt (H_Handle ''c'' (Some snap)) ((NewHub ''1'')\<lparr>clients := {''c''},
        objs := [''c'' \<mapsto> (start_pumps NewClient)\<lparr>read_pump := Handling (Some (hd opening_messages))\<rparr>]\<rparr>) demo_hub"
proof -
  show b: "Run_broadcast (Broadcast (NewStateMessage StateConnected []) (NewHub ''1'')) = NewHub ''1''"
    by (simp add: hub_section_defs NewHub_def make_chan_def trySend_def tryRecv_def)
  have "running (Broadcast (NewStateMessage StateConnected []) (NewHub ''1''))"
      "ch_buf (broadcast (Broadcast (NewStateMessage StateConnected []) (NewHub ''1''))) \<noteq> []"
    by (simp_all add: Broadcast_def NewHub_def make_chan_def trySend_def)
  from hstep.dispatch [OF this, of errtxt]
  show "hstep errtxt H_Dispatch (Broadcast (NewStateMessage StateConnected []) (NewHub ''1'')) (NewHub ''1'')"
    by (simp only: b)
  show "hstep errtxt (H_Connect ''c'') (NewHub ''1'')
      ((NewHub ''1'')\<lparr>objs := [''c'' \<mapsto> NewClient], registering := {''c''}\<rparr>)"
    using hstep.connect [of "NewHub ''1''" "''c''" errtxt] by (simp add: NewHub_def)
  show "hstep errtxt (H_Register ''c'') ((NewHub ''1'')\<lparr>objs := [''c'' \<mapsto> NewClient], registering := {''c''}\<rparr>)
      ((NewHub ''1'')\<lparr>clients := {''c''}, objs := [''c'' \<mapsto> start_pumps NewClient]\<rparr>)"
    using hstep.register [of "(NewHub ''1'')\<lparr>objs := [''c'' \<mapsto> NewClient], registering := {''c''}\<rparr>" "''c''" errtxt]
    by (simp add: NewHub_def Run_register_def)
  show "hstep errtxt (H_Recv ''c'' (Some (hd opening_messages)))
      ((NewHub ''1'')\<lparr>clients := {''c''}, objs := [''c'' \<mapsto> start_pumps NewClient]\<rparr>)
      ((NewHub ''1'')\<lparr>clients := {''c''},
        objs := [''c'' \<mapsto> (start_pumps NewClient)\<lparr>read_pump := Handling (Some (hd opening_messages))\<rparr>]\<rparr>)"
    using hstep.recv [of "(NewHub ''1'')\<lparr>clients := {''c''}, objs := [''c'' \<mapsto> start_pumps NewClient]\<rparr>" "''c''"
        "start_pumps NewClient" errtxt "Some (hd opening_messages)"]
    by (simp add: start_pumps_def NewClient_def)
  have "ParseClientMessage (Some (hd opening_messages)) =
      Inr \<lparr>cm_Type = MsgTypeSubscribe, SubscribeEvents = Some [MsgTypePresence, MsgTypeState, MsgTypeCurrent]\<rparr>"
    using opening_accepted by (simp add: opening_messages_def)
  then have m: "handle_message (Some snap) errtxt ''1'' (Some (hd opening_messages))
      ((start_pumps NewClient)\<lparr>read_pump := Handling (Some (hd opening_messages))\<rparr>) =
      Some (demo_client\<lparr>read_pump := Handling (Some (hd opening_messages))\<rparr>)"
    by (simp add: handle_message_def demo_client_def subscribe_def events_of_def start_pumps_def)
  let ?h = "(NewHub ''1'')\<lparr>clients := {''c''},
        objs := [''c'' \<mapsto> (start_pumps NewClient)\<lparr>read_pump := Handling (Some (hd opening_messages))\<rparr>]\<rparr>"
  have "demo_client\<lparr>read_pump := Handling (Some (hd opening_messages)), read_pump := Reading\<rparr> = demo_client"
    by (simp add: demo_client_def subscribe_def start_pumps_def NewClient_def)
  then show "hstep errtxt (H_Handle ''c'' (Some snap)) ?h demo_hub"
    using hstep.handle [of ?h "''c''" "(start_pumps NewClient)\<lparr>read_pump := Handling (Some (hd opening_messages))\<rparr>"
        "Some (hd opening_messages)" "Some snap" errtxt] m
    by (simp add: NewHub_def demo_hub_def)
qed

lemma demo_upgraded:
  "ServeHTTP (env_in w demo_env) ws_request (started_server demo_config) =
   ServeHTTP demo_env ws_request (started_server demo_config)"
proof -
  have run: "ServeHTTP e ws_request (started_server demo_config) = rateLimitWS e ws_request (started_server demo_config)" for e
    by (subst ServeHTTP_route [OF ws_route])
      (simp_all add: run_handler_def ws_request_def demo_request_def maxRequestBodyBytes_def)
  have same: "upgraded (env_in w demo_env) = upgraded demo_env" "subprotos (env_in w demo_env) = subprotos demo_env"
      "t_since (env_in w demo_env) = t_since demo_env" "t_now (env_in w demo_env) = t_now demo_env"
    by (simp_all add: env_in_def)
  have "WS_ServeHTTP (env_in w demo_env) = WS_ServeHTTP demo_env"
    by (intro ext) (simp only: WS_ServeHTTP_def upgrade_def same)
  then show ?thesis by (simp only: run rateLimitWS_def same)
qed

lemma demo_world_start:
  "world_of demo_started =
     \<lparr>w_ipc = sys_init quiet_config [''p''] demo_paths, w_pres = px_presence demo_started, w_hub = NewHub ''1'',
      w_srv = started_server demo_config, w_sends = None, w_tracked = {}, w_pending = None, w_main = Main_serving\<rparr>"
  by (simp add: world_of_def demo_started_def demo_proxy_def)

lemma demo_reachable: "wreachable text_frame (\<lambda>_. Some plain_source) errtxt demo_started demo_world"
proof -
  let ?step = "wstep text_frame (\<lambda>_. Some plain_source) errtxt"
  let ?m = "NewStateMessage StateConnected []"
  let ?srv = "snd (ServeHTTP demo_env ws_request (started_server demo_config))"
  let ?s1 = "first_session quiet_config ''p''" let ?s2 = "run_read text_frame 0 (Read_ok OpFrame []) ?s1"
  let ?s4 = "loop_event (\<lambda>_. Some plain_source) 0 demo_ipc"
  let ?h1 = "(NewHub ''1'')\<lparr>objs := [''c'' \<mapsto> NewClient], registering := {''c''}\<rparr>"
  let ?h2 = "(NewHub ''1'')\<lparr>clients := {''c''}, objs := [''c'' \<mapsto> start_pumps NewClient]\<rparr>"
  let ?h3 = "(NewHub ''1'')\<lparr>clients := {''c''},
    objs := [''c'' \<mapsto> (start_pumps NewClient)\<lparr>read_pump := Handling (Some (hd opening_messages))\<rparr>]\<rparr>"
  let ?w0 = "world_of demo_started" let ?w1 = "?w0\<lparr>w_ipc := ?s1\<rparr>" let ?w2 = "?w0\<lparr>w_ipc := ?s2\<rparr>"
  let ?w3 = "?w0\<lparr>w_ipc := demo_ipc, w_pending := Some (Call_broadcast ?m)\<rparr>"
  let ?w4 = "?w0\<lparr>w_ipc := demo_ipc, w_hub := Broadcast ?m (NewHub ''1'')\<rparr>"
  let ?w5 = "?w0\<lparr>w_ipc := demo_ipc\<rparr>"
  let ?w6 = "?w5\<lparr>w_srv := ?srv, w_hub := ?h1, w_tracked := {''c''}\<rparr>"
  let ?w7 = "?w6\<lparr>w_hub := ?h2\<rparr>" let ?w8 = "?w6\<lparr>w_hub := ?h3\<rparr>" let ?w9 = "?w6\<lparr>w_hub := demo_hub\<rparr>"
  let ?w10 = "?w9\<lparr>w_ipc := ?s4, w_pending := Some (Call_update plain_activity)\<rparr>"
  note start = demo_world_start and ipc = demo_ipc_steps and hub = demo_hub_steps
  have 1: "?step (W_ipc I_Top) ?w0 ?w1"
    by (rule wstep.ipc) (simp_all add: start ipc loop_label_def)
  have 2: "?step (W_ipc (I_Read (Read_ok OpFrame []))) ?w1 ?w2"
    using wstep.ipc [of text_frame "\<lambda>_. Some plain_source" "I_Read (Read_ok OpFrame [])" ?w1 ?s2 errtxt] ipc(2)
    by (simp add: loop_label_def)
  have 3: "?step (W_ipc I_Fetch) ?w2 ?w3"
    using wstep.loop [of text_frame "\<lambda>_. Some plain_source" I_Fetch ?w2 demo_ipc errtxt] ipc
    by (simp add: loop_label_def start new_call_def)
  have 4: "?step W_call ?w3 ?w4"
    using wstep.call_broadcast [of ?w3 ?m text_frame "\<lambda>_. Some plain_source" errtxt] by (simp add: start)
  have 5: "?step (W_hub H_Dispatch) ?w4 ?w5"
    using wstep.hub [of errtxt H_Dispatch ?w4 "NewHub ''1''" text_frame "\<lambda>_. Some plain_source"] hub(2) [of errtxt]
    by (simp add: inner_hub_def start)
  have demo_body: "rs_body (fst (ServeHTTP demo_env ws_request (started_server demo_config))) = B_upgraded"
    by (rule ws_upgraded) (simp add: demo_env_def)
  have 6: "?step (W_upgrade demo_env ws_request ''c'') ?w5 ?w6"
    using wstep.upgrade [of ?w5 demo_env ws_request "fst (ServeHTTP demo_env ws_request (started_server demo_config))"
        ?srv errtxt "''c''" ?h1 text_frame "\<lambda>_. Some plain_source"] hub(3) [of errtxt]
      demo_body by (simp add: start demo_upgraded)
  have 7: "?step (W_hub (H_Register ''c'')) ?w6 ?w7"
    using wstep.hub [of errtxt "H_Register ''c''" ?w6 ?h2 text_frame "\<lambda>_. Some plain_source"] hub(4) [of errtxt]
    by (simp add: inner_hub_def)
  have 8: "?step (W_hub (H_Recv ''c'' (Some (hd opening_messages)))) ?w7 ?w8"
    using wstep.hub [of errtxt "H_Recv ''c'' (Some (hd opening_messages))" ?w7 ?h3 text_frame "\<lambda>_. Some plain_source"]
      hub(5) [of errtxt] by (simp add: inner_hub_def)
  let ?snap = "Snapshot (pres (px_presence demo_started))"
  have 9: "?step (W_hub (H_Handle ''c'' (Some ?snap))) ?w8 ?w9"
    using wstep.hub [of errtxt "H_Handle ''c'' (Some ?snap)" ?w8 demo_hub text_frame "\<lambda>_. Some plain_source"]
      hub(6) [of errtxt ?snap] by (simp add: inner_hub_def start)
  have 10: "?step (W_ipc I_Event) ?w9 ?w10"
    using wstep.loop [of text_frame "\<lambda>_. Some plain_source" I_Event ?w9 ?s4 errtxt] ipc
    by (simp add: loop_label_def start new_call_def)
  have 11: "?step W_call ?w10 demo_world"
    using wstep.call_update [of ?w10 plain_activity text_frame "\<lambda>_. Some plain_source" errtxt]
    by (simp add: demo_world_def start)
  have "run_of ?step [W_ipc I_Top, W_ipc (I_Read (Read_ok OpFrame [])), W_ipc I_Fetch, W_call, W_hub H_Dispatch,
      W_upgrade demo_env ws_request ''c'', W_hub (H_Register ''c''), W_hub (H_Recv ''c'' (Some (hd opening_messages))),
      W_hub (H_Handle ''c'' (Some ?snap)), W_ipc I_Event, W_call] ?w0 demo_world"
    by (intro run_Cons [where step = ?step, OF 1] run_Cons [where step = ?step, OF 2] run_Cons [where step = ?step, OF 3]
        run_Cons [where step = ?step, OF 4] run_Cons [where step = ?step, OF 5] run_Cons [where step = ?step, OF 6]
        run_Cons [where step = ?step, OF 7] run_Cons [where step = ?step, OF 8] run_Cons [where step = ?step, OF 9]
        run_Cons [where step = ?step, OF 10] run_single [where step = ?step, OF 11])
  then show ?thesis unfolding wreachable_def by blast
qed

lemma demo_world_state:
  "updates (w_ipc demo_world) = [plain_activity]" "w_pending demo_world = None" "running (w_hub demo_world)"
  "ch_buf (broadcast (w_hub demo_world)) = []" "clients (w_hub demo_world) = {''c''}"
  "objs (w_hub demo_world) ''c'' = Some demo_client" "resting (w_pres demo_world)" "callbacks (w_pres demo_world) = []"
  "events demo_client = {MsgTypePresence, MsgTypeState, MsgTypeCurrent}" "ch_buf (send demo_client) = []"
  "\<not> Equals (cached (pres (w_pres demo_world))) (lastNotified (pres (w_pres demo_world)))"
  "\<exists>g t. armed (w_pres demo_world) g = Some t"
proof -
  show "updates (w_ipc demo_world) = [plain_activity]" by (simp add: demo_world_def demo_ipc_steps)
  show "w_pending demo_world = None" "running (w_hub demo_world)" "ch_buf (broadcast (w_hub demo_world)) = []"
    "clients (w_hub demo_world) = {''c''}" "objs (w_hub demo_world) ''c'' = Some demo_client"
    by (simp_all add: demo_world_def demo_world_start demo_hub_def NewHub_def make_chan_def)
  show "events demo_client = {MsgTypePresence, MsgTypeState, MsgTypeCurrent}" "ch_buf (send demo_client) = []"
    by (auto simp: demo_client_def subscribe_def start_pumps_def NewClient_def make_chan_def)
  show "resting (w_pres demo_world)" "callbacks (w_pres demo_world) = []"
      "\<not> Equals (cached (pres (w_pres demo_world))) (lastNotified (pres (w_pres demo_world)))"
    by (simp_all add: demo_world_def demo_started_def demo_proxy_def Let_def resting_def Update_def Start_def
        psys_init_def NewPresence_def Subscribe_def DefaultMaxConcurrentCallbacks_def
        Equals_def plain_activity_def zero_activity_def)
  have "\<not> stopped (pres (px_presence demo_started))"
    by (simp add: demo_started_def demo_proxy_def Let_def Start_def Subscribe_def)
  then show "\<exists>g t. armed (w_pres demo_world) g = Some t" by (simp add: demo_world_def armed_Update)
qed

text \<open>From there the client asks for the current presence and is answered; and the proxy is told to stop.\<close>

lemma demo_answered:
  "\<exists>w cl. wreachable text_frame (\<lambda>_. Some plain_source) errtxt demo_started w \<and> w_ipc w = w_ipc demo_world \<and>
     objs (w_hub w) ''c'' = Some cl \<and> out cl \<noteq> []"
proof -
  let ?step = "wstep text_frame (\<lambda>_. Some plain_source) errtxt" and ?doc = "Some (opening_messages ! 1)"
  let ?snap = "Snapshot (pres (w_pres demo_world))"
  let ?m = "NewCurrentMessage ?snap [''1'']"
  let ?h1 = "demo_hub\<lparr>objs := [''c'' \<mapsto> demo_client\<lparr>read_pump := Handling ?doc\<rparr>]\<rparr>"
  let ?c2 = "demo_client\<lparr>send := (send demo_client)\<lparr>ch_buf := [?m]\<rparr>\<rparr>"
  let ?h2 = "demo_hub\<lparr>objs := [''c'' \<mapsto> ?c2]\<rparr>"
  let ?c3 = "demo_client\<lparr>out := [json_of_server_message ?m]\<rparr>"
  let ?h3 = "demo_hub\<lparr>objs := [''c'' \<mapsto> ?c3]\<rparr>"
  let ?w1 = "demo_world\<lparr>w_hub := ?h1\<rparr>" let ?w2 = "demo_world\<lparr>w_hub := ?h2\<rparr>" let ?w3 = "demo_world\<lparr>w_hub := ?h3\<rparr>"
  have hub: "w_hub demo_world = demo_hub" by (simp add: demo_world_def)
  have client: "demo_client = \<lparr>send = make_chan 256, events = {MsgTypePresence, MsgTypeState, MsgTypeCurrent},
      done_closed = False, conn_open = True, read_pump = Reading, write_pump = True, out = []\<rparr>"
    by (auto simp: demo_client_def subscribe_def start_pumps_def NewClient_def)
  have "ParseClientMessage ?doc = Inr NewGetCurrentMessage"
    using opening_accepted by (simp add: opening_messages_def)
  then have "handle_message (Some ?snap) errtxt ''1'' ?doc (demo_client\<lparr>read_pump := Handling ?doc\<rparr>) =
      Some (?c2\<lparr>read_pump := Handling ?doc\<rparr>)"
    by (simp add: handle_message_def NewGetCurrentMessage_def msg_type_defs SendMessage_def client make_chan_def
        send_or_drop_open)
  then have 2: "hstep errtxt (H_Handle ''c'' (Some ?snap)) ?h1 ?h2"
    using hstep.handle [of ?h1 "''c''" "demo_client\<lparr>read_pump := Handling ?doc\<rparr>" ?doc "Some ?snap" errtxt
        "?c2\<lparr>read_pump := Handling ?doc\<rparr>"]
    by (simp add: demo_hub_def NewHub_def client)
  have 1: "hstep errtxt (H_Recv ''c'' ?doc) demo_hub ?h1"
    using hstep.recv [of demo_hub "''c''" demo_client errtxt ?doc] by (simp add: demo_hub_def client)
  have "WritePump_step True ?c2 = Some ?c3"
    by (simp add: WritePump_step_def tryRecv_def client make_chan_def)
  then have 3: "hstep errtxt (H_Write ''c'') ?h2 ?h3"
    using hstep.write_out [of ?h2 "''c''" ?c2 True ?c3 errtxt] by (simp add: demo_hub_def client)
  have "?step (W_hub (H_Recv ''c'' ?doc)) demo_world ?w1"
    using wstep.hub [of errtxt _ demo_world ?h1] 1 by (simp add: hub inner_hub_def)
  moreover have "?step (W_hub (H_Handle ''c'' (Some ?snap))) ?w1 ?w2"
    using wstep.hub [of errtxt "H_Handle ''c'' (Some ?snap)" ?w1 ?h2] 2 by (simp add: inner_hub_def)
  moreover have "?step (W_hub (H_Write ''c'')) ?w2 ?w3"
    using wstep.hub [of errtxt "H_Write ''c''" ?w2 ?h3] 3 by (simp add: inner_hub_def)
  ultimately have "wreachable text_frame (\<lambda>_. Some plain_source) errtxt demo_started ?w3"
    using demo_reachable [of errtxt] unfolding wreachable_def by (meson run_of.run_snoc)
  then show ?thesis by (intro exI [of _ ?w3] exI [of _ ?c3]) simp
qed

lemma demo_cancelled:
  "\<exists>w. wreachable text_frame (\<lambda>_. Some plain_source) errtxt demo_started w \<and> Hub.ctx_done (w_hub w)"
proof -
  let ?step = "wstep text_frame (\<lambda>_. Some plain_source) errtxt"
  have "0 < next_run (w_pres demo_world)"
    by (simp add: demo_world_def demo_started_def demo_proxy_def Let_def Update_def Start_def psys_init_def)
  from wstep.cancel [OF istep.cancel pstep.cancel [OF this] hstep.cancel]
  obtain w where "?step W_cancel demo_world w" "Hub.ctx_done (w_hub w)" by fastforce
  then show ?thesis using demo_reachable [of errtxt] unfolding wreachable_def by (meson run_of.run_snoc)
qed

end
