(* ===== verification/Whole_Metrics.thy ===== *)
theory Whole_Metrics
  imports Whole_Demo "HOL-Library.Multiset"
begin

text \<open>
  What the metrics of the running proxy say: the callback of every notification runs exactly once, so
  the send counter counts the coalesced updates; the gauges are the numbers of the moment.
\<close>

section \<open>Every notification is told once\<close>

text \<open>The activities that are still on their way to the one subscriber.\<close>

fun on_the_way :: "PresenceUpdate \<times> subscriber list option \<Rightarrow> Activity list" where
  "on_the_way (u, None) = [upd_Activity u]"
| "on_the_way (u, Some cs) = map (\<lambda>_. upd_Activity u) cs"

definition told_once :: "psys \<Rightarrow> bool" where
  "told_once p \<longleftrightarrow> subscribers (pres p) = [1 \<mapsto> 0] \<and>
     mset (notified p) = mset (map (\<lambda>x. upd_Activity (snd x)) (invoked p @ callbacks p)) +
       mset (concat (map on_the_way (notifying p)))"

interpretation once: step_invariant pstep
  "\<lambda>l. inner_presence l \<or> (\<exists>n. l = L_Cancel n) \<or> (\<exists>c. l = L_Callback c)" told_once
proof unfold_locales
  fix l p q
  assume l: "inner_presence l \<or> (\<exists>n. l = L_Cancel n) \<or> (\<exists>c. l = L_Callback c)"
    and step: "pstep l p q" and inv: "told_once p"
  from step show "told_once q"
  proof cases
    case (read_subs xs u ys subs)
    then have "set subs = {(1, 0)}" using inv by (auto simp: told_once_def split: if_splits)
    with read_subs have "subs = [(1, 0)]"
      by (cases subs; cases "tl subs") auto
    with read_subs inv show ?thesis by (simp add: told_once_def)
  qed (use l inv in \<open>auto simp: inner_presence_def told_once_def presence_defs split: option.splits\<close>)
qed

section \<open>The send counter\<close>

lemma told_once_Update: "told_once (Update a p) = told_once p"
  by (simp add: told_once_def Update_def Let_def)

lemma told_once_Stop: "told_once (Stop p) = told_once p"
  by (simp add: told_once_def Stop_def Let_def split: option.split)

lemma invoked_inner: "pstep l p q \<Longrightarrow> inner_presence l \<or> (\<exists>n. l = L_Cancel n) \<Longrightarrow> invoked q = invoked p"
  by (erule pstep.cases) (auto simp: inner_presence_def presence_defs split: option.splits)

lemma invoked_callback: "pstep (L_Callback x) p q \<Longrightarrow> invoked q = invoked p @ [x]"
  by (erule pstep.cases) auto

lemma invoked_calls: "invoked (Update a p) = invoked p" "invoked (Stop p) = invoked p"
  by (simp_all add: Update_def Stop_def Let_def split: option.split)

definition sends_counted :: "world \<Rightarrow> bool" where
  "sends_counted w \<longleftrightarrow> told_once (w_pres w) \<and> (\<forall>n. w_sends w = Some n \<longrightarrow> n = length (invoked (w_pres w)))"

interpretation sends: step_invariant_all "wstep parseFrame decode errtxt" sends_counted for parseFrame decode errtxt
proof unfold_locales
  fix l w w'
  assume step: "wstep parseFrame decode errtxt l w w'" and inv: "sends_counted w"
  from step show "sends_counted w'"
  proof cases
    case (presence l p)
    with inv once.step_keeps [OF _ presence(3)] invoked_inner [OF presence(3)] show ?thesis
      by (auto simp: sends_counted_def)
  next
    case (callback c u p n h)
    with inv once.step_keeps [OF _ callback(3)] invoked_callback [OF callback(3)] show ?thesis
      by (auto simp: sends_counted_def on_update_def RecordPresenceSend_def)
  next
    case (cancel s p h)
    with inv once.step_keeps [OF _ cancel(4)] invoked_inner [OF cancel(4)] show ?thesis
      by (auto simp: sends_counted_def)
  qed (use inv in \<open>auto simp: sends_counted_def told_once_Update told_once_Stop invoked_calls\<close>)
qed

interpretation metered: step_invariant_all "wstep parseFrame decode errtxt" "\<lambda>w. (w_sends w = None) = b"
  for parseFrame decode errtxt b
  by unfold_locales (erule wstep.cases; auto simp: on_update_def)

lemma start_proxy_sends:
  "start_proxy ps env net mdns_ok hostname c = Serving px \<Longrightarrow>
     px_sends px = (if metrics_Enabled (cfg_Metrics c) then Some 0 else None)"
  by (auto simp: start_proxy_def Let_def split: option.splits if_splits sum.splits prod.splits)

lemma wreachable_sends:
  assumes start: "start_proxy ps env net mdns_ok hostname c = Serving px"
    and reach: "wreachable parseFrame decode errtxt px w" and on: "metrics_Enabled (cfg_Metrics c)"
  shows "told_once (w_pres w)" and "w_sends w = Some (length (invoked (w_pres w)))"
proof -
  obtain ls where run: "run_of (wstep parseFrame decode errtxt) ls (world_of px) w"
    using reach by (auto simp: wreachable_def)
  have "sends_counted (world_of px)"
    by (auto simp: sends_counted_def world_of_def start_proxy_sends [OF start] start_proxy_presence [OF start] on
        told_once_def Start_def psys_init_def NewPresence_def Subscribe_def Let_def)
  then have "sends_counted w" by (rule sends.run_keeps_all [OF run])
  moreover have "(w_sends w = None) = False"
    by (rule metered.run_keeps_all [OF run]) (simp add: world_of_def start_proxy_sends [OF start] on)
  ultimately show "told_once (w_pres w)" "w_sends w = Some (length (invoked (w_pres w)))"
    by (auto simp: sends_counted_def)
qed

lemma told_once_length:
  assumes "told_once p"
  shows "length (invoked p) + length (callbacks p) + length (concat (map on_the_way (notifying p))) = length (notified p)"
  using arg_cong [OF conjunct2 [OF assms [unfolded told_once_def]], of size] by simp

text \<open>The names of the collectors differ, so a library that accepts different names registers them.\<close>

lemma scrape_values:
  assumes "\<forall>ns. distinct ns \<longrightarrow> accepts ns"
  shows "scrape accepts s = Some [(''discord_proxy_ws_connected_clients'', ClientCount (src_hub s)),
     (''discord_proxy_ipc_connected'', if src_ipc s = StateConnected then 1 else 0),
     (''discord_proxy_rate_limit_rejections_total'', case src_limiter s of None \<Rightarrow> 0 | Some rl \<Rightarrow> Rejections rl),
     (''discord_proxy_presence_coalesced_sends_total'', src_sends s)]"
proof -
  have "distinct (map fq_name collectors)" by (simp add: collectors_def fq_name_def)
  with assms show ?thesis by (simp add: scrape_def NewMetrics_def) (simp add: collectors_def fq_name_def metricsNamespace_def)
qed

end
