(* ===== verification/Keepalive.thy ===== *)
theory Keepalive
  imports Consumer Hub Config
begin

text \<open>
  Read deadlines on WebSocket connections.  The server's read pump (\<open>internal/server/hub.go\<close>) and the
  example consumer (\<open>examples/consumer/main.go\<close>) both set a read deadline and renew it in a pong
  handler; the server pings, the consumer does not.  Frames arrive with the instant of their arrival;
  \<open>gorilla/websocket\<close> answers a ping with a pong by itself, hands pongs to the pong handler and returns
  from \<open>ReadMessage\<close> with data messages and errors only: a close frame, a message longer than the read
  limit (0 is no limit), or the deadline.
\<close>

section \<open>Reading under a deadline\<close>

datatype ws_frame = Text_frame nat "json option" | Ping_frame | Pong_frame | Close_frame

text \<open>
  The loop over \<open>ReadMessage\<close> with a deadline that a pong renews by \<open>wait\<close>: the documents read and the
  instant of the read error that ends the loop.
\<close>

fun read_loop :: "int \<Rightarrow> nat \<Rightarrow> instant \<Rightarrow> (instant \<times> ws_frame) list \<Rightarrow> json option list \<times> instant" where
  "read_loop wait limit d [] = ([], d)"
| "read_loop wait limit d ((t, f) # fs) =
     (if d < t then ([], d)
      else (case f of
              Text_frame n doc \<Rightarrow>
                if 0 < limit \<and> limit < n then ([], t)
                else (case read_loop wait limit d fs of (docs, e) \<Rightarrow> (doc # docs, e))
            | Ping_frame \<Rightarrow> read_loop wait limit d fs
            | Pong_frame \<Rightarrow> read_loop wait limit (t + wait) fs
            | Close_frame \<Rightarrow> ([], t)))"

definition pongWait :: int where "pongWait = 60 * nanos"
definition maxMessageSize :: nat where "maxMessageSize = 65536"
definition defaultPingPeriod :: int where "defaultPingPeriod = 30 * nanos"

text \<open>The frames a read pump started at \<open>now\<close> reads; a document becomes the \<open>Handling\<close> state of \<open>Hub\<close>.\<close>

definition ReadPump :: "instant \<Rightarrow> (instant \<times> ws_frame) list \<Rightarrow> json option list \<times> instant" where
  "ReadPump now fs = read_loop pongWait maxMessageSize (now + pongWait) fs"

definition consumerPongWait :: int where "consumerPongWait = 90 * nanos"

definition consumer_reads :: "instant \<Rightarrow> (instant \<times> ws_frame) list \<Rightarrow> json option list \<times> instant" where
  "consumer_reads now fs = read_loop consumerPongWait 0 (now + consumerPongWait) fs"

section \<open>The contract of a renewed deadline\<close>

fun pongs :: "(instant \<times> ws_frame) list \<Rightarrow> instant list" where
  "pongs [] = []"
| "pongs ((t, f) # fs) = (if f = Pong_frame then t # pongs fs else pongs fs)"

fun documents :: "(instant \<times> ws_frame) list \<Rightarrow> json option list" where
  "documents [] = []"
| "documents ((t, f) # fs) = (case f of Text_frame n doc \<Rightarrow> doc # documents fs | _ \<Rightarrow> documents fs)"

text \<open>A frame that does not end the loop.\<close>

fun acceptable :: "nat \<Rightarrow> ws_frame \<Rightarrow> bool" where
  "acceptable limit (Text_frame n doc) = (limit = 0 \<or> n \<le> limit)"
| "acceptable limit Close_frame = False"
| "acceptable limit f = True"

text \<open>No frame comes later than \<open>wait\<close> after the last pong before it, or after the start.\<close>

definition kept_alive :: "int \<Rightarrow> instant \<Rightarrow> (instant \<times> ws_frame) list \<Rightarrow> bool" where
  "kept_alive wait now fs \<longleftrightarrow> (\<forall>k<length fs. fst (fs ! k) \<le> last (now # pongs (take k fs)) + wait)"

lemma kept_alive_Cons:
  "kept_alive wait now ((t, f) # fs) \<longleftrightarrow> t \<le> now + wait \<and> kept_alive wait (if f = Pong_frame then t else now) fs"
  by (auto simp: kept_alive_def less_Suc_eq_0_disj)

lemma kept_alive_Nil: "kept_alive wait now []"
  by (simp add: kept_alive_def)

lemma read_loop_kept:
  "kept_alive wait now fs \<Longrightarrow> list_all (\<lambda>x. acceptable limit (snd x)) fs \<Longrightarrow>
   read_loop wait limit (now + wait) fs = (documents fs, last (now # pongs fs) + wait)"
proof (induction fs arbitrary: now)
  case (Cons x fs)
  then show ?case
    by (cases x; cases "snd x") (auto simp: kept_alive_Cons)
qed simp

lemma read_loop_silent: "pongs fs = [] \<Longrightarrow> snd (read_loop wait limit d fs) \<le> d"
proof (induction wait limit d fs rule: read_loop.induct)
  case (2 wait limit d t f fs)
  then show ?case by (auto split: ws_frame.splits prod.splits if_splits)
qed simp

locale deadline_reader =
  fixes reader :: "instant \<Rightarrow> (instant \<times> ws_frame) list \<Rightarrow> json option list \<times> instant"
    and wait :: int and limit :: nat
  assumes reader_loop: "reader now fs = read_loop wait limit (now + wait) fs"
    and wait_pos: "0 < wait"
begin

text \<open>Answering in time keeps the loop going, however long, and it ends exactly \<open>wait\<close> after the last answer.\<close>

lemma reader_lifetime:
  "kept_alive wait now fs \<Longrightarrow> list_all (\<lambda>x. acceptable limit (snd x)) fs \<Longrightarrow>
   reader now fs = (documents fs, last (now # pongs fs) + wait)"
  by (simp add: reader_loop read_loop_kept)

text \<open>Without an answer the loop ends \<open>wait\<close> after its start, whatever else arrives.\<close>

lemma reader_unanswered: "pongs fs = [] \<Longrightarrow> snd (reader now fs) \<le> now + wait"
  by (simp add: reader_loop read_loop_silent)

lemma reader_silent: "reader now [] = ([], now + wait) \<and> now < now + wait"
  using wait_pos by (simp add: reader_loop)

end

interpretation server_reads: deadline_reader ReadPump pongWait maxMessageSize
  by unfold_locales (simp_all add: ReadPump_def pongWait_def nanos_def)

interpretation consumer_reader: deadline_reader consumer_reads consumerPongWait 0
  by unfold_locales (simp_all add: consumer_reads_def consumerPongWait_def nanos_def)

text \<open>A client that answers every ping before the next one is kept: two ping periods make one wait.\<close>

lemma two_periods: "2 * defaultPingPeriod = pongWait"
  by (simp add: defaultPingPeriod_def pongWait_def nanos_def)

section \<open>The frames of a connection between the server and the consumer\<close>

text \<open>What \<open>WritePump\<close> writes: a queued message, a ping at each tick, a close frame when the queue is closed.\<close>

datatype write_event = Queued nat json | Tick | Queue_closed

fun WritePump_frame :: "write_event \<Rightarrow> ws_frame" where
  "WritePump_frame (Queued n j) = Text_frame n (Some j)"
| "WritePump_frame Tick = Ping_frame"
| "WritePump_frame Queue_closed = Close_frame"

text \<open>
  All that is ever written on the connection: by the server's write pump, by the consumer (its opening
  messages, and a close frame when it is cancelled), and by the library on either side, a pong for a ping.
\<close>

record wire =
  to_consumer :: "ws_frame list"
  to_server :: "ws_frame list"

inductive exchange :: "wire \<Rightarrow> wire \<Rightarrow> bool" where
  server_writes: "exchange x (x\<lparr>to_consumer := to_consumer x @ [WritePump_frame ev]\<rparr>)"
| server_answers: "Ping_frame \<in> set (to_server x) \<Longrightarrow> exchange x (x\<lparr>to_consumer := to_consumer x @ [Pong_frame]\<rparr>)"
| consumer_opens: "j \<in> set opening_messages \<Longrightarrow> exchange x (x\<lparr>to_server := to_server x @ [Text_frame n (Some j)]\<rparr>)"
| consumer_answers: "Ping_frame \<in> set (to_consumer x) \<Longrightarrow> exchange x (x\<lparr>to_server := to_server x @ [Pong_frame]\<rparr>)"
| consumer_closes: "exchange x (x\<lparr>to_server := to_server x @ [Close_frame]\<rparr>)"

definition fresh_wire :: wire where
  "fresh_wire = \<lparr>to_consumer = [], to_server = []\<rparr>"

interpretation no_pong: step_invariant_all "\<lambda>l::unit. exchange"
  "\<lambda>x. Ping_frame \<notin> set (to_server x) \<and> Pong_frame \<notin> set (to_consumer x)"
proof unfold_locales
  fix l :: unit and x y
  have frames: "Pong_frame \<noteq> WritePump_frame ev" for ev by (cases ev) simp_all
  assume "exchange x y" and "Ping_frame \<notin> set (to_server x) \<and> Pong_frame \<notin> set (to_consumer x)"
  then show "Ping_frame \<notin> set (to_server y) \<and> Pong_frame \<notin> set (to_consumer y)"
    using frames by (cases rule: exchange.cases) auto
qed

lemma pongs_none: "Pong_frame \<notin> set (map snd fs) \<Longrightarrow> pongs fs = []"
  by (induction fs rule: pongs.induct) auto

text \<open>The consumer waits for pongs that nobody sends.\<close>

lemma consumer_always_times_out:
  assumes "run_of (\<lambda>l::unit. exchange) ls fresh_wire x" and "set (map snd fs) \<subseteq> set (to_consumer x)"
  shows "snd (consumer_reads now fs) \<le> now + consumerPongWait"
proof -
  have "Pong_frame \<notin> set (to_consumer x)"
    using no_pong.run_keeps_all [OF assms(1)] by (simp add: fresh_wire_def)
  then have "pongs fs = []" using assms(2) by (intro pongs_none) blast
  then show ?thesis by (rule consumer_reader.reader_unanswered)
qed

end
