(* ===== verification/Capture.thy ===== *)
theory Capture
  imports Ipc_Client Platform "HOL-Library.List_Lexorder" "HOL-Library.Char_ord"
begin

text \<open>
  The capture tool, \<open>cmd/ipc-capture/main.go\<close>: classifying raw frames, counting them and printing the
  summary.  The socket library is an argument: which paths accept a connection, whether the login
  succeeds, the frames read, and the command and event of a frame that parses.  \<open>tm\<close> is the time of
  arrival as formatted.
\<close>

definition opcodeName :: "opcode \<Rightarrow> string" where
  "opcodeName op =
     (if op = OpHandshake then ''handshake''
      else if op = OpFrame then ''frame''
      else if op = OpClose then ''close''
      else if op = OpPing then ''ping''
      else if op = OpPong then ''pong''
      else ''opcode-'' @ itoa (sint op))"

record captureFrame =
  cf_Time :: string
  cf_Opcode :: opcode
  cf_OpcodeName :: string
  cf_Command :: string
  cf_Event :: string
  cf_Activity :: bool
  cf_Payload :: string

text \<open>A Go map is an association list with distinct keys, in no particular order.\<close>

type_synonym counts = "(string \<times> nat) list"

record captureSummary =
  SocketPath :: string
  cs_Frames :: nat
  cs_Opcodes :: counts
  cs_Events :: counts
  cs_Activity :: nat

definition newCaptureSummary :: "string \<Rightarrow> captureSummary" where
  "newCaptureSummary path =
     \<lparr>SocketPath = path, cs_Frames = 0, cs_Opcodes = [], cs_Events = [], cs_Activity = 0\<rparr>"

text \<open>\<open>m[k]++\<close>, and a read of \<open>m[k]\<close>.\<close>

fun bump :: "string \<Rightarrow> counts \<Rightarrow> counts" where
  "bump k [] = [(k, 1)]"
| "bump k ((j, n) # m) = (if j = k then (j, Suc n) # m else (j, n) # bump k m)"

definition tally :: "counts \<Rightarrow> string \<Rightarrow> nat" where
  "tally m k = (case map_of m k of None \<Rightarrow> 0 | Some n \<Rightarrow> n)"

definition record_frame :: "captureFrame \<Rightarrow> captureSummary \<Rightarrow> captureSummary" where
  "record_frame f s =
     (let s1 = s\<lparr>cs_Frames := Suc (cs_Frames s), cs_Opcodes := bump (cf_OpcodeName f) (cs_Opcodes s)\<rparr>;
          s2 = (if cf_Event f \<noteq> [] then s1\<lparr>cs_Events := bump (cf_Event f) (cs_Events s1)\<rparr> else s1)
      in if cf_Activity f then s2\<lparr>cs_Activity := Suc (cs_Activity s2)\<rparr> else s2)"

text \<open>
  \<open>strings.ToUpper\<close> as far as a comparison with ASCII text can tell: ASCII letters are raised, and the
  two runes outside ASCII whose upper case is an ASCII letter, dotless i and long s, become that letter.
\<close>

fun upper_ascii :: "string \<Rightarrow> string" where
  "upper_ascii [] = []"
| "upper_ascii [c] = [if CHR ''a'' \<le> c \<and> c \<le> CHR ''z'' then char_of (of_char c - 32 :: nat) else c]"
| "upper_ascii (c # d # cs) =
     (if c = CHR 0xC4 \<and> d = CHR 0xB1 then CHR ''I'' # upper_ascii cs
      else if c = CHR 0xC5 \<and> d = CHR 0xBF then CHR ''S'' # upper_ascii cs
      else (if CHR ''a'' \<le> c \<and> c \<le> CHR ''z'' then char_of (of_char c - 32 :: nat) else c)
           # upper_ascii (d # cs))"

fun contains_string :: "string \<Rightarrow> string \<Rightarrow> bool" where
  "contains_string [] p \<longleftrightarrow> p = []"
| "contains_string (c # cs) p \<longleftrightarrow> has_prefix (c # cs) p \<or> contains_string cs p"

definition classify ::
  "(string \<Rightarrow> (string \<times> string) option) \<Rightarrow> opcode \<Rightarrow> string \<Rightarrow> string \<Rightarrow> captureFrame" where
  "classify parse op data tm =
     (let f = \<lparr>cf_Time = tm, cf_Opcode = op, cf_OpcodeName = opcodeName op, cf_Command = [],
               cf_Event = [], cf_Activity = False, cf_Payload = data\<rparr>
      in if op = OpFrame then
           (case parse data of
              None \<Rightarrow> f
            | Some (command, event) \<Rightarrow>
                f\<lparr>cf_Command := command, cf_Event := event,
                  cf_Activity := contains_string (upper_ascii event) ''ACTIVITY''\<rparr>)
         else f)"

definition json_of_frame :: "captureFrame \<Rightarrow> json" where
  "json_of_frame f =
     J_obj ([(''time'', J_str (cf_Time f)), (''opcode'', J_num (sint (cf_Opcode f))),
             (''opcode_name'', J_str (cf_OpcodeName f))] @
            member_if (cf_Command f \<noteq> []) ''command'' (J_str (cf_Command f)) @
            member_if (cf_Event f \<noteq> []) ''event'' (J_str (cf_Event f)) @
            [(''activity'', J_bool (cf_Activity f)), (''payload'', J_str (cf_Payload f))])"

section \<open>Capturing\<close>

definition dial :: "(string \<Rightarrow> bool) \<Rightarrow> string list \<Rightarrow> string option" where
  "dial accepts paths = find accepts paths"

text \<open>
  The loop over the frames read before the read error: with an output file each frame is written,
  until a write fails (\<open>wr\<close> counts the writes that succeed).
\<close>

fun capture_loop ::
  "(string \<Rightarrow> (string \<times> string) option) \<Rightarrow> bool \<Rightarrow> nat \<Rightarrow> (opcode \<times> string \<times> string) list
    \<Rightarrow> json list \<Rightarrow> captureSummary \<Rightarrow> bool \<times> json list \<times> captureSummary" where
  "capture_loop parse out wr [] ls s = (True, ls, s)"
| "capture_loop parse out wr ((op, data, tm) # reads) ls s =
     (let f = classify parse op data tm; s1 = record_frame f s
      in if \<not> out then capture_loop parse out wr reads ls s1
         else (case wr of
                 0 \<Rightarrow> (False, ls, s1)
               | Suc wr' \<Rightarrow> capture_loop parse out wr' reads (ls @ [json_of_frame f]) s1))"

datatype capture_error = No_socket | Handshake_failed string | Create_failed | Write_failed

definition capture ::
  "(string \<Rightarrow> bool) \<Rightarrow> bool \<Rightarrow> bool \<Rightarrow> (string \<Rightarrow> (string \<times> string) option) \<Rightarrow> nat
    \<Rightarrow> (opcode \<times> string \<times> string) list \<Rightarrow> string list \<Rightarrow> string
    \<Rightarrow> (capture_error + captureSummary) \<times> json list" where
  "capture accepts login create parse wr reads paths out =
     (case dial accepts paths of
        None \<Rightarrow> (Inl No_socket, [])
      | Some path \<Rightarrow>
          if \<not> login then (Inl (Handshake_failed path), [])
          else if out \<noteq> [] \<and> \<not> create then (Inl Create_failed, [])
          else (case capture_loop parse (out \<noteq> []) wr reads [] (newCaptureSummary path) of
                  (ok, ls, s) \<Rightarrow> (if ok then Inr s else Inl Write_failed, ls)))"

section \<open>The summary\<close>

definition formatCounts :: "counts \<Rightarrow> string" where
  "formatCounts m =
     (if length m = 0 then ''-''
      else join (map (\<lambda>k. k @ ''='' @ itoa (int (tally m k))) (sort (map fst m))) '' '')"

definition printSummary :: "captureSummary \<Rightarrow> string list" where
  "printSummary s =
     [''=== IPC capture summary ==='',
      ''socket:          '' @ SocketPath s,
      ''frames:          '' @ itoa (int (cs_Frames s)),
      ''opcodes:         '' @ formatCounts (cs_Opcodes s),
      ''events:          '' @ formatCounts (cs_Events s),
      ''activity frames: '' @ itoa (int (cs_Activity s)),
      []] @
     (if cs_Activity s = 0
      then [''No ACTIVITY frame was observed. Discord'' @ [CHR 0x27] @ ''s local IPC socket does not'',
            ''push another application'' @ [CHR 0x27] @ ''s Rich Presence, so the proxy has no activity'',
            ''source via IPC and correctly reports source='' @ [CHR 0x22] @ ''none'' @ [CHR 0x22] @ ''.'']
      else [''Found '' @ itoa (int (cs_Activity s)) @
              '' ACTIVITY frame(s). Discord does push Rich Presence on this setup;'',
            ''share this capture so the ACTIVITY frame can be wired into the proxy source.''])"

section \<open>The counts are exact\<close>

lemma tally_bump: "tally (bump k m) j = tally m j + (if j = k then 1 else 0)"
  by (induction k m rule: bump.induct) (auto simp: tally_def split: option.splits)

lemma bump_keys: "set (map fst (bump k m)) = insert k (set (map fst m))"
  by (induction k m rule: bump.induct) auto

lemma bump_distinct: "distinct (map fst m) \<Longrightarrow> distinct (map fst (bump k m))"
proof (induction k m rule: bump.induct)
  case (2 k j n m)
  then show ?case using bump_keys [of k m] by auto
qed simp

text \<open>What a summary says about the frames it was made from.\<close>

definition summarizes :: "captureFrame list \<Rightarrow> captureSummary \<Rightarrow> bool" where
  "summarizes fs s \<longleftrightarrow>
     cs_Frames s = length fs \<and>
     (\<forall>k. tally (cs_Opcodes s) k = length (filter (\<lambda>f. cf_OpcodeName f = k) fs)) \<and>
     (\<forall>k. tally (cs_Events s) k = (if k = [] then 0 else length (filter (\<lambda>f. cf_Event f = k) fs))) \<and>
     cs_Activity s = length (filter cf_Activity fs) \<and>
     distinct (map fst (cs_Opcodes s)) \<and> distinct (map fst (cs_Events s)) \<and>
     set (map fst (cs_Opcodes s)) = cf_OpcodeName ` set fs \<and>
     set (map fst (cs_Events s)) = cf_Event ` set fs - {[]}"

lemma summarizes_new: "summarizes [] (newCaptureSummary path)"
  by (simp add: summarizes_def newCaptureSummary_def tally_def)

lemma summarizes_record: "summarizes fs s \<Longrightarrow> summarizes (fs @ [f]) (record_frame f s)"
  unfolding summarizes_def record_frame_def Let_def
  by (auto simp: tally_bump bump_distinct bump_keys simp del: set_map)

lemma capture_loop_summary:
  assumes "capture_loop parse out wr reads ls s = (True, ls', s')" and "summarizes fs s"
  shows "summarizes (fs @ map (\<lambda>(op, data, tm). classify parse op data tm) reads) s'"
    and "ls' = ls @ (if out then map (\<lambda>(op, data, tm). json_of_frame (classify parse op data tm)) reads else [])"
    and "SocketPath s' = SocketPath s"
proof -
  have "summarizes (fs @ map (\<lambda>(op, data, tm). classify parse op data tm) reads) s' \<and>
    ls' = ls @ (if out then map (\<lambda>(op, data, tm). json_of_frame (classify parse op data tm)) reads else []) \<and>
    SocketPath s' = SocketPath s"
    using assms
  proof (induction parse out wr reads ls s arbitrary: fs rule: capture_loop.induct)
    case (1 parse out wr ls s)
    then show ?case by simp
  next
    case (2 parse out wr op data tm reads ls s)
    have path: "SocketPath (record_frame f s) = SocketPath s" for f
      by (simp add: record_frame_def Let_def)
    note next_sum = summarizes_record [OF "2.prems"(2), of "classify parse op data tm"]
    show ?case
    proof (cases out)
      case False
      from "2.IH"(1) [OF refl refl _ _ next_sum] "2.prems"(1) False path show ?thesis by (simp add: Let_def)
    next
      case True
      then obtain wr' where wr: "wr = Suc wr'" using "2.prems"(1) by (cases wr) (simp_all add: Let_def)
      from "2.IH"(2) [OF refl refl _ wr _ next_sum] "2.prems"(1) True wr path show ?thesis
        by (simp add: Let_def)
    qed
  qed
  then show "summarizes (fs @ map (\<lambda>(op, data, tm). classify parse op data tm) reads) s'"
    "ls' = ls @ (if out then map (\<lambda>(op, data, tm). json_of_frame (classify parse op data tm)) reads else [])"
    "SocketPath s' = SocketPath s" by blast+
qed

text \<open>The printed counts depend on the map only, not on the order in which Go iterates over it.\<close>

lemma formatCounts_map:
  assumes "distinct (map fst m)" and "distinct (map fst m')" and "map_of m = map_of m'"
  shows "formatCounts m = formatCounts m'"
proof -
  have "set (map fst m) = dom (map_of m)" "set (map fst m') = dom (map_of m')"
    by (simp_all add: dom_map_of_conv_image_fst)
  then have keys: "set (map fst m) = set (map fst m')" using assms(3) by simp
  then have "sort (map fst m) = sort (map fst m')"
    using assms(1,2) by (metis sorted_list_of_set_sort_remdups distinct_remdups_id)
  moreover have "length m = length m'"
    using keys assms(1,2) by (metis distinct_card length_map)
  ultimately show ?thesis using assms(3) by (simp add: formatCounts_def tally_def)
qed

lemma capture_summary:
  assumes "capture accepts login create parse wr frames paths outfile = (Inr s, ls)"
  shows "summarizes (map (\<lambda>(op, data, tm). classify parse op data tm) frames) s"
    and "ls = (if outfile = [] then []
      else map json_of_frame (map (\<lambda>(op, data, tm). classify parse op data tm) frames))"
proof -
  from assms obtain path where "capture_loop parse (outfile \<noteq> []) wr frames [] (newCaptureSummary path) = (True, ls, s)"
    by (auto simp: capture_def split: option.splits if_splits prod.splits)
  from capture_loop_summary [OF this summarizes_new]
  show "summarizes (map (\<lambda>(op, data, tm). classify parse op data tm) frames) s"
    and "ls = (if outfile = [] then []
      else map json_of_frame (map (\<lambda>(op, data, tm). classify parse op data tm) frames))"
    by (simp_all add: split_beta)
qed

end
