(* ===== verification/Mains.thy ===== *)
theory Mains
  imports Tui_View Consumer Capture Config
begin

text \<open>
  The command lines of the clients and the capture tool: Go's package flag as far as these programs
  use it (flags that take a value), and the three \<open>main\<close> functions, \<open>cmd/tui/main.go\<close>,
  \<open>cmd/ipc-capture/main.go\<close> and \<open>examples/consumer/main.go\<close>.
\<close>

section \<open>Parsing flags\<close>

datatype flag_error = Bad_syntax string | Not_defined string | Needs_argument string | Invalid_value string string | Help

text \<open>
  \<open>formal\<close> gives the flags a program defines, each with the function that stores its value (\<open>None\<close>: the
  value does not parse).  Parsing stops at the first argument that is no flag, or after \<open>--\<close>.
\<close>

fun parse_flags :: "(string \<Rightarrow> (string \<Rightarrow> 's \<Rightarrow> 's option) option) \<Rightarrow> string list \<Rightarrow> 's \<Rightarrow> flag_error + ('s \<times> string list)" where
  "parse_flags formal [] s = Inr (s, [])"
| "parse_flags formal (a # args) s =
     (if length a < 2 \<or> take 1 a \<noteq> ''-'' then Inr (s, a # args)
      else if a = ''--'' then Inr (s, args)
      else let body = (if take 2 a = ''--'' then drop 2 a else drop 1 a);
               name = takeWhile (\<lambda>c. c \<noteq> CHR ''='') body
           in if take 1 body = ''-'' \<or> take 1 body = ''='' then Inl (Bad_syntax a)
              else (case formal name of
                      None \<Rightarrow> Inl (if name \<in> {''help'', ''h''} then Help else Not_defined name)
                    | Some store \<Rightarrow>
                        if CHR ''='' \<in> set body then
                          (case store (drop (Suc (length name)) body) s of
                             None \<Rightarrow> Inl (Invalid_value name (drop (Suc (length name)) body))
                           | Some s' \<Rightarrow> parse_flags formal args s')
                        else (case args of
                                [] \<Rightarrow> Inl (Needs_argument name)
                              | v # args' \<Rightarrow>
                                  (case store v s of
                                     None \<Rightarrow> Inl (Invalid_value name v)
                                   | Some s' \<Rightarrow> parse_flags formal args' s'))))"

text \<open>\<open>flag.Parse\<close> ends the program on an error: with status 0 for a request for help, 2 otherwise.\<close>

datatype 'a outcome = Exit nat | Go 'a

definition with_flags ::
  "(string \<Rightarrow> (string \<Rightarrow> 's \<Rightarrow> 's option) option) \<Rightarrow> string list \<Rightarrow> 's \<Rightarrow> ('s \<Rightarrow> 'a outcome) \<Rightarrow> 'a outcome" where
  "with_flags formal args s body =
     (case parse_flags formal args s of
        Inl e \<Rightarrow> Exit (if e = Help then 0 else 2)
      | Inr (s', rest) \<Rightarrow> body s')"

section \<open>The terminal client\<close>

record tui_flags =
  tf_addr :: string
  tf_token :: string
  tf_ws_path :: string

definition tui_formal :: "string \<Rightarrow> (string \<Rightarrow> tui_flags \<Rightarrow> tui_flags option) option" where
  "tui_formal n =
     (if n = ''addr'' then Some (\<lambda>v f. Some (f\<lparr>tf_addr := v\<rparr>))
      else if n = ''token'' then Some (\<lambda>v f. Some (f\<lparr>tf_token := v\<rparr>))
      else if n = ''ws-path'' then Some (\<lambda>v f. Some (f\<lparr>tf_ws_path := v\<rparr>))
      else None)"

text \<open>The endpoint and the token the program is started with; \<open>run_ok\<close>: the runtime ends without error.\<close>

definition tui_main :: "(string \<Rightarrow> string) \<Rightarrow> bool \<Rightarrow> string list \<Rightarrow> (string \<times> string) outcome" where
  "tui_main getenv run_ok args =
     with_flags tui_formal args \<lparr>tf_addr = [], tf_token = [], tf_ws_path = []\<rparr>
       (\<lambda>f. let endpoint = WSURL (ResolveAddr getenv (tf_addr f)) (ResolveWSPath getenv (tf_ws_path f));
                authToken = ResolveToken getenv (tf_token f)
            in if run_ok then Go (endpoint, authToken) else Exit 1)"

section \<open>The capture tool\<close>

record capture_flags =
  kf_client_id :: string
  kf_duration :: int
  kf_out :: string

definition capture_formal :: "(string \<Rightarrow> int option) \<Rightarrow> string \<Rightarrow> (string \<Rightarrow> capture_flags \<Rightarrow> capture_flags option) option" where
  "capture_formal parse_duration n =
     (if n = ''client-id'' then Some (\<lambda>v f. Some (f\<lparr>kf_client_id := v\<rparr>))
      else if n = ''duration'' then Some (\<lambda>v f. map_option (\<lambda>d. f\<lparr>kf_duration := d\<rparr>) (parse_duration v))
      else if n = ''out'' then Some (\<lambda>v f. Some (f\<lparr>kf_out := v\<rparr>))
      else None)"

text \<open>
  Whether the handshake succeeds depends on the client id, the frames that arrive on the duration; the
  program prints its summary.
\<close>

definition capture_main ::
  "(string \<Rightarrow> int option) \<Rightarrow> (string \<Rightarrow> bool) \<Rightarrow> (string \<Rightarrow> bool) \<Rightarrow> (string \<Rightarrow> bool)
    \<Rightarrow> (string \<Rightarrow> (string \<times> string) option) \<Rightarrow> nat \<Rightarrow> (int \<Rightarrow> (opcode \<times> string \<times> string) list) \<Rightarrow> string list
    \<Rightarrow> string list \<Rightarrow> string list outcome" where
  "capture_main parse_duration accepts login create parse wr frames paths args =
     with_flags (capture_formal parse_duration) args \<lparr>kf_client_id = [], kf_duration = 60 * nanos, kf_out = []\<rparr>
       (\<lambda>f. if kf_client_id f = [] then Exit 2
            else (case capture accepts (login (kf_client_id f)) (create (kf_out f)) parse wr
                         (frames (kf_duration f)) paths (kf_out f) of
                    (Inl e, ls) \<Rightarrow> Exit 1
                  | (Inr s, ls) \<Rightarrow> Go (printSummary s)))"

section \<open>The example consumer\<close>

record consumer_flags =
  xf_addr :: string
  xf_token :: string

definition consumer_formal :: "string \<Rightarrow> (string \<Rightarrow> consumer_flags \<Rightarrow> consumer_flags option) option" where
  "consumer_formal n =
     (if n = ''addr'' then Some (\<lambda>v f. Some (f\<lparr>xf_addr := v\<rparr>))
      else if n = ''token'' then Some (\<lambda>v f. Some (f\<lparr>xf_token := v\<rparr>))
      else None)"

definition defaultAddr :: string where
  "defaultAddr = ''ws://127.0.0.1:8765/ws''"

text \<open>What the network does (\<open>net\<close>) depends on the address and the header of the handshake.\<close>

definition consumer_main ::
  "(string \<Rightarrow> string) \<Rightarrow> (string \<Rightarrow> string) \<Rightarrow> (string \<Rightarrow> (string \<times> string list) list \<Rightarrow> turn list) \<Rightarrow> string list
    \<Rightarrow> (int64 list \<times> string list \<times> bool) outcome" where
  "consumer_main getenv quoted net args =
     with_flags consumer_formal args \<lparr>xf_addr = defaultAddr, xf_token = getenv ''PROXY_AUTH_TOKEN''\<rparr>
       (\<lambda>f. Go (run quoted (net (xf_addr f) (consumer_header (xf_token f)))))"

section \<open>What the command line does\<close>

text \<open>A flag written \<open>-name=value\<close> or \<open>-name value\<close> stores exactly the value, whatever it holds.\<close>

lemma takeWhile_name: "CHR ''='' \<notin> set n \<Longrightarrow> takeWhile (\<lambda>c. c \<noteq> CHR ''='') (n @ CHR ''='' # v) = n"
  by (induction n) auto

lemma takeWhile_all: "CHR ''='' \<notin> set n \<Longrightarrow> takeWhile (\<lambda>c. c \<noteq> CHR ''='') n = n"
  by (simp add: takeWhile_eq_all_conv) metis

definition flag_name :: "string \<Rightarrow> bool" where
  "flag_name n \<longleftrightarrow> n \<noteq> [] \<and> CHR ''='' \<notin> set n \<and> take 1 n \<noteq> ''-''"

lemma parse_flag_equals:
  assumes "flag_name n" and "formal n = Some store" and "store v s = Some s'"
  shows "parse_flags formal ((CHR ''-'' # n @ CHR ''='' # v) # args) s = parse_flags formal args s'"
proof -
  obtain c n' where n: "n = c # n'" "c \<noteq> CHR ''-''" "c \<noteq> CHR ''=''"
    using assms(1) by (cases n) (auto simp: flag_name_def)
  have "takeWhile (\<lambda>c. c \<noteq> CHR ''='') (n' @ CHR ''='' # v) = n'"
    using assms(1) n by (intro takeWhile_name) (simp add: flag_name_def)
  with assms(2,3) n show ?thesis by (subst parse_flags.simps(2)) (simp add: Let_def del: parse_flags.simps takeWhile_eq_all_conv)
qed

lemma parse_flag_space:
  assumes "flag_name n" and "formal n = Some store" and "store v s = Some s'"
  shows "parse_flags formal ((CHR ''-'' # n) # v # args) s = parse_flags formal args s'"
proof -
  obtain c n' where n: "n = c # n'" "c \<noteq> CHR ''-''" "c \<noteq> CHR ''=''"
    using assms(1) by (cases n) (auto simp: flag_name_def)
  have "takeWhile (\<lambda>c. c \<noteq> CHR ''='') n' = n'" "CHR ''='' \<notin> set n'"
    using assms(1) n by (simp_all add: flag_name_def takeWhile_all del: takeWhile_eq_all_conv)
  with assms(2,3) n show ?thesis by (subst parse_flags.simps(2)) (simp add: Let_def del: parse_flags.simps takeWhile_eq_all_conv)
qed

text \<open>What the flags do not say comes from the environment, and what it does not say from the defaults.\<close>

lemma tui_main_defaults:
  "tui_main (\<lambda>_. []) True [] = Go (''ws://127.0.0.1:8765/ws'', [])"
  by (simp add: tui_main_def with_flags_def ResolveAddr_def ResolveWSPath_def ResolveToken_def WSURL_def
      has_prefix_def JoinHostPort_def contains_byte_def Let_def)

lemma tui_main_flags:
  "tui_main getenv True [''-addr'', a, ''-token='' @ t] =
     Go (WSURL (ResolveAddr getenv a) (ResolveWSPath getenv []), ResolveToken getenv t)"
proof -
  have "parse_flags tui_formal [''-addr'', a, ''-token='' @ t] \<lparr>tf_addr = [], tf_token = [], tf_ws_path = []\<rparr> =
      parse_flags tui_formal [''-token='' @ t] \<lparr>tf_addr = a, tf_token = [], tf_ws_path = []\<rparr>"
    using parse_flag_space [of "''addr''"] by (simp add: flag_name_def tui_formal_def)
  also have "\<dots> = Inr (\<lparr>tf_addr = a, tf_token = t, tf_ws_path = []\<rparr>, [])"
    using parse_flag_equals [of "''token''" tui_formal] by (simp add: flag_name_def tui_formal_def)
  finally show ?thesis by (simp add: tui_main_def with_flags_def)
qed

text \<open>Without a client id the capture tool ends at once.\<close>

lemma capture_main_requires_id:
  "capture_main parse_duration accepts login create parse wr frames paths [] = Exit 2"
  by (simp add: capture_main_def with_flags_def)

end
