(* ===== verification/Spec2Isabelle.thy ===== *)
theory Spec2Isabelle
  imports Activity_Store Ratelimit Auth Whole_Metrics Keepalive Mains
begin

text \<open>
  \<^bold>\<open>discord-proxy-rpc\<close>: a proxy that reads Rich Presence activities from Discord's local IPC socket and
  serves them over HTTP and WebSocket, with its clients and tools.

  \<^bold>\<open>How the parts work together.\<close>  \<open>cmd/proxy/main.go\<close> loads the configuration, connects the IPC client and
  starts the goroutines.  \<open>internal/ipc\<close> supervises one session after the other: \<open>Run\<close> reads frames into
  an event channel, a health check pings, \<open>RunWithReconnect\<close> retries with a growing delay.
  \<open>runIPCEventLoop\<close> takes the events out, parses activities and hands them to the presence machine of
  \<open>internal/state\<close>, which debounces them and calls its subscribers; the subscribed callback broadcasts a
  message through the hub of \<open>internal/server\<close> to the WebSocket clients.  The HTTP server in front of the
  hub limits rates, counts connections and checks tokens.  The terminal client, the example consumer
  and the capture tool are programs of their own.

  \<^bold>\<open>Theories, in the order they build on each other.\<close>
  \<^item> \<open>Prelude\<close>, \<open>Go_Chan\<close>, \<open>Go_Strings\<close>, \<open>Base64url\<close>, \<open>Json\<close>: what the models share: runs and invariants of
    labelled step relations (locale \<open>step_invariant_all\<close>, interpreted for each system), equality by
    normal form, Go's buffered channels with close and its panics, byte strings as in the packages
    strings, strconv and net, unpadded base64url, JSON values and \<open>encoding/json\<close> struct decoding.
  \<^item> \<open>Activity\<close>, \<open>Activity_Store\<close>: \<open>pkg/types/activity.go\<close>; \<open>Equals\<close>, \<open>IsEmpty\<close>, and \<open>Clone\<close> over an explicit store.
  \<^item> \<open>Presence\<close>, \<open>Presence_Inv\<close>, \<open>Presence_Sched\<close>: \<open>internal/state/presence.go\<close> as a step relation whose
    steps are the locked sections; its invariants; its behaviour under prompt timers.
  \<^item> \<open>Ratelimit\<close>, \<open>Auth\<close>, \<open>Config\<close>, \<open>Messages\<close>: \<open>internal/server/ratelimit.go\<close>, \<open>auth.go\<close>, \<open>messages.go\<close>,
    \<open>internal/config/config.go\<close>.  Messages states the codec contract \<open>wire_codec\<close>, Ratelimit the pool of slots.
  \<^item> \<open>Hub\<close>, \<open>Hub_Inv\<close>, \<open>Hub_Content\<close>: \<open>internal/server/hub.go\<close> with the pumps as a step relation, its
    invariants, and what it carries (locale \<open>hub_content\<close>, for any property of messages).
  \<^item> \<open>Http\<close>: \<open>http.go\<close>, \<open>ws.go\<close>, \<open>errors.go\<close>, \<open>metrics.go\<close>: options, routes, the gates before the upgrade.
  \<^item> \<open>Ipc_Parser\<close>, \<open>Backoff\<close>, \<open>Ipc_Client\<close>: \<open>internal/ipc/parser.go\<close>, the delays of the three retry loops under
    one contract (locale \<open>doubling_schedule\<close>), \<open>client.go\<close> and \<open>reconnect.go\<close> sequentially.
  \<^item> \<open>Ipc_System\<close>, \<open>Ipc_System_Inv\<close>: the supervisor, the reading goroutine, \<open>healthcheck.go\<close> and
    \<open>runIPCEventLoop\<close> as one step relation with a program counter each; its invariants and some runs.
  \<^item> \<open>Platform\<close>, \<open>Mdns\<close>: \<open>internal/platform/ipc_path.go\<close>, \<open>internal/mdns\<close>.
  \<^item> \<open>Tui\<close>, \<open>Tui_View\<close>: \<open>internal/tui\<close>: the update function and its commands as a step relation, the view.
  \<^item> \<open>Proxy\<close>: \<open>cmd/proxy/main.go\<close>: wiring, start, shutdown, and the facts that need several components.
  \<^item> \<open>Whole_Proxy\<close>, \<open>Whole_Runs\<close>, \<open>Whole_Demo\<close>, \<open>Whole_Metrics\<close>: the started proxy as one step relation \<open>wstep\<close> over the
    states of all parts, joined by the calls that \<open>main\<close>, the event loop, the callback and the handlers
    make; its projections on the parts (locale \<open>step_projection\<close>), its invariants, some runs, one
    concrete run, and what its metrics count.
  \<^item> \<open>Consumer\<close>, \<open>Capture\<close>: \<open>examples/consumer\<close>, \<open>cmd/ipc-capture\<close>.
  \<^item> \<open>Keepalive\<close>: the read deadlines of \<open>ReadPump\<close> and of the consumer under one contract (locale
    \<open>deadline_reader\<close>), with frames at the instants of their arrival.
  \<^item> \<open>Mains\<close>: flag parsing and the \<open>main\<close> functions of the terminal client, the consumer and the capture tool.

  Names are those of the source where Isabelle allows it; record fields carry a short prefix where Go's
  field names repeat.  A method becomes a function of its receiver's record; an operation that can
  panic returns an option or sets a panic flag; one that can fail returns a sum.  Durations and
  timestamps are 64-bit words where the code's arithmetic can wrap and integers elsewhere.

  \<^bold>\<open>What the lemmas show.\<close>  The whole: each part stays in a state of its own model, nothing panics before
  shutdown, clients hear only of what Discord sent, notifications keep its order, the routes answer with
  the state of the moment, clients are admitted and counted, the metrics are true, activities can be
  delivered, the shutdown completes, and callbacks can overtake one another.  Presence: exact
  debouncing, no repeated notification, stale timers and stopped machines change nothing, bounded callbacks, \<open>Stop\<close> returns.  Values: \<open>Equals\<close> is equality of normal
  forms, clones share nothing.  Server: the rate limit and what it really counts, exact connection
  slots, the authentication decision, every carrier of the token, no data without it, when the routes
  can be registered.  Wire: round trips, acceptance of exactly the protocol, agreement of the three
  implementations.  Hub: no panic before shutdown and one that shutdown can cause, exact fan-out.
  IPC: types and errors of the parser, termination and delays of the reconnection, no channel panic,
  order of events, alternation of the broadcast states, health check.  Clients: one driver command,
  delays, read deadlines, exact counts.

  \<^bold>\<open>Bounds and fuel.\<close>  No definition runs on fuel.  \<open>Reconnect_loop\<close> terminates by the attempts left below
  fifty; the loops over reads, sessions and frames recurse over what the environment delivers, which
  ends as the code's loops do, with a read error.  The loop of \<open>double_while\<close> runs the number of times
  the code gives it.  The delay theorems assume a cap below \<open>2^62\<close> nanoseconds (146 years).

  \<^bold>\<open>Limits of the model.\<close>  Strings are byte lists and JSON strings are taken to be valid UTF-8.  An array
  member that occurs twice in one JSON object is decoded afresh.  The counters that the code keeps in
  \<open>int\<close> or \<open>uint64\<close> and only increments are natural numbers.  The jitter is computed exactly, without the
  rounding of \<open>float64\<close>.  \<open>Connect\<close> is one step of the IPC system.  Paths given to the HTTP multiplexer
  are clean, and patterns with methods, hosts or wildcards do not occur.  Logging is left out.  In the
  whole, the parts keep clocks of their own that pass independently, requests are allowed until \<open>main\<close>
  returns, and a liveness property says that the steps needed are possible, not that they are fair.
  The time format of the capture tool's \<open>-duration\<close> (\<open>time.ParseDuration\<close>) is an argument.

  \<^bold>\<open>Not modelled.\<close>  Third-party libraries are arguments: gopresence (dialling, login, reading and parsing
  frames, filling its activity struct), gorilla/websocket (upgrade, reads, writes), viper and zap (what
  \<open>LoadConfig\<close> and \<open>SetupLogger\<close> ask of them), zeroconf (registration), bubbletea (the runtime delivering
  messages) and lipgloss (styles).  Whether the Prometheus library registers the collectors is an
  argument, and its exposition format is left out.  The delivery of operating-system signals and the
  embedded files of the dashboard are left out.
\<close>

section \<open>The proxy at run time\<close>



text \<open>C2: The clients hear of nothing but what Discord sent.  Whatever the interleaving, every document
  written to a WebSocket client is a message that the client library accepts as it was meant, and that
  message is an update or a snapshot of an activity handed over by the IPC side, an empty snapshot, a
  state of the IPC connection, or an error reply.\<close>

theorem clients_hear_only_discord:
  assumes "start_proxy ps env net mdns_ok hostname c = Serving px"
    and "wreachable parseFrame decode errtxt px w"
    and "objs (w_hub w) i = Some cl" and "j \<in> set (out cl)"
  shows "\<exists>m. j = json_of_server_message m \<and> ParseServerMessage (Some j) = Inr m \<and> genuine (updates (w_ipc w)) m"
proof -
  have "carries (genuine (updates (w_ipc w))) (w_hub w)"
    using wreachable_invs(1) [OF assms(1,2)] by (simp add: flow_inv_def)
  then obtain m where "j = json_of_server_message m" "genuine (updates (w_ipc w)) m"
    using assms(3,4) by (force simp: carries_def client_carries_def)
  with genuine_accepted show ?thesis by blast
qed

theorem clients_hear_only_discord_witness:
  "\<exists>(cl :: Client) j m. j \<in> set (out cl) \<and> ParseServerMessage (Some j) = Inr m \<and> genuine [plain_activity] m"
proof -
  obtain w cl where w: "wreachable text_frame (\<lambda>_. Some plain_source) (\<lambda>_. []) demo_started w"
      "w_ipc w = w_ipc demo_world" "objs (w_hub w) ''c'' = Some cl" "out cl \<noteq> []"
    using demo_answered by blast
  from w(4) obtain j where j: "j \<in> set (out cl)" by (cases "out cl") auto
  obtain m where "ParseServerMessage (Some j) = Inr m" "genuine [plain_activity] m"
    using clients_hear_only_discord [OF demo_started_serving w(1,3) j] w(2) by (auto simp: demo_world_state)
  with j show ?thesis by blast
qed

text \<open>C3: The subscribers are told in order.  In every reachable state of the proxy, the activities
  notified are a subsequence of those handed to the presence machine, which are all that the IPC side
  produced but the one it is just handing over; each is well formed, and none equals the one notified
  before it.\<close>

theorem notified_in_order:
  assumes "start_proxy ps env net mdns_ok hostname c = Serving px"
    and "wreachable parseFrame decode errtxt px w"
  shows "subseq (notified (w_pres w)) (handed_over w) \<and>
    (updates (w_ipc w) = handed_over w \<or>
      (\<exists>a. w_pending w = Some (Call_update a) \<and> updates (w_ipc w) = handed_over w @ [a])) \<and>
    list_all well_formed (notified (w_pres w)) \<and>
    successively (\<lambda>x y. \<not> Equals y x) (zero_activity # notified (w_pres w))"
proof -
  have flow: "pending_inv w" "subseq (notified (w_pres w)) (handed_over w)"
    using wreachable_invs(1) [OF assms] by (simp_all add: flow_inv_def presence_from_def notified_from_def)
  have "set (notified (w_pres w)) \<subseteq> set (updates (w_ipc w))"
    using list_emb_set [OF flow(2)] handed_over_subset by blast
  then have "list_all well_formed (notified (w_pres w))"
    using updates_well_formed [OF parts_reachable(1) [OF assms]] by (auto simp: list_all_iff)
  moreover have "updates (w_ipc w) = handed_over w \<or>
      (\<exists>a. w_pending w = Some (Call_update a) \<and> updates (w_ipc w) = handed_over w @ [a])"
    using handed_over_call [OF flow(1)] by (auto simp: handed_over_def split: option.split loop_call.split)
  ultimately show ?thesis
    using flow(2) notifications_are_changes [OF parts_reachable(2) [OF assms]] by blast
qed

theorem notified_in_order_witness:
  "updates (w_ipc demo_world) = handed_over demo_world \<and> list_all well_formed (notified (w_pres demo_world))"
  using notified_in_order [OF demo_started_serving demo_reachable [of "\<lambda>_. []"]] by (simp add: demo_world_state)

text \<open>C4: The data routes answer with the state of that moment.  Until \<open>main\<close> stops the presence machine,
  an authorised request for \<open>/api/presence\<close> is answered 200 with the last activity handed over, or the
  empty snapshot while there is none, whether or not it has been notified yet; \<open>/readyz\<close> answers 200 exactly while
  the IPC connection stands.\<close>

theorem data_routes_answer:
  assumes "start_proxy ps env net mdns_ok hostname c = Serving px"
    and "wreachable parseFrame decode errtxt px w" and "w_main w \<notin> {Main_stopping, Main_returned}"
    and "ContentLength r \<le> maxRequestBodyBytes"
  shows "(Path r = ''/api/presence'' \<longrightarrow> (auth_Enabled (Auth c) \<longrightarrow> BearerAuthFunc (Auth c) r) \<longrightarrow> (let resp = fst (ServeHTTP (env_in w e) r (w_srv w)) in
      rs_status resp = 200 \<and> rs_body resp = B_json (json_of_snapshot
        (if handed_over w = [] then \<lparr>Source = SourceNone, snap_Activity = None\<rparr>
         else \<lparr>Source = SourceIPC, snap_Activity = Some (last (handed_over w))\<rparr>)))) \<and>
    (Path r = ''/readyz'' \<longrightarrow> (rs_status (fst (ServeHTTP (env_in w e) r (w_srv w))) = 200 \<longleftrightarrow>
      ipc_state (cli (w_ipc w)) = IPC_Connected))"
proof -
  have gates: "srv_auth (w_srv w) = srv_auth (started_server c)" "mux (w_srv w) = mux (started_server c)"
    using wreachable_invs(3) [OF assms(1,2)] by (simp_all add: gates_def)
  have free: "ws_path c \<notin> reserved_paths c"
    using assms(1) start_proxy_iff [of ps env net mdns_ok hostname c] by blast
  have auth: "authorized (srv_auth (w_srv w)) r" if "auth_Enabled (Auth c) \<longrightarrow> BearerAuthFunc (Auth c) r"
    using that by (simp add: gates authorized_def started_server_def)
  have "\<not> stopped (pres (w_pres w))" using wreachable_main(1) [OF assms(1,2)] assms(3) by (simp add: main_inv_def)
  then have snap: "Snapshot (pres (w_pres w)) = (if handed_over w = [] then \<lparr>Source = SourceNone, snap_Activity = None\<rparr>
      else \<lparr>Source = SourceIPC, snap_Activity = Some (last (handed_over w))\<rparr>)"
    using wreachable_invs(1) [OF assms(1,2)]
    by (auto simp: flow_inv_def presence_from_def snapshot_from_def Snapshot_def)
  have route: "ServeHTTP (env_in w e) r (w_srv w) = run_handler (env_in w e) h r (w_srv w)"
    if "map_of (routes_of []) (Path r) = Some h" "Path r \<in> {''/api/presence'', ''/readyz''}" for h
    by (rule ServeHTTP_route [OF _ assms(4)]) (use that map_of_started [OF free, of "Path r"] gates in auto)
  show ?thesis
    using route [of Api_presence] route [of Readyz] requireAuth_passes [OF auth] snap State_String_connected
    by (auto simp: routes_of_def run_handler_def handlePresence_def handleReadyz_def json_response_def respond_def
        env_in_def Let_def)
qed

theorem data_routes_answer_witness:
  "rs_body (fst (ServeHTTP (env_in demo_world demo_env) (ws_request\<lparr>Path := ''/api/presence''\<rparr>) (w_srv demo_world))) =
     B_json (json_of_snapshot \<lparr>Source = SourceIPC, snap_Activity = Some plain_activity\<rparr>)"
proof -
  have "handed_over demo_world = [plain_activity]" "w_main demo_world = Main_serving"
    by (simp_all add: handed_over_def demo_world_state) (simp add: demo_world_def world_of_def)
  moreover have "ContentLength (ws_request\<lparr>Path := ''/api/presence''\<rparr>) \<le> maxRequestBodyBytes"
    by (simp add: ws_request_def demo_request_def maxRequestBodyBytes_def)
  ultimately show ?thesis
    using data_routes_answer [OF demo_started_serving demo_reachable [of "\<lambda>_. []"], of "ws_request\<lparr>Path := ''/api/presence''\<rparr>" demo_env]
    by (simp add: token_authorized Let_def)
qed



text \<open>C6: A settled activity reaches everybody.  From every reachable state of the proxy in which the timer is armed
  for an activity that differs from the last one notified, the machine and the broadcast queue are idle
  and the hub runs, a run of timer, fan-out, callback and dispatch puts exactly that activity into the
  queue of every client subscribed to presence with room for it, in a message that the terminal client
  parses and shows.\<close>

theorem settled_activity_delivered:
  assumes "start_proxy ps env net mdns_ok hostname c = Serving px"
    and "wreachable parseFrame decode errtxt px w"
    and "armed (w_pres w) g = Some t" and "resting (w_pres w)" and "callbacks (w_pres w) = []"
    and "\<not> Equals (cached (pres (w_pres w))) (lastNotified (pres (w_pres w)))"
    and "running (w_hub w)" and "ch_buf (broadcast (w_hub w)) = []"
  shows "\<exists>ks w' t msg. run_of (wstep parseFrame decode errtxt) ks w w' \<and>
    msg = update_message \<lparr>upd_Activity = cached (pres (w_pres w)), upd_Timestamp = t\<rparr> \<and>
    (\<forall>i cl. i \<in> clients (w_hub w) \<longrightarrow> objs (w_hub w) i = Some cl \<longrightarrow> MsgTypePresence \<in> events cl \<longrightarrow>
      length (ch_buf (send cl)) < 256 \<longrightarrow>
      (\<exists>cl'. objs (w_hub w') i = Some cl' \<and> ch_buf (send cl') = ch_buf (send cl) @ [msg])) \<and>
    (\<forall>m. applyServerMessage errtxt' (sum_option (ParseServerMessage (Some (json_of_server_message msg)))) m =
      m\<lparr>m_snapshot := \<lparr>Source = SourceIPC, snap_Activity = Some (cached (pres (w_pres w)))\<rparr>, m_lastErr := []\<rparr>)"
proof -
  let ?a = "cached (pres (w_pres w))"
  obtain ls q u where round: "run_of pstep ls (w_pres w) q" "list_all inner_presence ls" "callbacks q = [((1, 0), u)]"
      "upd_Activity u = ?a"
    using presence_round [OF assms(3) reachable_timer_inv [OF parts_reachable(2) [OF assms(1,2)]] assms(4,6)] assms(5)
    by auto
  obtain ks w' where run: "run_of (wstep parseFrame decode errtxt) ks w w'"
      "\<forall>i cl. i \<in> clients (w_hub w) \<longrightarrow> objs (w_hub w) i = Some cl \<longrightarrow>
        (\<exists>cl'. objs (w_hub w') i = Some cl' \<and> told (update_message u) cl cl')"
    using activity_reaches_clients [OF wreachable_invs(4) [OF assms(1,2)] assms(7,8) round(1-3)] by blast
  have type: "sm_Type (update_message u) = MsgTypePresence"
    by (simp add: update_message_def NewPresenceMessage_def zero_server_message_def)
  have "subseq (notified (w_pres w) @ [?a]) (handed_over w)"
    using wreachable_invs(1) [OF assms(1,2)] assms(6) by (simp add: flow_inv_def presence_from_def notified_from_def)
  then have "?a \<in> set (updates (w_ipc w))" using list_emb_set handed_over_subset by fastforce
  then have "well_formed ?a" by (rule updates_well_formed [OF parts_reachable(1) [OF assms(1,2)]])
  with round(4) have "well_formed (upd_Activity u)" by simp
  note shown = shown_update [OF this]
  have "applyServerMessage errtxt' (sum_option (ParseServerMessage (Some (json_of_server_message (update_message u))))) m =
      m\<lparr>m_snapshot := \<lparr>Source = SourceIPC, snap_Activity = Some ?a\<rparr>, m_lastErr := []\<rparr>" for m
    using shown by (simp add: round(4))
  moreover have "u = \<lparr>upd_Activity = ?a, upd_Timestamp = upd_Timestamp u\<rparr>" by (simp flip: round(4))
  ultimately show ?thesis using run type
    by (intro exI [of _ ks] exI [of _ w'] exI [of _ "upd_Timestamp u"] exI [of _ "update_message u"])
      (fastforce simp: told_def)
qed

theorem settled_activity_delivered_witness:
  "\<exists>ks w' t msg cl'. run_of (wstep text_frame (\<lambda>_. Some plain_source) (\<lambda>_. [])) ks demo_world w' \<and>
     msg = update_message \<lparr>upd_Activity = cached (pres (w_pres demo_world)), upd_Timestamp = t\<rparr> \<and>
     objs (w_hub w') ''c'' = Some cl' \<and> ch_buf (send cl') = [msg]"
proof -
  obtain g t where "armed (w_pres demo_world) g = Some t" using demo_world_state(12) by blast
  from settled_activity_delivered [OF demo_started_serving demo_reachable [of "\<lambda>_. []"] this demo_world_state(7,8,11,3,4), of "\<lambda>_. []"]
  obtain ks w' t msg where d: "run_of (wstep text_frame (\<lambda>_. Some plain_source) (\<lambda>_. [])) ks demo_world w'"
      "msg = update_message \<lparr>upd_Activity = cached (pres (w_pres demo_world)), upd_Timestamp = t\<rparr>"
      "\<forall>i cl. i \<in> clients (w_hub demo_world) \<longrightarrow> objs (w_hub demo_world) i = Some cl \<longrightarrow> MsgTypePresence \<in> events cl \<longrightarrow>
        length (ch_buf (send cl)) < 256 \<longrightarrow> (\<exists>cl'. objs (w_hub w') i = Some cl' \<and> ch_buf (send cl') = ch_buf (send cl) @ [msg])"
    by blast
  from d(3) [rule_format, of "''c''" demo_client] d(1,2) show ?thesis by (auto simp: demo_world_state)
qed



text \<open>C8: Callbacks can overtake one another.  Each notification runs its callback in a goroutine of its
  own, so for any two activities that differ (the first from the zero activity) there is a run in
  which they are notified in order, the machine holds the second, and yet the callbacks run in the
  opposite order; the hub then queues the older activity last, and the clients are left with it.\<close>

theorem callbacks_can_overtake:
  assumes "\<not> Equals a zero_activity" and "\<not> Equals b a"
  shows "\<exists>s u v. preachable d s \<and> notified s = [a, b] \<and> cached (pres s) = b \<and>
    map snd (invoked s) = [v, u] \<and> upd_Activity u = a \<and> upd_Activity v = b \<and>
    ch_buf (broadcast (snd (fold (\<lambda>x. on_update (snd x)) (invoked s) (sends, NewHub cid)))) =
      [update_message v, update_message u]"
proof -
  obtain s u v where s: "preachable d s" "notified s = [a, b]" "cached (pres s) = b" "upd_Activity u = a"
      "upd_Activity v = b" "invoked s = [((1, 0), v), ((1, 0), u)]"
    using callbacks_overtake [OF assms, of d] by blast
  then show ?thesis using overtaking_queue [of "(1, 0)" v "(1, 0)" u sends cid]
    by (intro exI [of _ s] exI [of _ u] exI [of _ v]) simp
qed

theorem callbacks_can_overtake_witness:
  "\<exists>s u v. preachable 5 s \<and> cached (pres s) = zero_activity\<lparr>a_State := ''b''\<rparr> \<and> map snd (invoked s) = [v, u] \<and>
     upd_Activity u = zero_activity\<lparr>a_State := ''a''\<rparr>"
  using callbacks_can_overtake [of "zero_activity\<lparr>a_State := ''a''\<rparr>" "zero_activity\<lparr>a_State := ''b''\<rparr>" 5]
  by (fastforce simp: Equals_def zero_activity_def)



section \<open>The presence cache\<close>

text \<open>C10: Debouncing, exactly.  On a presence machine freshly started with coalescing interval \<open>d\<close>
  (50 ms when \<open>d\<close> is not positive), feed a first update and then any schedule of further updates,
  each after a given delay, and let a final delay pass, with every due timer run promptly.  The
  state is reachable by the machine's steps, and the activities notified to subscribers are exactly
  the updates followed by a full interval of silence, less those equal to the previously notified
  one (the zero activity at first).\<close>

theorem debounce_exact:
  assumes "\<forall>(g, b) \<in> set es. 0 \<le> g" and "0 \<le> e"
  shows "preachable d (elapse e (play es (Update a (Start (psys_init d))))) \<and>
    notified (elapse e (play es (Update a (Start (psys_init d))))) =
      drop_repeats Equals zero_activity (settled (interval (NewPresence d)) a es e)"
  using notified_fresh [OF assms] preachable_fresh [OF assms] by blast

theorem debounce_exact_witness:
  "notified (elapse 7 (play [(2, zero_activity\<lparr>a_State := ''b''\<rparr>), (6, zero_activity\<lparr>a_State := ''c''\<rparr>)]
      (Update (zero_activity\<lparr>a_State := ''a''\<rparr>) (Start (psys_init 5))))) =
    [zero_activity\<lparr>a_State := ''b''\<rparr>, zero_activity\<lparr>a_State := ''c''\<rparr>]"
  using debounce_exact [of "[(2, zero_activity\<lparr>a_State := ''b''\<rparr>), (6, zero_activity\<lparr>a_State := ''c''\<rparr>)]"
      7 5 "zero_activity\<lparr>a_State := ''a''\<rparr>"]
  by (simp add: NewPresence_def Equals_def zero_activity_def button_list_def)

text \<open>C11: Only the newest timer can notify.  In every reachable state at most one timer is armed, it
  is the machine's current one and belongs to the newest generation; a timer goroutine that already
  fired for an older generation notifies nothing when it finally runs its flush.\<close>

theorem only_newest_timer_notifies:
  assumes "preachable d s"
  shows "(\<forall>g t. armed s g = Some t \<longrightarrow> g = gen (pres s) \<and> timer (pres s) = Some g) \<and>
    (\<forall>g t. pstep (L_Flush g) s t \<longrightarrow> g < gen (pres s) \<longrightarrow> pres t = pres s \<and> notified t = notified s)"
  using reachable_timer_inv [OF assms]
  by (auto simp: timer_inv_def pstep_flush_iff flush_def Let_def)

theorem only_newest_timer_notifies_witness:
  "armed (Update zero_activity (psys_init 5)) = [1 \<mapsto> 5] \<and>
   gen (pres (Update zero_activity (psys_init 5))) = 1"
proof -
  have "preachable 5 (Update zero_activity (psys_init 5))"
    by (rule preachable_step [OF preachable_init pstep.update])
  from only_newest_timer_notifies [OF this] show ?thesis
    by (auto simp: Update_def psys_init_def NewPresence_def stop_timer_def Let_def)
qed

text \<open>C12: A stopped machine is inert.  After \<open>Stop\<close>, whatever happens short of a new \<open>Start\<close> (updates,
  timers already running, callbacks still in flight), the cached activity, the source flag and the
  list of notified activities stay as they were.\<close>

theorem stop_freezes:
  assumes "run_of pstep ls (Stop s) t" and "L_Start \<notin> set ls"
  shows "stopped (pres t) \<and> Snapshot (pres t) = Snapshot (pres s) \<and> notified t = notified s"
proof -
  have "frozen_view (Stop s) = (True, cached (pres s), hasSource (pres s), lastNotified (pres s), notified s)"
    by (auto simp: frozen_view_def Stop_def Let_def split: option.split)
  with assms frozen.run_keeps [OF assms(1)] show ?thesis
    by (auto simp: list_all_iff frozen_view_def Snapshot_def)
qed

theorem stop_freezes_witness:
  "notified (Update zero_activity (Stop (psys_init 5))) = []"
  using stop_freezes [OF run_single [where step = pstep, OF pstep.update]]
  by (simp add: psys_init_def)

section \<open>Activities\<close>

text \<open>C13: \<open>Equals\<close> is an equivalence: it holds exactly when the two activities have the same normal form,
  in which a part holding only zero values counts as absent and an empty button list as nil; the
  normal form is idempotent, so every class has one representative.\<close>

theorem Equals_by_normal_form:
  "(Equals a b \<longleftrightarrow> activity_norm a = activity_norm b) \<and> Equals a (activity_norm a) \<and>
   activity_norm (activity_norm a) = activity_norm a"
  by (simp add: Equals_norm activity_norm_idem)

text \<open>C14: A clone shares no memory with its original.  In a well-formed store, the clone denotes the
  same activity, and afterwards no sequence of writes through the clone's pointers or button array
  changes the original, nor the other way round.\<close>

theorem clone_isolated:
  assumes "store_ok s" and "ref_ok s r" and "clone_ref r s = (s', q)"
  shows "load s' q = load s r \<and> load (writes_through q s' ws) r = load s r \<and>
    load (writes_through r s' ws) q = load s r"
  using clone_ref_load [OF assms] writes_unshared clone_ref_unshared [OF assms] unshared_sym
  by metis

theorem clone_isolated_witness:
  "let s = \<lparr>st_ts = Map.empty, st_as = Map.empty, st_pt = Map.empty,
        st_bt = [0 \<mapsto> [\<lparr>Label = ''x'', URL = ''y''\<rparr>]], st_next = 1\<rparr>;
       r = \<lparr>r_Details = ''d'', r_State = [], r_Timestamps = None, r_Assets = None, r_Party = None,
        r_Buttons = Some 0, r_Type = 0\<rparr>
   in a_Buttons (load (writes_through (snd (clone_ref r s)) (fst (clone_ref r s))
        [Write_bt 0 \<lparr>Label = ''z'', URL = ''z''\<rparr>]) r) = Some [\<lparr>Label = ''x'', URL = ''y''\<rparr>]"
  unfolding Let_def
  by (subst conjunct1 [OF conjunct2 [OF clone_isolated [OF _ _ surjective_pairing]]])
    (simp_all add: store_ok_def ref_ok_def load_def)

section \<open>Admission control\<close>

text \<open>C15: The rate limit holds.  After any history of requests from any addresses and evictions, among
  the events inside one window of the configured length at most \<open>max 1 rate\<close> requests of an address
  are allowed.\<close>

theorem rate_limit_bound:
  assumes "\<forall>e\<in>set es. event_within T (T + w) e"
  shows "int (length (filter id (verdicts ip es (snd (rl_run history (NewRateLimiter r w)))))) \<le> max 1 r"
proof -
  let ?rl = "snd (rl_run history (NewRateLimiter r w))"
  have "rl_ok ?rl" by (rule rl_ok_run [OF rl_ok_new])
  moreover have "rate ?rl = r" "window ?rl = w"
    using rl_run_params [of history "NewRateLimiter r w"] by (simp_all add: NewRateLimiter_def)
  moreover have "counted ip T 0 ?rl" by (simp add: counted_def)
  ultimately show ?thesis
    using allowed_bound [of ?rl ip T 0 es] assms by simp
qed

theorem rate_limit_bound_witness:
  "length (filter id (verdicts ''a'' (replicate 9 (Allow_at ''a'' 5 5))
    (snd (rl_run [Allow_at ''b'' 1 1] (NewRateLimiter 3 60))))) \<le> 3"
  using rate_limit_bound [of "replicate 9 (Allow_at ''a'' 5 5)" 0 60 "''a''" "[Allow_at ''b'' 1 1]" 3]
  by simp

text \<open>C16: Isolation of addresses.  As long as clock readings do not go back, what the limiter answers to
  one address is what a limiter with a single counter for that address alone, never evicted, would
  answer: other addresses and the eviction goroutine are unobservable.\<close>

theorem limiter_refines_single_counter:
  assumes "timed_from t es"
  shows "verdicts ip es (NewRateLimiter r w) = spec_verdicts r w ip None es"
  by (rule verdicts_new [OF assms])

theorem limiter_refines_single_counter_witness:
  "verdicts ''a'' [Allow_at ''a'' 0 0, Allow_at ''b'' 1 1, Evict_at 70, Allow_at ''a'' 70 70]
    (NewRateLimiter 1 60) = [True, True]"
  using limiter_refines_single_counter [of 0
      "[Allow_at ''a'' 0 0, Allow_at ''b'' 1 1, Evict_at 70, Allow_at ''a'' 70 70]" "''a''" 1 60]
  by simp

text \<open>C17: A slow steady client is rejected.  An address that asks once per period, with a period of at
  most the window (so possibly a single request per window), is admitted \<open>r\<close> times and rejected the
  next time: the counter is reset only by a gap longer than the window.\<close>

theorem steady_client_rejected:
  assumes "0 < p" and "p \<le> w" and "1 \<le> r"
  shows "verdicts ip (periodic ip p 0 (Suc r)) (NewRateLimiter (int r) w) = replicate r True @ [False]"
proof -
  obtain n where n: "r = Suc n" using assms(3) by (cases r) auto
  have "verdicts ip (periodic ip p 0 (Suc r)) (NewRateLimiter (int r) w) =
      spec_verdicts (int r) w ip None (periodic ip p 0 (Suc r))"
    by (rule verdicts_new [OF periodic_timed [OF assms(1), of 0]]) simp
  also have "\<dots> = replicate r True @ [False]"
    using periodic_verdicts [OF assms(1,2), of 1 n "int r" ip 1] by (simp add: n)
  finally show ?thesis .
qed

theorem steady_client_rejected_witness:
  "verdicts ''a'' (periodic ''a'' 60 0 11) (NewRateLimiter 10 60) = replicate 10 True @ [False]"
  using steady_client_rejected [of 60 60 10 "''a''"] by simp

section \<open>Authentication\<close>

text \<open>C18: The decision.  With authentication enabled a request passes exactly if the first token found,
  looking at the Authorization header, the WebSocket subprotocols, the cookie and the query in this
  order, is the configured one; an empty configured token admits nobody.\<close>

theorem auth_decision:
  assumes "auth_Enabled acfg"
  shows "BearerAuthFunc acfg r \<longleftrightarrow>
    find (\<lambda>t. t \<noteq> [])
      [extractBearerToken r, extractSubprotocolToken r, extractCookieToken r, extractQueryToken r] =
    Some (auth_Token acfg)"
  using assms by (auto simp: BearerAuthFunc_iff extractToken_def)

theorem auth_decision_witness:
  "\<not> BearerAuthFunc \<lparr>auth_Enabled = True, auth_Token = []\<rparr>
    \<lparr>Path = ''/ws'', RemoteAddr = [], Headers = [], Cookies = [], Query = [], ContentLength = 0, TLS = False\<rparr>"
  by (subst auth_decision)
    (simp_all add: extractBearerToken_def extractSubprotocolToken_def extractCookieToken_def
      extractQueryToken_def Header_Get_def first_value_def TrimSpace_graphic)

text \<open>C19: Every carrier of the token works.  The configured token admits a request that carries it in an
  Authorization header of scheme bearer, in any letter case; or, with no such header, one that offers
  anywhere in its list of subprotocols the prefix followed by the base64url form of the token, with
  no earlier entry of that prefix; or, with neither, one that presents the cookie the server set for
  the token, whatever bytes it consists of.\<close>

theorem carriers_admit:
  assumes "auth_Token acfg \<noteq> []"
    and "Header_Get r ''Authorization'' = scheme @ '' '' @ auth_Token acfg \<and>
        equal_fold_lower scheme ''bearer'' \<and> TrimSpace (auth_Token acfg) = auth_Token acfg \<or>
      extractBearerToken r = [] \<and>
        Header_Get r ''Sec-WebSocket-Protocol'' =
          join_comma (qs @ (subprotocolTokenPrefix @ EncodeToString (auth_Token acfg)) # ps) \<and>
        (\<forall>p\<in>set qs. \<not> has_prefix (TrimSpace p) subprotocolTokenPrefix) \<and>
        (\<forall>p\<in>set (qs @ ps). CHR '','' \<notin> set p) \<or>
      extractBearerToken r = [] \<and> extractSubprotocolToken r = [] \<and>
        map_of (Cookies r) authCookieName = Some (ck_Value (setAuthCookie q (auth_Token acfg)))"
  shows "BearerAuthFunc acfg r"
  using bearer_carrier [of r scheme "auth_Token acfg"] subprotocol_round_trip [of r qs "auth_Token acfg" ps]
    cookie_round_trip [OF assms(1), of r q] assms
  by (elim disjE conjE) (simp_all add: BearerAuthFunc_iff extractToken_def)

theorem carriers_admit_witness:
  "BearerAuthFunc \<lparr>auth_Enabled = True, auth_Token = ''s3'' @ [CHR 0xFF]\<rparr>
    \<lparr>Path = ''/ws'', RemoteAddr = [], Headers = [], Cookies = [(''proxy-rpc-token'',
      encodeAuthCookieValue (''s3'' @ [CHR 0xFF]))], Query = [], ContentLength = 0, TLS = False\<rparr>"
  by (rule carriers_admit [OF _ disjI2 [OF disjI2]])
    (simp_all add: extractBearerToken_def extractSubprotocolToken_def Header_Get_def
      first_value_def authCookieName_def setAuthCookie_def)

section \<open>Messages\<close>

text \<open>C20: An activity survives the wire.  Decoding the JSON form of any activity gives back an activity
  that is identical except that an empty button list has become nil, and \<open>Equals\<close> cannot tell the two
  apart.\<close>

theorem activity_json_round_trip:
  "\<exists>b. activity_of_json (json_of_activity a) zero_activity = Some b \<and> Equals b a \<and>
     b = a\<lparr>a_Buttons := drop_if (\<lambda>bs. bs = []) (a_Buttons a)\<rparr>"
  using activity_round_trip_Equals [of a] by (simp add: activity_round_trip)

text \<open>C21: The server's messages are what a consumer parses.  Every message the constructors build (state
  messages for the three announced states) is received field for field as it was sent, and the parser
  accepts nothing outside the protocol: a payload for presence, current and error, one of the three
  states for state.\<close>

theorem server_messages_round_trip:
  assumes "m \<in> {NewPresenceMessage snap, NewCurrentMessage snap ids, NewErrorMessage code t} \<or>
    m = NewStateMessage st ids \<and> st \<in> {StateConnected, StateDisconnected, StateReconnecting}"
  shows "ParseServerMessage (Some (json_of_server_message m)) = Inr m \<and>
    (\<forall>doc m'. ParseServerMessage doc = Inr m' \<longrightarrow>
      sm_Type m' \<in> {MsgTypePresence, MsgTypeCurrent, MsgTypeError} \<and> Payload m' \<noteq> None \<or>
      sm_Type m' = MsgTypeState \<and> Status m' \<in> {StateConnected, StateDisconnected, StateReconnecting})"
proof -
  have "valid_server m" using assms constructors_valid by auto
  then show ?thesis
    using server_wire.parse_encode server_wire.parse_valid by (auto simp: valid_server_def)
qed

theorem server_messages_round_trip_witness:
  "ParseServerMessage (Some (json_of_server_message (NewStateMessage StateConnected [''42'']))) =
    Inr (NewStateMessage StateConnected [''42''])"
  by (rule conjunct1 [OF server_messages_round_trip [where st = StateConnected and ids = "[''42'']"]]) simp

section \<open>The hub\<close>

text \<open>C22: The hub never panics.  In every reachable state, under every interleaving of registration,
  unregistration, broadcasts, pumps, failures and shutdown, no section of the hub has sent on or
  closed a closed channel; a message handler can have done so only once the hub is closing; queues
  stay within their capacity.\<close>

theorem hub_never_panics:
  assumes "hreachable errtxt cid h"
  shows "\<not> hub_panic h \<and> (reader_panic h \<longrightarrow> closing h) \<and>
    (\<forall>i c. objs h i = Some c \<longrightarrow> length (ch_buf (send c)) \<le> 256) \<and>
    (\<forall>i\<in>clients h. \<exists>c. objs h i = Some c \<and> \<not> ch_closed (send c))"
proof -
  have inv: "hub_inv h" by (rule hreachable_inv [OF assms])
  have "length (ch_buf (send c)) \<le> 256" if "objs h i = Some c" for i c
    using hub_inv_client [OF inv that] by (simp add: client_ok_def chan_ok_def)
  moreover have "\<exists>c. objs h i = Some c \<and> \<not> ch_closed (send c)" if "i \<in> clients h" for i
    by (rule hub_inv_registered [OF inv that]) (simp add: client_ok_def)
  moreover have "\<not> hub_panic h" "reader_panic h \<longrightarrow> closing h"
    using inv by (simp_all add: hub_inv_def)
  ultimately show ?thesis by blast
qed

theorem hub_never_panics_witness: "\<not> hub_panic (NewHub ''42'')"
  using hub_never_panics [OF hreachable_init] by blast

text \<open>C23: Shutdown can panic.  There is a run in which a client's read pump is handling a message it must
  answer while the hub closes that client's queue; the handler then sends on a closed channel.\<close>

theorem shutdown_can_panic: "\<exists>h. hreachable errtxt cid h \<and> reader_panic h"
proof -
  let ?h = "(one_client cid)\<lparr>objs := [''c'' \<mapsto> (start_pumps NewClient)\<lparr>read_pump := Handling None\<rparr>]\<rparr>"
  let ?closed = "closeAllClients ?h"
  have reach: "hreachable errtxt cid ?closed"
    by (rule hreachable_step [OF one_client_handling hstep.close_clients])
  obtain c where c: "objs ?closed ''c'' = Some c" "read_pump c = Handling None" "ch_closed (send c)"
    by (auto simp: one_client_def closeAllClients_def NewHub_def NewClient_def start_pumps_def
        close_client_def closeChan_def)
  have "handle_message None errtxt (hub_ClientID ?closed) None c = None"
    using c(3) by (simp add: handle_message_def ParseClientMessage_def UnmarshalJSON_Client_def
        SendMessage_def send_or_drop_None)
  from hreachable_step [OF reach hstep.handle_panic [OF c(1,2) this]] show ?thesis
    by fastforce
qed

text \<open>C24: Fan-out.  Dispatching a list of broadcasts to a registered client appends to its queue, in
  order, exactly the messages of the types it subscribed to, stamped with the hub's id where they are
  state messages without one, as far as the 256 places go; the rest is dropped.\<close>

theorem broadcast_fan_out:
  assumes "hreachable errtxt cid h" and "i \<in> clients h" and "objs h i = Some c"
  shows "\<exists>c'. objs (fold dispatch ms h) i = Some c' \<and>
    ch_buf (send c') = ch_buf (send c) @ take (256 - length (ch_buf (send c)))
      (filter (\<lambda>m. sm_Type m \<in> events c) (map (stamp h) ms))"
  by (rule dispatches_queue [OF hreachable_inv [OF assms(1)] assms(2,3)])

theorem broadcast_fan_out_witness:
  "\<exists>c'. objs (fold dispatch [NewStateMessage StateConnected []] (one_client ''42'')) ''c'' = Some c' \<and>
    ch_buf (send c') = []"
  using broadcast_fan_out [OF one_client_reachable, of "''c''" "''42''" "start_pumps NewClient"
      "[NewStateMessage StateConnected []]"]
  by (auto simp: one_client_def start_pumps_def NewClient_def)

text \<open>C25: A client gets only what it asked for.  In every reachable state each message queued for a client
  and each document written to it is a reply (\<open>current\<close> or \<open>error\<close>) or has a type the client subscribed
  to, and state messages carry a client id whenever the hub has one.\<close>

theorem clients_get_what_they_subscribed:
  assumes "hreachable errtxt cid h" and "objs h i = Some c"
  shows "(\<forall>m\<in>set (ch_buf (send c)). deliverable cid (events c) m) \<and>
    (\<forall>j\<in>set (out c). \<exists>m. j = json_of_server_message m \<and> deliverable cid (events c) m)"
  using hreachable_delivery [OF assms(1)] assms(2)
  by (simp add: delivery_inv_def client_delivery_def)

theorem clients_get_what_they_subscribed_witness:
  "deliverable ''42'' {} (NewErrorMessage ErrCodeInvalidMessage [])"
proof -
  let ?t = "\<lambda>e::message_error. []::string" and ?m = "NewErrorMessage ErrCodeInvalidMessage []"
  let ?c = "(start_pumps NewClient)\<lparr>read_pump := Handling None\<rparr>"
  let ?c' = "?c\<lparr>send := (make_chan 256)\<lparr>ch_buf := [?m]\<rparr>\<rparr>"
  let ?h = "(one_client ''42'')\<lparr>objs := [''c'' \<mapsto> ?c]\<rparr>"
  have "handle_message None ?t (hub_ClientID ?h) None ?c = Some ?c'"
    by (simp add: handle_message_def ParseClientMessage_def UnmarshalJSON_Client_def SendMessage_def
        send_or_drop_open start_pumps_def NewClient_def)
  from hstep.handle [OF _ _ this, of "''c''"]
  have "hstep ?t (H_Handle ''c'' None) ?h (?h\<lparr>objs := [''c'' \<mapsto> ?c'\<lparr>read_pump := Reading\<rparr>]\<rparr>)"
    by simp
  from clients_get_what_they_subscribed [OF hreachable_step [OF one_client_handling this], of "''c''"]
  show ?thesis by (simp add: start_pumps_def NewClient_def)
qed

section \<open>The IPC session and its supervision\<close>

text \<open>C26: The type of what the proxy publishes.  Under every interleaving of the supervisor, the reading
  goroutine, the health check and the consumer loop, whatever Discord sends: each activity handed to
  the presence machine has a known type, no empty optional part and at most two buttons, each with a
  label and an address, and on such activities the comparison \<open>Equals\<close> is equality.\<close>

theorem published_activities_well_formed:
  assumes "ireachable parseFrame decode c ps s" and "a \<in> set (updates s)" and "b \<in> set (updates s)"
  shows "well_formed a \<and> (Equals a b \<longleftrightarrow> a = b)"
  using updates_well_formed [OF assms(1,2)] updates_well_formed [OF assms(1,3)]
  by (simp_all add: Equals_norm well_formed_norm)

theorem published_activities_well_formed_witness:
  "\<exists>s. ireachable text_frame (\<lambda>_. Some plain_source) quiet_config [''p''] s \<and> updates s = [plain_activity] \<and>
     well_formed plain_activity"
  using plain_frame_run [of quiet_config "''p''"]
    published_activities_well_formed [of text_frame "\<lambda>_. Some plain_source" quiet_config "[''p'']"]
  by (metis list.set_intros(1))

text \<open>C27: What the parser answers.  It accepts exactly the activities of a known type whose buttons
  are at most two and complete, and returns their normal form; otherwise the error names the first
  failing check: the type, then the number of buttons, then the first incomplete button, its label
  before its address.\<close>

theorem parser_verdict:
  "(ParseActivity (Some src) = Inr a \<longleftrightarrow>
      validateActivityType (p_Type src) \<and> buttons_ok (p_Buttons src) \<and> a = activity_norm (source_activity src)) \<and>
   (ParseActivity (Some src) = Inl e \<longleftrightarrow>
      \<not> validateActivityType (p_Type src) \<and> e = Unknown_activity_type (p_Type src) \<or>
      validateActivityType (p_Type src) \<and> 2 < length (p_Buttons src) \<and> e = Too_many_buttons (length (p_Buttons src)) \<or>
      validateActivityType (p_Type src) \<and> length (p_Buttons src) \<le> 2 \<and>
        (\<exists>bs b cs. p_Buttons src = bs @ b # cs \<and> (\<forall>x\<in>set bs. Label x \<noteq> [] \<and> URL x \<noteq> []) \<and>
           (Label b = [] \<and> e = Label_required (length bs) \<or>
            Label b \<noteq> [] \<and> URL b = [] \<and> e = URL_required (length bs))))"
  using ParseActivity_Inr [of src a] unfolding ParseActivity_Inl parseButtons_Inl by blast

theorem parser_verdict_witness:
  "ParseActivity (Some (plain_source\<lparr>p_Buttons := [\<lparr>Label = ''l'', URL = ''u''\<rparr>, \<lparr>Label = ''l'', URL = []\<rparr>]\<rparr>)) =
    Inl (URL_required 1)"
proof (rule parser_verdict [THEN conjunct2, THEN iffD2], intro disjI2 conjI exI)
  let ?src = "plain_source\<lparr>p_Buttons := [\<lparr>Label = ''l'', URL = ''u''\<rparr>, \<lparr>Label = ''l'', URL = []\<rparr>]\<rparr>"
  show "p_Buttons ?src = [\<lparr>Label = ''l'', URL = ''u''\<rparr>] @ \<lparr>Label = ''l'', URL = []\<rparr> # []" by simp
qed (simp_all add: plain_source_def validateActivityType_def)

text \<open>C28: Reconnecting ends.  From a manager that has made no attempt yet, if every wait runs out and no
  path ever answers, \<open>Reconnect\<close> gives up after exactly fifty waits; if some attempt below the
  fiftieth finds an answering path, it stops at the first such attempt, connected and with the
  counter back at zero; and a cancelled context ends it at the wait in which it is cancelled.\<close>

theorem reconnect_ends:
  assumes "autoReconnect mgr" and "attempt mgr = 0"
    and "\<forall>j<k. fruitless waits env (ipc_paths c) j" and "k \<le> 50"
  shows "(k = 50 \<longrightarrow> (\<exists>c'. Reconnect waits env mgr c =
        (Some ErrMaxReconnectAttempts, [0..<50], mgr\<lparr>attempt := 50\<rparr>, c'))) \<and>
    (k < 50 \<and> waits k = Timer \<and> (\<exists>p\<in>set (ipc_paths c). is_ready (env k p)) \<longrightarrow>
      (\<exists>c'. Reconnect waits env mgr c = (None, [0..<Suc k], mgr, c') \<and>
        ipc_state c' = IPC_Connected \<and> ipc_events c' \<noteq> None)) \<and>
    (k < 50 \<and> waits k = Ctx_done \<longrightarrow>
      (\<exists>c'. Reconnect waits env mgr c = (Some Ctx_error, [0..<Suc k], mgr\<lparr>attempt := k\<rparr>, c')))"
proof -
  have R: "Reconnect waits env mgr c = Reconnect_loop waits env mgr c" using assms(1) by (simp add: Reconnect_def)
  have f: "\<forall>j. attempt mgr \<le> j \<and> j < k \<longrightarrow> fruitless waits env (ipc_paths c) j" using assms(3) by simp
  have mgr: "Reset mgr = mgr" using assms(2) by (cases mgr) (simp add: Reset_def)
  show ?thesis
    using Reconnect_loop_gives_up [of mgr waits env c] Reconnect_loop_connects [OF f]
      Reconnect_loop_interrupted [OF f] f assms(2) R mgr by auto
qed

theorem reconnect_ends_witness:
  "\<exists>c'. Reconnect (\<lambda>_. Timer) (\<lambda>n p. if n = 2 then Ready None else Dial_failed)
      \<lparr>baseInterval = 5000000000, maxInterval = 60000000000, autoReconnect = True, attempt = 0\<rparr>
      (New_ipc [''/tmp/discord-ipc-0'']) =
    (None, [0..<Suc 2],
      \<lparr>baseInterval = 5000000000, maxInterval = 60000000000, autoReconnect = True, attempt = 0\<rparr>, c') \<and>
    ipc_state c' = IPC_Connected \<and> ipc_events c' \<noteq> None"
  by (rule reconnect_ends [THEN conjunct2, THEN conjunct1, rule_format])
    (auto simp: fruitless_def is_ready_def New_ipc_def)

text \<open>C29: The waits between attempts.  For a positive base not above a cap below \<open>2^62\<close> nanoseconds, the
  interval of attempt \<open>n\<close> is within ten percent (and one nanosecond) of the base doubled \<open>n\<close> times,
  capped: doubling never overflows, and the jitter can exceed the cap by a tenth.  The terminal
  client and the example consumer wait the same doubled and capped delays without jitter.\<close>

theorem retry_delays:
  assumes "0 < sint (baseInterval mgr)" and "sint (baseInterval mgr) \<le> sint (maxInterval mgr)"
    and "sint (maxInterval mgr) < 2 ^ 62" and "0 \<le> r" and "r < 1"
  defines "d \<equiv> min (sint (maxInterval mgr)) (sint (baseInterval mgr) * 2 ^ attempt mgr)"
  shows "9 * d - 10 < 10 * NextInterval r mgr \<and> 10 * NextInterval r mgr \<le> 11 * d \<and>
    sint (tui_delay (baseInterval mgr) (maxInterval mgr) (attempt mgr)) = d \<and>
    sint (consumer_delay (baseInterval mgr) (maxInterval mgr) (attempt mgr)) = d"
proof -
  have safe: "safe_range (baseInterval mgr) (maxInterval mgr)" using assms(1-3) by (simp add: safe_range_def)
  have d: "sint (cappedDouble (baseInterval mgr) (maxInterval mgr) (attempt mgr)) = d"
    using ipc_delay.delay_closed [OF safe] by (simp add: d_def)
  have "0 \<le> d" using assms(1,2) by (simp add: d_def)
  from jitter_bounds [OF assms(4,5) this] d tui_backoff.delay_closed [OF safe] consumer_backoff.delay_closed [OF safe]
  show ?thesis by (simp add: NextInterval_def jittered_def d_def)
qed

theorem retry_delays_witness:
  "10 * NextInterval (1 / 2) \<lparr>baseInterval = 5000000000, maxInterval = 60000000000, autoReconnect = True, attempt = 7\<rparr>
    \<le> 660000000000"
  using retry_delays [of "\<lparr>baseInterval = 5000000000, maxInterval = 60000000000, autoReconnect = True, attempt = 7\<rparr>" "1 / 2"]
  by simp

text \<open>C30: No goroutine of the IPC side panics: under every interleaving of sessions ending, health
  checks timing out, reconnections, cancellation and the consumer loop, no event channel is closed
  twice, no event is sent on a closed channel and \<open>Run\<close> never runs without one; and the channel that
  \<open>Events\<close> hands out is open.\<close>

theorem ipc_never_panics:
  assumes "ireachable parseFrame decode c ps s"
  shows "\<not> sys_panic s \<and>
    (ipc_events (cli s) = Some ch \<longrightarrow> (\<exists>q. chans (cli s) ch = Some q \<and> \<not> ch_closed q))"
  using ireachable_inv [OF assms] by (auto simp: sys_inv_def chans_ok_def open_chan_def)

theorem ipc_never_panics_witness: "\<not> sys_panic (first_session quiet_config ''p'')"
  by (rule ipc_never_panics [OF first_session_reachable [of "\<lambda>_. None" "\<lambda>_. None"], THEN conjunct1])

text \<open>C31: Events are delivered in order and without loss once accepted: for every session's channel, the
  events put in are those taken out followed by those still buffered, at most sixty-four; and the
  activities handed to the presence machine are exactly those of the frames taken out, in order.\<close>

theorem ipc_events_in_order:
  assumes "ireachable parseFrame decode c ps s"
  shows "evs ch (emitted s) = evs ch (consumed s) @ buffered (cli s) ch \<and>
    length (buffered (cli s) ch) \<le> 64 \<and>
    updates s = List.map_filter (\<lambda>x. event_activity decode (snd x)) (consumed s)"
  using ireachable_fifo [OF assms] sys_inv_buffered [OF ireachable_inv [OF assms]]
  by (simp_all add: fifo_inv_def)

theorem ipc_events_in_order_witness:
  "\<exists>s. ireachable text_frame (\<lambda>_. Some plain_source) quiet_config [''p''] s \<and> consumed s \<noteq> [] \<and>
     [plain_activity] = List.map_filter (\<lambda>x. event_activity (\<lambda>_. Some plain_source) (snd x)) (consumed s)"
proof -
  obtain s where s: "ireachable text_frame (\<lambda>_. Some plain_source) quiet_config [''p''] s" "updates s = [plain_activity]"
    using plain_frame_run [of quiet_config "''p''"] by blast
  note u = ipc_events_in_order [OF s(1), THEN conjunct2, THEN conjunct2]
  with s(2) have "consumed s \<noteq> []" by (auto simp: List.map_filter_def)
  with s u show ?thesis by auto
qed

text \<open>C32: Clients are told of the connection in strict alternation: the state messages broadcast by the
  consumer loop are connected, reconnecting, connected, and so on, and the last is connected exactly
  while the loop is reading the events of a session.\<close>

theorem ipc_broadcasts_alternate:
  assumes "ireachable parseFrame decode c ps s"
  shows "\<exists>n. bcasts s = concat (replicate n [NewStateMessage StateConnected [], NewStateMessage StateReconnecting []]) @
    (if \<exists>ch. looper s = Loop_Range ch then [NewStateMessage StateConnected []] else [])"
  using ireachable_bcast [OF assms] by (simp add: bcast_inv_def alternating_def)

theorem ipc_broadcasts_alternate_witness:
  "\<exists>n. bcasts (first_session quiet_config ''p'') =
     concat (replicate n [NewStateMessage StateConnected [], NewStateMessage StateReconnecting []])"
  using ipc_broadcasts_alternate [OF first_session_reachable [of "\<lambda>_. None" "\<lambda>_. None" quiet_config "''p''"]]
  by (simp add: first_session_def)

text \<open>C33: The error event of a frame that does not parse is taken for the end of the session: while the
  client stays connected and goes on reading the same session, the consumer loop tells the clients
  that it is reconnecting and then that it is connected again.\<close>

theorem bad_frame_fakes_reconnect:
  assumes "parseFrame bad = None"
  shows "\<exists>s. ireachable parseFrame decode c [p] s \<and> ipc_state (cli s) = IPC_Connected \<and>
    runner s = Run_reading 0 \<and> looper s = Loop_Range 0 \<and> bcasts s =
      [NewStateMessage StateConnected [], NewStateMessage StateReconnecting [], NewStateMessage StateConnected []]"
  using assms by (rule bad_frame_run [where bad = bad])

theorem bad_frame_fakes_reconnect_witness:
  "\<exists>s. ireachable (\<lambda>_. None) (\<lambda>_. None) quiet_config [''p''] s \<and> ipc_state (cli s) = IPC_Connected \<and>
     NewStateMessage StateReconnecting [] \<in> set (bcasts s)"
  using bad_frame_fakes_reconnect [of "\<lambda>_. None" "[]" "\<lambda>_. None" quiet_config "''p''"] by auto



section \<open>Starting the proxy, and its token\<close>



text \<open>C36: Nothing is served without the token.  On a proxy started with authentication enabled, after any
  history of requests and disconnections, a request that does not carry the token is answered by a
  refusal (401, 413 or 429) or a redirect, with no cookie, unless its route is one of the four open
  ones: the health probes and the metrics.  In particular neither the presence, the state, the
  dashboard nor an upgrade is granted.\<close>

theorem unauthorized_requests_refused:
  assumes "start_proxy ps env net mdns_ok hostname c = Serving px"
    and "auth_Enabled (Auth c)" and "\<not> BearerAuthFunc (Auth c) r" and "take 1 (Path r) = ''/''"
    and "s = fst (fold conn_step hist (px_server px, 0))"
  shows "refusal (fst (ServeHTTP e r s)) \<and> rs_cookie (fst (ServeHTTP e r s)) = None \<or>
    (\<exists>h. mux_match (mux s) (Path r) = Some h \<and> h \<in> open_routes)"
proof -
  have px: "px_server px = started_server c" by (rule start_proxy_Serving(1) [OF assms(1)])
  have auth: "srv_auth s = Some (BearerAuthFunc (Auth c))" "ws_auth s = Some (BearerAuthFunc (Auth c))"
    and mux: "mux s = mux (started_server c)"
    using conn_run_frame [of hist "(px_server px, 0)"] assms(2) by (simp_all add: assms(5) px started_server_def)
  from mux_match_started [OF assms(4)] mux obtain h where h: "mux_match (mux s) (Path r) = Some h" by fastforce
  show ?thesis
  proof (cases "h \<in> open_routes")
    case True
    with h show ?thesis by blast
  next
    case False
    with unauthorized_response [OF auth assms(3) h] show ?thesis by simp
  qed
qed

theorem unauthorized_requests_refused_witness:
  "refusal (fst (ServeHTTP demo_env (demo_request ''/api/presence'') (started_server demo_config)))"
proof -
  let ?r = "demo_request ''/api/presence''"
  have "refusal (fst (ServeHTTP demo_env ?r (started_server demo_config))) \<and>
      rs_cookie (fst (ServeHTTP demo_env ?r (started_server demo_config))) = None \<or>
    (\<exists>h. mux_match (mux (started_server demo_config)) (Path ?r) = Some h \<and> h \<in> open_routes)"
    by (rule unauthorized_requests_refused [OF demo_serving, where hist = "[]"])
      (simp_all add: demo_unauthorized demo_auth demo_proxy_def, simp add: demo_request_def)
  then show ?thesis by (simp add: demo_route open_routes_def)
qed

section \<open>The clients\<close>


text \<open>C38: The terminal client keeps exactly one driver.  In every reachable state of the running program,
  until it quits, exactly one of the commands that keep the connection going is in flight: a dial, a
  read or a wait to reconnect; and the wait is between zero and thirty seconds.\<close>

theorem tui_one_driver:
  assumes "treachable errtxt url t (Running m cs)"
  shows "length (filter drives cs) \<le> 1 \<and> (\<not> m_quitting m \<longrightarrow> length (filter drives cs) = 1) \<and>
    0 \<le> sint (m_backoff m) \<and> sint (m_backoff m) \<le> 30000000000"
  using treachable_driver [OF assms] by (simp_all add: one_driver_def)

theorem tui_one_driver_witness: "length (filter drives [Cmd_connect]) = 1"
  using tui_one_driver [OF treachable_init [of "\<lambda>_. []" "[]" 0]] by (simp add: newModel_def)

section \<open>Read deadlines\<close>

text \<open>C39: Who is kept and who is dropped.  The server's read pump reads a client for as long as its frames
  come within sixty seconds of its last pong, and ends sixty seconds after that.  The example consumer,
  on a connection where the server writes messages, pings and a close frame and only pings are
  answered with pongs, ends its session at the latest ninety seconds after it began, however much it
  is sent: it waits for pongs that nobody sends.\<close>

theorem read_deadlines:
  assumes "kept_alive pongWait t0 fs" and "list_all (\<lambda>x. acceptable maxMessageSize (snd x)) fs"
    and "run_of (\<lambda>l::unit. exchange) ls fresh_wire x" and "set (map snd gs) \<subseteq> set (to_consumer x)"
  shows "ReadPump t0 fs = (documents fs, last (t0 # pongs fs) + 60 * nanos) \<and>
    snd (consumer_reads t0 gs) \<le> t0 + 90 * nanos"
  using server_reads.reader_lifetime [OF assms(1,2)] consumer_always_times_out [OF assms(3,4)]
  by (simp add: pongWait_def consumerPongWait_def)

theorem read_deadlines_witness:
  "ReadPump 0 [(40 * nanos, Pong_frame), (80 * nanos, Text_frame 9 None)] = ([None], 100 * nanos) \<and>
   snd (consumer_reads 0 [(30 * nanos, Ping_frame), (85 * nanos, Text_frame 9 (Some (J_str [])))]) \<le> 90 * nanos"
proof -
  let ?f = "WritePump_frame (Queued 9 (J_str []))"
  have "run_of (\<lambda>l::unit. exchange) [(), ()] fresh_wire \<lparr>to_consumer = [Ping_frame, ?f], to_server = []\<rparr>"
    using run_Cons [where step = "\<lambda>l::unit. exchange", OF exchange.server_writes [of fresh_wire Tick]
        run_single [where step = "\<lambda>l::unit. exchange", OF exchange.server_writes [of _ "Queued 9 (J_str [])"]]]
    by (simp add: fresh_wire_def)
  from read_deadlines [OF _ _ this, of 0 "[(40 * nanos, Pong_frame), (80 * nanos, Text_frame 9 None)]"
      "[(30 * nanos, Ping_frame), (85 * nanos, ?f)]"]
  show ?thesis by (simp add: kept_alive_Cons kept_alive_Nil maxMessageSize_def pongWait_def nanos_def)
qed

section \<open>The capture tool\<close>



end
